theory Spec2Isabelle
  imports Complex_Main "HOL-Library.List_Lexorder"
begin

section \<open>JavaScript strings\<close>

text \<open>
  A JavaScript string is a sequence of UTF-16 code units; a code unit is modelled by its
  number. \<open>str\<close> turns an ASCII literal into such a sequence, so that
  \<open>str ''VII''\<close> is the string "VII".
\<close>

type_synonym jsstring = "nat list"

definition str :: "string \<Rightarrow> jsstring" where
  "str s = map of_char s"

text \<open>
  \<open>String.prototype.trim\<close> removes the WhiteSpace and LineTerminator code units of
  ECMAScript from both ends.
\<close>

definition isWhiteSpace :: "nat \<Rightarrow> bool" where
  "isWhiteSpace c \<longleftrightarrow>
     (9 \<le> c \<and> c \<le> 13) \<or> c = 32 \<or> c = 160 \<or> c = 5760 \<or> (8192 \<le> c \<and> c \<le> 8202) \<or>
     c = 8232 \<or> c = 8233 \<or> c = 8239 \<or> c = 8287 \<or> c = 12288 \<or> c = 65279"

definition trim :: "jsstring \<Rightarrow> jsstring" where
  "trim s = rev (dropWhile isWhiteSpace (rev (dropWhile isWhiteSpace s)))"

text \<open>
  \<open>toUpperCase\<close> and \<open>toLowerCase\<close> map code unit by code unit. A code unit below 128
  (Basic Latin) changes only if it is a letter of the other case. For the other code units
  the two tables below give the Unicode case mappings of U+0080 to U+017F (Latin-1
  Supplement and Latin Extended-A), of U+039C and U+03BC (capital and small mu, which the
  micro sign U+00B5 leads to) and of U+1E9E (capital sharp s); a code unit of these ranges
  that is not in a table has no case mapping. Three mappings give two code units: small
  sharp s (U+00DF) has the capital form "SS", U+0149 the capital form U+02BC "N", and
  capital I with dot (U+0130) the small form "i" U+0307. Dotless i (U+0131) has the capital
  form "I" and long s (U+017F) the capital form "S". The code units that the tables lead to
  are again covered, so that the two functions can be composed on these strings. A code
  unit outside these ranges is left as it is; this is what JavaScript does for a code unit
  without case mapping, and the letters of other scripts that have one are not covered.
  The general results on row names are stated for strings over ASCII and the Polish
  letters.
\<close>

definition upperTable :: "(nat \<times> jsstring) list" where
  "upperTable =
     [(181, [924]), (223, [83, 83]), (224, [192]), (225, [193]), (226, [194]), (227, [195]),
      (228, [196]), (229, [197]), (230, [198]), (231, [199]), (232, [200]), (233, [201]),
      (234, [202]), (235, [203]), (236, [204]), (237, [205]), (238, [206]), (239, [207]),
      (240, [208]), (241, [209]), (242, [210]), (243, [211]), (244, [212]), (245, [213]),
      (246, [214]), (248, [216]), (249, [217]), (250, [218]), (251, [219]), (252, [220]),
      (253, [221]), (254, [222]), (255, [376]), (257, [256]), (259, [258]), (261, [260]),
      (263, [262]), (265, [264]), (267, [266]), (269, [268]), (271, [270]), (273, [272]),
      (275, [274]), (277, [276]), (279, [278]), (281, [280]), (283, [282]), (285, [284]),
      (287, [286]), (289, [288]), (291, [290]), (293, [292]), (295, [294]), (297, [296]),
      (299, [298]), (301, [300]), (303, [302]), (305, [73]), (307, [306]), (309, [308]),
      (311, [310]), (314, [313]), (316, [315]), (318, [317]), (320, [319]), (322, [321]),
      (324, [323]), (326, [325]), (328, [327]), (329, [700, 78]), (331, [330]), (333, [332]),
      (335, [334]), (337, [336]), (339, [338]), (341, [340]), (343, [342]), (345, [344]),
      (347, [346]), (349, [348]), (351, [350]), (353, [352]), (355, [354]), (357, [356]),
      (359, [358]), (361, [360]), (363, [362]), (365, [364]), (367, [366]), (369, [368]),
      (371, [370]), (373, [372]), (375, [374]), (378, [377]), (380, [379]), (382, [381]),
      (383, [83]), (956, [924])]"

definition lowerTable :: "(nat \<times> jsstring) list" where
  "lowerTable =
     [(192, [224]), (193, [225]), (194, [226]), (195, [227]), (196, [228]), (197, [229]),
      (198, [230]), (199, [231]), (200, [232]), (201, [233]), (202, [234]), (203, [235]),
      (204, [236]), (205, [237]), (206, [238]), (207, [239]), (208, [240]), (209, [241]),
      (210, [242]), (211, [243]), (212, [244]), (213, [245]), (214, [246]), (216, [248]),
      (217, [249]), (218, [250]), (219, [251]), (220, [252]), (221, [253]), (222, [254]),
      (256, [257]), (258, [259]), (260, [261]), (262, [263]), (264, [265]), (266, [267]),
      (268, [269]), (270, [271]), (272, [273]), (274, [275]), (276, [277]), (278, [279]),
      (280, [281]), (282, [283]), (284, [285]), (286, [287]), (288, [289]), (290, [291]),
      (292, [293]), (294, [295]), (296, [297]), (298, [299]), (300, [301]), (302, [303]),
      (304, [105, 775]), (306, [307]), (308, [309]), (310, [311]), (313, [314]), (315, [316]),
      (317, [318]), (319, [320]), (321, [322]), (323, [324]), (325, [326]), (327, [328]),
      (330, [331]), (332, [333]), (334, [335]), (336, [337]), (338, [339]), (340, [341]),
      (342, [343]), (344, [345]), (346, [347]), (348, [349]), (350, [351]), (352, [353]),
      (354, [355]), (356, [357]), (358, [359]), (360, [361]), (362, [363]), (364, [365]),
      (366, [367]), (368, [369]), (370, [371]), (372, [373]), (374, [375]), (376, [255]),
      (377, [378]), (379, [380]), (381, [382]), (924, [956]), (7838, [223])]"

definition upperUnit :: "nat \<Rightarrow> jsstring" where
  "upperUnit c =
     (if c < 128 then (if 97 \<le> c \<and> c \<le> 122 then [c - 32] else [c])
      else case map_of upperTable c of
             Some u \<Rightarrow> u
           | None \<Rightarrow> [c])"

definition lowerUnit :: "nat \<Rightarrow> jsstring" where
  "lowerUnit c =
     (if c < 128 then (if 65 \<le> c \<and> c \<le> 90 then [c + 32] else [c])
      else case map_of lowerTable c of
             Some l \<Rightarrow> l
           | None \<Rightarrow> [c])"

definition toUpperCase :: "jsstring \<Rightarrow> jsstring" where
  "toUpperCase s = concat (map upperUnit s)"

definition toLowerCase :: "jsstring \<Rightarrow> jsstring" where
  "toLowerCase s = concat (map lowerUnit s)"

text \<open>\<open>s.split(sep)\<close> for a separator of one code unit: never the empty array.\<close>

fun split :: "nat \<Rightarrow> jsstring \<Rightarrow> jsstring list" where
  "split sep [] = [[]]"
| "split sep (c # cs) =
     (if c = sep then [] # split sep cs
      else case split sep cs of
             [] \<Rightarrow> [[c]]
           | p # ps \<Rightarrow> (c # p) # ps)"

fun join :: "nat \<Rightarrow> jsstring list \<Rightarrow> jsstring" where
  "join sep [] = []"
| "join sep [p] = p"
| "join sep (p # q # ps) = p @ [sep] @ join sep (q # ps)"

text \<open>\<open>String(n)\<close> for a non-negative integer: its decimal digits.\<close>

fun numToString :: "nat \<Rightarrow> jsstring" where
  "numToString n = (if n < 10 then [48 + n] else numToString (n div 10) @ [48 + n mod 10])"

declare numToString.simps [simp del]

abbreviation hyphen :: nat where "hyphen \<equiv> 45"
abbreviation colon :: nat where "colon \<equiv> 58"

text \<open>
  The Polish letters outside ASCII, as pairs (capital, small):
  A-ogonek, C-acute, E-ogonek, L-stroke, N-acute, O-acute, S-acute, Z-acute, Z-dot.
\<close>

definition polishLetters :: "(nat \<times> nat) list" where
  "polishLetters =
     [(260, 261), (262, 263), (280, 281), (321, 322), (323, 324), (211, 243),
      (346, 347), (377, 378), (379, 380)]"

text \<open>
  The labels the general results on row names are stated for: strings over ASCII and the
  Polish letters.
\<close>

definition plainUnit :: "nat \<Rightarrow> bool" where
  "plainUnit c \<longleftrightarrow> c < 128 \<or> c \<in> fst ` set polishLetters \<or> c \<in> snd ` set polishLetters"

text \<open>
  A code unit that \<open>toLowerCase\<close> maps to one code unit, which \<open>toUpperCase\<close> maps
  back to it.
\<close>

definition stableUnit :: "nat \<Rightarrow> bool" where
  "stableUnit u \<longleftrightarrow>
     (\<exists>l. lowerUnit u = [l] \<and> upperUnit l = [u] \<and> (isWhiteSpace l \<longleftrightarrow> isWhiteSpace u))"

section \<open>Row names and seat keys\<close>

subsection \<open>The stats route\<close>

definition ROMAN_MAP :: "(jsstring \<times> nat) list" where
  "ROMAN_MAP =
     [(str ''I'', 1), (str ''II'', 2), (str ''III'', 3), (str ''IV'', 4), (str ''V'', 5),
      (str ''VI'', 6), (str ''VII'', 7), (str ''VIII'', 8), (str ''IX'', 9), (str ''X'', 10),
      (str ''XI'', 11), (str ''XII'', 12), (str ''XIII'', 13), (str ''XIV'', 14),
      (str ''XV'', 15), (str ''XVI'', 16), (str ''XVII'', 17), (str ''XVIII'', 18),
      (str ''XIX'', 19), (str ''XX'', 20), (str ''XXI'', 21), (str ''XXII'', 22),
      (str ''XXIII'', 23), (str ''XXIV'', 24), (str ''XXV'', 25), (str ''XXVI'', 26),
      (str ''XXVII'', 27), (str ''XXVIII'', 28), (str ''XXIX'', 29), (str ''XXX'', 30)]"

definition isDigit :: "nat \<Rightarrow> bool" where
  "isDigit c \<longleftrightarrow> 48 \<le> c \<and> c \<le> 57"

text \<open>The character class \<open>[IVXLC]\<close>.\<close>

definition isRomanLetter :: "nat \<Rightarrow> bool" where
  "isRomanLetter c \<longleftrightarrow> c = 73 \<or> c = 86 \<or> c = 88 \<or> c = 76 \<or> c = 67"

text \<open>
  \<open>trimmed.match(/(\d+|[IVXLC]+)$/)\<close>: the regular expression is tried at every start
  position from the left, the first alternative before the second; an alternative matches
  at a position exactly when the whole rest of the string is in its class. The result is
  the captured group.
\<close>

fun matchNumeralSuffix :: "jsstring \<Rightarrow> jsstring option" where
  "matchNumeralSuffix [] = None"
| "matchNumeralSuffix (c # cs) =
     (if list_all isDigit (c # cs) then Some (c # cs)
      else if list_all isRomanLetter (c # cs) then Some (c # cs)
      else matchNumeralSuffix cs)"

definition normalizeRowName :: "jsstring \<Rightarrow> jsstring" where
  "normalizeRowName row =
     (let trimmed = toUpperCase (trim row) in
      case map_of ROMAN_MAP trimmed of
        Some n \<Rightarrow> numToString n
      | None \<Rightarrow>
         (case matchNumeralSuffix trimmed of
            Some numPart \<Rightarrow>
              (case map_of ROMAN_MAP numPart of
                 Some n \<Rightarrow> numToString n
               | None \<Rightarrow> numPart)
          | None \<Rightarrow> toLowerCase trimmed))"

definition normalizeSeatKey :: "jsstring \<Rightarrow> jsstring" where
  "normalizeSeatKey seatKey =
     (case split hyphen seatKey of
        p # q # ps \<Rightarrow> normalizeRowName p @ [hyphen] @ join hyphen (q # ps)
      | _ \<Rightarrow> seatKey)"

subsection \<open>The page component\<close>

text \<open>The page has its own copy of \<open>ROMAN_MAP\<close>, with the same thirty entries.\<close>

definition page_normalizeRowName :: "jsstring \<Rightarrow> jsstring" where
  "page_normalizeRowName row =
     (let upperRow = trim (toUpperCase row) in
      case map_of ROMAN_MAP upperRow of
        Some n \<Rightarrow> numToString n
      | None \<Rightarrow> trim row)"

definition page_normalizeSeatKey :: "jsstring \<Rightarrow> jsstring" where
  "page_normalizeSeatKey seatKey =
     (case split hyphen seatKey of
        p # q # ps \<Rightarrow> page_normalizeRowName p @ [hyphen] @ join hyphen (q # ps)
      | _ \<Rightarrow> seatKey)"

section \<open>Statistics\<close>

datatype SourceType = biletyna | ebilet | kupbilecik

text \<open>\<open>RowStats\<close> and the \<open>totals\<close> objects have the same three fields.\<close>

record Counts =
  total :: int
  free :: int
  taken :: int

text \<open>
  An object used as a dictionary (\<open>Record<string, T>\<close>), or a \<open>Map\<close>, is an association
  list in insertion order; it is read with \<open>map_of\<close> and written with \<open>assign\<close>.
\<close>

fun assign :: "('k \<times> 'v) list \<Rightarrow> 'k \<Rightarrow> 'v \<Rightarrow> ('k \<times> 'v) list" where
  "assign [] k v = [(k, v)]"
| "assign ((k', v') # kvs) k v =
     (if k' = k then (k, v) # kvs else (k', v') # assign kvs k v)"

text \<open>
  The seat data of one sector as the Biletyna parser returns it. \<open>SectorStats\<close> has the
  same three fields, and the sector name and the totals in addition. The keys of \<open>rows\<close>
  are distinct, as the keys of an object are; nothing below depends on their order.
\<close>

record BiletynaSectorResult =
  rows :: "(jsstring \<times> Counts) list"
  freeSeats :: "jsstring list"
  takenSeats :: "jsstring list"

record SectorStats = BiletynaSectorResult +
  sectorName :: jsstring
  totals :: Counts

record SourceStats =
  source :: SourceType
  sourceTotals :: Counts
  sourceRows :: "(jsstring \<times> Counts) list"
  sourceFreeSeats :: "jsstring list"
  sourceTakenSeats :: "jsstring list"
  sectors :: "SectorStats list option"
  finalUrl :: "jsstring option"

section \<open>JavaScript numbers\<close>

text \<open>
  A JavaScript number is an IEEE 754 double: a real number \<open>m * 2^k\<close> with an integer
  \<open>m\<close> of at most 53 bits and \<open>k\<close> at least -1074. Every arithmetic operation gives the
  exact result rounded to the nearest double, a tie going to the double with the even
  significand. \<open>fl\<close> is this rounding: \<open>binade x\<close> is the exponent of the binade that
  \<open>x\<close> lies in (fixed at -1022 for the subnormal numbers), \<open>ulp x\<close> the distance of
  two neighbouring doubles in that binade. \<open>fl\<close> covers the finite range: a result
  of magnitude \<open>2^1024\<close> or more, which JavaScript replaces by an infinity, does not arise
  in the score below, which is computed from numbers of rows and seats.
\<close>

definition roundEven :: "real \<Rightarrow> int" where
  "roundEven x =
     (let f = \<lfloor>x\<rfloor>; d = x - of_int f in
      if d < 1 / 2 then f else if 1 / 2 < d then f + 1 else if even f then f else f + 1)"

definition binade :: "real \<Rightarrow> int" where
  "binade x = max \<lfloor>log 2 \<bar>x\<bar>\<rfloor> (- 1022)"

definition ulp :: "real \<Rightarrow> real" where
  "ulp x = 2 powi (binade x - 52)"

definition fl :: "real \<Rightarrow> real" where
  "fl x = (if x = 0 then 0 else sgn x * (real_of_int (roundEven (\<bar>x\<bar> / ulp x)) * ulp x))"

text \<open>The operators \<open>+\<close>, \<open>-\<close>, \<open>*\<close> and \<open>/\<close> of JavaScript.\<close>

definition jsAdd :: "real \<Rightarrow> real \<Rightarrow> real" where "jsAdd x y = fl (x + y)"
definition jsSub :: "real \<Rightarrow> real \<Rightarrow> real" where "jsSub x y = fl (x - y)"
definition jsMul :: "real \<Rightarrow> real \<Rightarrow> real" where "jsMul x y = fl (x * y)"
definition jsDiv :: "real \<Rightarrow> real \<Rightarrow> real" where "jsDiv x y = fl (x / y)"

section \<open>Sector matching\<close>

text \<open>
  \<open>relDiff a b\<close> is the exact value of \<open>Math.abs(a - b) / Math.max(a, b, 1)\<close> for two row
  counts. The code compares the rounded quotient with the double 0.3; for row counts below
  \<open>2^32\<close>, as the lengths of arrays are, this comparison has the same outcome as the
  comparison of the exact quotient with 3/10 (lemma \<open>row_filter_rounding\<close> below), which is
  the one that the loop \<open>matchLoop\<close> makes.
\<close>

definition relDiff :: "int \<Rightarrow> int \<Rightarrow> real" where
  "relDiff a b = \<bar>real_of_int a - real_of_int b\<bar> / real_of_int (max (max a b) 1)"

text \<open>
  The score that \<open>matchSectorByStructure\<close> gives to a candidate that passed the row-count
  check is the sum of three parts: up to 30 points for the row counts, up to 30 points for
  the seat counts and up to 40 points for the row names. It is computed in doubles, every
  operation rounded, in the order of the code.
\<close>

text \<open>\<open>Array.from(ebiletRows.values()).reduce((sum, r) => sum + r.total, 0)\<close>\<close>

definition ebiletTotalSeats :: "(jsstring \<times> Counts) list \<Rightarrow> real" where
  "ebiletTotalSeats ebiletRows =
     foldl (\<lambda>sum r. jsAdd sum (real_of_int (total r))) 0 (map snd ebiletRows)"

text \<open>\<open>rowCountDiff\<close>, the rounded quotient, as the score uses it.\<close>

definition rowCountDiff :: "int \<Rightarrow> int \<Rightarrow> real" where
  "rowCountDiff ebiletRowCount kbRowCount = fl (relDiff ebiletRowCount kbRowCount)"

definition rowCountPoints :: "int \<Rightarrow> int \<Rightarrow> real" where
  "rowCountPoints ebiletRowCount kbRowCount =
     (if ebiletRowCount = kbRowCount then 30
      else max 0 (jsSub 30 (jsMul (rowCountDiff ebiletRowCount kbRowCount) 100)))"

text \<open>
  \<open>Math.abs(ebiletTotalSeats - kbTotalSeats) / Math.max(ebiletTotalSeats, kbTotalSeats, 1)\<close>
\<close>

definition seatDiffPercent :: "real \<Rightarrow> real \<Rightarrow> real" where
  "seatDiffPercent ebiletTotal kbTotalSeats =
     jsDiv \<bar>jsSub ebiletTotal kbTotalSeats\<bar> (max (max ebiletTotal kbTotalSeats) 1)"

definition seatCountPoints :: "real \<Rightarrow> real \<Rightarrow> real" where
  "seatCountPoints ebiletTotal kbTotalSeats =
     (if ebiletTotal = kbTotalSeats then 30
      else max 0 (jsSub 30 (jsMul (seatDiffPercent ebiletTotal kbTotalSeats) 150)))"

text \<open>
  The number of normalized row names of the vendor sector that are normalized row names
  of the candidate. A \<open>Set\<close> of strings that is only counted and searched is a list
  without duplicates.
\<close>

definition matchingRowNames :: "jsstring list \<Rightarrow> jsstring list \<Rightarrow> nat" where
  "matchingRowNames ebiletRowNames kbRowNames =
     (let normalizedEbiletRows = remdups (map normalizeRowName ebiletRowNames);
          normalizedKbRows = remdups (map normalizeRowName kbRowNames)
      in length (filter (\<lambda>normalizedRow. normalizedRow \<in> set normalizedKbRows) normalizedEbiletRows))"

definition rowNameMatchRatio :: "jsstring list \<Rightarrow> jsstring list \<Rightarrow> real" where
  "rowNameMatchRatio ebiletRowNames kbRowNames =
     jsDiv (real (matchingRowNames ebiletRowNames kbRowNames))
           (real_of_int (max (int (length ebiletRowNames)) 1))"

definition sectorScore :: "(jsstring \<times> Counts) list \<Rightarrow> SectorStats \<Rightarrow> real" where
  "sectorScore ebiletRows sector =
     (let ebiletRowNames = map fst ebiletRows;
          ebiletRowCount = int (length ebiletRowNames);
          kbRowNames = map fst (rows sector);
          kbRowCount = int (length kbRowNames);
          kbTotalSeats = real_of_int (total (totals sector));
          score1 = jsAdd 0 (rowCountPoints ebiletRowCount kbRowCount);
          score2 = jsAdd score1 (seatCountPoints (ebiletTotalSeats ebiletRows) kbTotalSeats)
      in jsAdd score2 (jsMul (rowNameMatchRatio ebiletRowNames kbRowNames) 40))"

text \<open>
  The loop over the canonical sectors, with the best match and the best score so far.
\<close>

fun matchLoop ::
  "(jsstring \<times> Counts) list \<Rightarrow> SectorStats list \<Rightarrow> jsstring set
     \<Rightarrow> SectorStats option \<times> real \<Rightarrow> SectorStats option \<times> real" where
  "matchLoop ebiletRows [] matchedSectors best = best"
| "matchLoop ebiletRows (sector # rest) matchedSectors (bestMatch, bestScore) =
     (if sectorName sector \<in> matchedSectors
        then matchLoop ebiletRows rest matchedSectors (bestMatch, bestScore)
      else if relDiff (int (length ebiletRows)) (int (length (rows sector))) > 3 / 10
        then matchLoop ebiletRows rest matchedSectors (bestMatch, bestScore)
      else if sectorScore ebiletRows sector > bestScore
        then matchLoop ebiletRows rest matchedSectors (Some sector, sectorScore ebiletRows sector)
      else matchLoop ebiletRows rest matchedSectors (bestMatch, bestScore))"

text \<open>
  \<open>matchSectorByStructure\<close> returns the match and adds its name to the set
  \<open>matchedSectors\<close>, which both callers pass; the set after the call is the second
  component of the result.
\<close>

definition matchSectorByStructure ::
  "(jsstring \<times> Counts) list \<Rightarrow> SectorStats list \<Rightarrow> jsstring set
     \<Rightarrow> SectorStats option \<times> jsstring set" where
  "matchSectorByStructure ebiletRows kupbilecikSectors matchedSectors =
     (case matchLoop ebiletRows kupbilecikSectors matchedSectors (None, 0) of
        (Some bestMatch, bestScore) \<Rightarrow>
          if bestScore \<ge> 50
          then (Some bestMatch, insert (sectorName bestMatch) matchedSectors)
          else (None, matchedSectors)
      | (None, bestScore) \<Rightarrow> (None, matchedSectors))"

text \<open>
  A candidate is eligible when it is not skipped: its name is not in the set of matched
  sectors and its row count passes the 30% check.
\<close>

definition eligible :: "(jsstring \<times> Counts) list \<Rightarrow> jsstring set \<Rightarrow> SectorStats \<Rightarrow> bool" where
  "eligible ebiletRows matchedSectors sector \<longleftrightarrow>
     sectorName sector \<notin> matchedSectors
     \<and> \<not> relDiff (int (length ebiletRows)) (int (length (rows sector))) > 3 / 10"

text \<open>
  The invariant of the loop: the best score is at least the score of every eligible
  candidate seen, and the best match, if any, is an eligible candidate seen that has it.
\<close>

definition bestSoFar ::
  "(jsstring \<times> Counts) list \<Rightarrow> jsstring set \<Rightarrow> SectorStats list \<Rightarrow> SectorStats option \<times> real \<Rightarrow> bool" where
  "bestSoFar ebiletRows matchedSectors seen best \<longleftrightarrow>
     (\<forall>c\<in>set seen. eligible ebiletRows matchedSectors c \<longrightarrow> sectorScore ebiletRows c \<le> snd best)
     \<and> (case fst best of
          None \<Rightarrow> snd best = 0
        | Some s \<Rightarrow> s \<in> set seen \<and> eligible ebiletRows matchedSectors s
                     \<and> sectorScore ebiletRows s = snd best)"

definition seatTotals :: "jsstring list \<Rightarrow> jsstring list \<Rightarrow> Counts" where
  "seatTotals freeL takenL =
     \<lparr> total = int (length freeL) + int (length takenL),
       free = int (length freeL),
       taken = int (length takenL) \<rparr>"

subsection \<open>Biletyna\<close>

text \<open>
  The loop of \<open>combineBiletynaSectors\<close> over the sector results, from index \<open>i\<close>. For every
  sector result it yields the value of \<open>matchedSector\<close> together with the sector pushed.
\<close>

fun biletynaSectorLoop ::
  "nat \<Rightarrow> BiletynaSectorResult list \<Rightarrow> SectorStats list option \<Rightarrow> jsstring set
     \<Rightarrow> (SectorStats option \<times> SectorStats) list" where
  "biletynaSectorLoop i [] kupbilecikSectors matchedKbSectors = []"
| "biletynaSectorLoop i (data # rest) kupbilecikSectors matchedKbSectors =
     (let (matchedSector, matchedKbSectors') =
            (case kupbilecikSectors of
               None \<Rightarrow> (None, matchedKbSectors)
             | Some kb \<Rightarrow> matchSectorByStructure (rows data) kb matchedKbSectors);
          name = (case matchedSector of
                    None \<Rightarrow> str ''Sektor '' @ numToString (i + 1)
                  | Some m \<Rightarrow> sectorName m)
      in (matchedSector,
          \<lparr> rows = rows data, freeSeats = freeSeats data, takenSeats = takenSeats data,
            sectorName = name, totals = seatTotals (freeSeats data) (takenSeats data) \<rparr>)
         # biletynaSectorLoop (i + 1) rest kupbilecikSectors matchedKbSectors')"

text \<open>"Add to global stats": the rows of one sector are added to the global row table.\<close>

fun addRowStats ::
  "(jsstring \<times> Counts) list \<Rightarrow> (jsstring \<times> Counts) list \<Rightarrow> (jsstring \<times> Counts) list" where
  "addRowStats globalRowsData [] = globalRowsData"
| "addRowStats globalRowsData ((row, stats) # rest) =
     (let globalStats = (case map_of globalRowsData row of
                           None \<Rightarrow> \<lparr> total = 0, free = 0, taken = 0 \<rparr>
                         | Some g \<Rightarrow> g)
      in addRowStats
           (assign globalRowsData row
              \<lparr> total = total globalStats + total stats,
                free = free globalStats + free stats,
                taken = taken globalStats + taken stats \<rparr>)
           rest)"

text \<open>
  The matching that \<open>combineBiletynaSectors\<close> does: none for fewer than two sector
  results, the loop with a fresh set \<open>matchedKbSectors\<close> otherwise.
\<close>

definition biletynaMatches ::
  "BiletynaSectorResult list \<Rightarrow> SectorStats list option
     \<Rightarrow> (SectorStats option \<times> SectorStats) list" where
  "biletynaMatches sectorResults kupbilecikSectors =
     (case sectorResults of
        [] \<Rightarrow> []
      | [data] \<Rightarrow> []
      | _ \<Rightarrow> biletynaSectorLoop 0 sectorResults kupbilecikSectors {})"

definition combineBiletynaSectors ::
  "BiletynaSectorResult list \<Rightarrow> SectorStats list option \<Rightarrow> SourceStats option" where
  "combineBiletynaSectors sectorResults kupbilecikSectors =
     (case sectorResults of
        [] \<Rightarrow> None
      | [data] \<Rightarrow>
          Some \<lparr> source = biletyna,
                 sourceTotals = seatTotals (freeSeats data) (takenSeats data),
                 sourceRows = rows data,
                 sourceFreeSeats = freeSeats data,
                 sourceTakenSeats = takenSeats data,
                 sectors = None, finalUrl = None \<rparr>
      | _ \<Rightarrow>
          (let globalFreeSeats = concat (map freeSeats sectorResults);
               globalTakenSeats = concat (map takenSeats sectorResults)
           in Some \<lparr> source = biletyna,
                      sourceTotals = seatTotals globalFreeSeats globalTakenSeats,
                      sourceRows = foldl addRowStats [] (map rows sectorResults),
                      sourceFreeSeats = globalFreeSeats,
                      sourceTakenSeats = globalTakenSeats,
                      sectors = Some (map snd (biletynaMatches sectorResults kupbilecikSectors)),
                      finalUrl = None \<rparr>))"

subsection \<open>eBilet\<close>

record EbiletSeat =
  seat_id :: jsstring
  seat_rn :: jsstring
  seat_n :: jsstring

text \<open>
  The free-seats response: per sector id the groups of free seat ids (\<open>None\<close> is a group
  whose \<open>s\<close> is missing or not an array), and the error field.
\<close>

record EbiletFreeSeatsResponse =
  sfs :: "(jsstring \<times> jsstring list option list) list"
  err :: "jsstring option"

definition freeSeatIdsOf :: "EbiletFreeSeatsResponse \<Rightarrow> jsstring \<Rightarrow> jsstring set" where
  "freeSeatIdsOf freeSeatsData sid =
     (let sectorGroups = (case map_of (sfs freeSeatsData) sid of None \<Rightarrow> [] | Some gs \<Rightarrow> gs)
      in \<Union> (set (map (\<lambda>group. case group of None \<Rightarrow> {} | Some ids \<Rightarrow> set ids) sectorGroups)))"

text \<open>One seat is counted in the row table.\<close>

definition countSeat :: "(jsstring \<times> Counts) list \<Rightarrow> jsstring \<Rightarrow> bool \<Rightarrow> (jsstring \<times> Counts) list" where
  "countSeat rowsData row isFree =
     (let rowStats = (case map_of rowsData row of
                        None \<Rightarrow> \<lparr> total = 0, free = 0, taken = 0 \<rparr>
                      | Some st \<Rightarrow> st)
      in assign rowsData row
           (if isFree
            then rowStats \<lparr> total := total rowStats + 1, free := free rowStats + 1 \<rparr>
            else rowStats \<lparr> total := total rowStats + 1, taken := taken rowStats + 1 \<rparr>))"

text \<open>
  The loop over the seats of one sector, on a row table and the two seat lists. The
  source runs it on the sector's and on the global accumulators at the same time.
\<close>

fun ebiletSeatLoop ::
  "EbiletSeat list \<Rightarrow> jsstring set
     \<Rightarrow> (jsstring \<times> Counts) list \<times> jsstring list \<times> jsstring list
     \<Rightarrow> (jsstring \<times> Counts) list \<times> jsstring list \<times> jsstring list" where
  "ebiletSeatLoop [] freeSeatIds acc = acc"
| "ebiletSeatLoop (seat # rest) freeSeatIds (rowsData, freeL, takenL) =
     (let seatKey = seat_rn seat @ [hyphen] @ seat_n seat;
          row = seat_rn seat
      in if seat_id seat \<in> freeSeatIds
         then ebiletSeatLoop rest freeSeatIds (countSeat rowsData row True, freeL @ [seatKey], takenL)
         else ebiletSeatLoop rest freeSeatIds (countSeat rowsData row False, freeL, takenL @ [seatKey]))"

text \<open>
  The loop of \<open>processEbiletAllSectors\<close> over the sector ids, after \<open>sectorIndex\<close> sectors.
  For every sector with at least one row it yields the value of \<open>matchedSector\<close> together
  with the sector pushed.
\<close>

fun ebiletSectorLoop ::
  "nat \<Rightarrow> (jsstring \<times> EbiletSeat list) list \<Rightarrow> EbiletFreeSeatsResponse
     \<Rightarrow> SectorStats list option \<Rightarrow> jsstring set \<Rightarrow> (SectorStats option \<times> SectorStats) list" where
  "ebiletSectorLoop sectorIndex [] freeSeatsData kupbilecikSectors matchedKbSectors = []"
| "ebiletSectorLoop sectorIndex ((sid, seats) # rest) freeSeatsData kupbilecikSectors matchedKbSectors =
     (let (sectorRowsData, sectorFreeSeats, sectorTakenSeats) =
            ebiletSeatLoop seats (freeSeatIdsOf freeSeatsData sid) ([], [], [])
      in if sectorRowsData \<noteq> [] then
           (let (matchedSector, matchedKbSectors') =
                  (case kupbilecikSectors of
                     None \<Rightarrow> (None, matchedKbSectors)
                   | Some kb \<Rightarrow> matchSectorByStructure sectorRowsData kb matchedKbSectors);
                name = (case matchedSector of
                          None \<Rightarrow> str ''Sektor '' @ numToString (sectorIndex + 1)
                        | Some m \<Rightarrow> sectorName m)
            in (matchedSector,
                \<lparr> rows = sectorRowsData, freeSeats = sectorFreeSeats,
                  takenSeats = sectorTakenSeats, sectorName = name,
                  totals = seatTotals sectorFreeSeats sectorTakenSeats \<rparr>)
               # ebiletSectorLoop (sectorIndex + 1) rest freeSeatsData kupbilecikSectors
                   matchedKbSectors')
         else ebiletSectorLoop (sectorIndex + 1) rest freeSeatsData kupbilecikSectors
                matchedKbSectors)"

text \<open>
  The matching that \<open>processEbiletAllSectors\<close> does: none when the response carries an
  error or no seats were captured, the loop with a fresh set \<open>matchedKbSectors\<close> otherwise.
\<close>

definition ebiletMatches ::
  "(jsstring \<times> EbiletSeat list) list \<Rightarrow> EbiletFreeSeatsResponse \<Rightarrow> SectorStats list option
     \<Rightarrow> (SectorStats option \<times> SectorStats) list" where
  "ebiletMatches seatsBySid freeSeatsData kupbilecikSectors =
     (if err freeSeatsData \<noteq> None then []
      else if seatsBySid = [] then []
      else ebiletSectorLoop 0 seatsBySid freeSeatsData kupbilecikSectors {})"

definition processEbiletAllSectors ::
  "(jsstring \<times> EbiletSeat list) list \<Rightarrow> EbiletFreeSeatsResponse \<Rightarrow> SectorStats list option
     \<Rightarrow> SourceStats option" where
  "processEbiletAllSectors seatsBySid freeSeatsData kupbilecikSectors =
     (if err freeSeatsData \<noteq> None then None
      else if seatsBySid = [] then None
      else
        (let sectorList = map snd (ebiletMatches seatsBySid freeSeatsData kupbilecikSectors);
             (globalRowsData, globalFreeSeats, globalTakenSeats) =
               foldl (\<lambda>acc (sid, seats). ebiletSeatLoop seats (freeSeatIdsOf freeSeatsData sid) acc)
                 ([], [], []) seatsBySid
         in if globalRowsData = [] then None
            else Some \<lparr> source = ebilet,
                        sourceTotals = seatTotals globalFreeSeats globalTakenSeats,
                        sourceRows = globalRowsData,
                        sourceFreeSeats = sort globalFreeSeats,
                        sourceTakenSeats = sort globalTakenSeats,
                        sectors = (if length sectorList > 1 then Some sectorList else None),
                        finalUrl = None \<rparr>))"

subsection \<open>Post-processing of a stats request\<close>

text \<open>
  "POST-PROCESSING and MATCHING": the sectors of KupBilecik are the canonical sectors; the
  raw data of Biletyna is processed first, then the raw data of eBilet. The result is the
  matching done for Biletyna and the matching done for eBilet.
\<close>

definition postProcessMatches ::
  "BiletynaSectorResult list option
     \<Rightarrow> ((jsstring \<times> EbiletSeat list) list \<times> EbiletFreeSeatsResponse) option
     \<Rightarrow> (SourceType \<times> SourceStats) list
     \<Rightarrow> (SectorStats option \<times> SectorStats) list \<times> (SectorStats option \<times> SectorStats) list" where
  "postProcessMatches biletynaRawData ebiletRawData results =
     (let kupbilecikSectors =
            (case map_of results kupbilecik of None \<Rightarrow> None | Some stats \<Rightarrow> sectors stats)
      in ((case biletynaRawData of
             None \<Rightarrow> []
           | Some sectorResults \<Rightarrow> biletynaMatches sectorResults kupbilecikSectors),
          (case ebiletRawData of
             None \<Rightarrow> []
           | Some (seatsBySid, freeSeatsData) \<Rightarrow>
               ebiletMatches seatsBySid freeSeatsData kupbilecikSectors)))"

text \<open>The canonical sectors that a pass matched, in the order of the pass.\<close>

fun matchedOf :: "(SectorStats option \<times> SectorStats) list \<Rightarrow> SectorStats list" where
  "matchedOf [] = []"
| "matchedOf ((None, sector) # rest) = matchedOf rest"
| "matchedOf ((Some m, sector) # rest) = m # matchedOf rest"

section \<open>Seat history\<close>

text \<open>
  The "history mode" of a stats request works on the history loaded for the event, the set
  of keys of the seats that are free in this run and the set of sectors scraped in this
  run. \<open>results\<close> is the object of the per-vendor results, as the list of its entries.
\<close>

record HistoryRun =
  history :: "(jsstring \<times> SourceType) list"
  currentFreeKeys :: "jsstring set"
  knownSectors :: "jsstring set"

fun freeSeatLoop :: "SourceType \<Rightarrow> jsstring \<Rightarrow> jsstring list \<Rightarrow> HistoryRun \<Rightarrow> HistoryRun" where
  "freeSeatLoop src name [] run = run"
| "freeSeatLoop src name (seatKey # rest) run =
     (let normalizedSeatKey = normalizeSeatKey seatKey;
          uniqueKey = name @ [colon] @ normalizedSeatKey
      in freeSeatLoop src name rest
           (run \<lparr> currentFreeKeys := insert uniqueKey (currentFreeKeys run),
                  history := assign (history run) uniqueKey src \<rparr>))"

fun sectorLoop :: "SourceType \<Rightarrow> SectorStats list \<Rightarrow> HistoryRun \<Rightarrow> HistoryRun" where
  "sectorLoop src [] run = run"
| "sectorLoop src (sector # rest) run =
     sectorLoop src rest
       (freeSeatLoop src (sectorName sector) (freeSeats sector)
          (run \<lparr> knownSectors := insert (sectorName sector) (knownSectors run) \<rparr>))"

text \<open>Step 1: a vendor result without a sector list is skipped.\<close>

fun updateHistory :: "(SourceType \<times> SourceStats) list \<Rightarrow> HistoryRun \<Rightarrow> HistoryRun" where
  "updateHistory [] run = run"
| "updateHistory ((sourceName, sourceData) # rest) run =
     (case sectors sourceData of
        None \<Rightarrow> updateHistory rest run
      | Some sectorList \<Rightarrow> updateHistory rest (sectorLoop sourceName sectorList run))"

text \<open>\<open>const [sectorName] = uniqueKey.split(':')\<close>: the key up to its first colon.\<close>

definition keySector :: "jsstring \<Rightarrow> jsstring" where
  "keySector uniqueKey = (case split colon uniqueKey of [] \<Rightarrow> [] | name # _ \<Rightarrow> name)"

text \<open>Step 2: the loop over the entries of the history.\<close>

fun inferSoldLoop ::
  "(jsstring \<times> SourceType) list \<Rightarrow> jsstring set \<Rightarrow> jsstring set
     \<Rightarrow> (jsstring \<times> SourceType) list \<Rightarrow> (jsstring \<times> SourceType) list" where
  "inferSoldLoop [] known freeKeys inferredSold = inferredSold"
| "inferSoldLoop ((uniqueKey, lastSource) # rest) known freeKeys inferredSold =
     (if keySector uniqueKey \<in> known then
        if uniqueKey \<notin> freeKeys
        then inferSoldLoop rest known freeKeys (assign inferredSold uniqueKey lastSource)
        else inferSoldLoop rest known freeKeys inferredSold
      else inferSoldLoop rest known freeKeys inferredSold)"

text \<open>
  Steps 1 to 3 of the history mode: the result is the inferred-sold map and the history
  that is saved.
\<close>

definition historyMode ::
  "(SourceType \<times> SourceStats) list \<Rightarrow> (jsstring \<times> SourceType) list
     \<Rightarrow> (jsstring \<times> SourceType) list \<times> (jsstring \<times> SourceType) list" where
  "historyMode results loaded =
     (let run = updateHistory results \<lparr> history = loaded, currentFreeKeys = {}, knownSectors = {} \<rparr>;
          inferredSold = inferSoldLoop (history run) (knownSectors run) (currentFreeKeys run) []
      in (inferredSold, history run))"

text \<open>
  Two descriptions of a request that the results on the history are stated with, in the
  words of the specification: the free seats that the sector lists of this run report, in
  the order of processing, each as the history key "sectorName:normalizedSeatKey" with the
  vendor that reports it; and the names of the sectors in the sector lists of this run.
\<close>

definition freeReports :: "(SourceType \<times> SourceStats) list \<Rightarrow> (jsstring \<times> SourceType) list" where
  "freeReports results =
     concat (map (\<lambda>(sourceName, sourceData).
        case sectors sourceData of
          None \<Rightarrow> []
        | Some sectorList \<Rightarrow>
            concat (map (\<lambda>sector.
              map (\<lambda>seatKey. (sectorName sector @ [colon] @ normalizeSeatKey seatKey, sourceName))
                (freeSeats sector)) sectorList)) results)"

definition scrapedSectors :: "(SourceType \<times> SourceStats) list \<Rightarrow> jsstring set" where
  "scrapedSectors results =
     set (concat (map (\<lambda>(sourceName, sourceData).
        case sectors sourceData of
          None \<Rightarrow> []
        | Some sectorList \<Rightarrow> map sectorName sectorList) results))"

text \<open>
  Writing a list of entries, one after the other; and the free seats reported by one
  sector list and by the seat list of one sector, as \<open>freeReports\<close> has them.
\<close>

definition assignAll :: "('k \<times> 'v) list \<Rightarrow> ('k \<times> 'v) list \<Rightarrow> ('k \<times> 'v) list" where
  "assignAll h ws = foldl (\<lambda>h (k, v). assign h k v) h ws"

definition seatReports :: "SourceType \<Rightarrow> jsstring \<Rightarrow> jsstring list \<Rightarrow> (jsstring \<times> SourceType) list" where
  "seatReports src name seats = map (\<lambda>seatKey. (name @ [colon] @ normalizeSeatKey seatKey, src)) seats"

definition sectorReports :: "SourceType \<Rightarrow> SectorStats list \<Rightarrow> (jsstring \<times> SourceType) list" where
  "sectorReports src sectorList =
     concat (map (\<lambda>sector. seatReports src (sectorName sector) (freeSeats sector)) sectorList)"

section \<open>Period-over-period diff\<close>

record TakenCounts =
  biletynaTaken :: int
  ebiletTaken :: int
  kupbilecikTaken :: int

record StatsHistoryEntry = TakenCounts +
  timestamp :: jsstring

record StatsDiff = TakenCounts +
  lastUpdated :: jsstring

text \<open>
  The stats history file when a request reads it: missing; present but unreadable, when
  \<open>readFile\<close> or \<open>JSON.parse\<close> throws; or a JSON object with one entry per event id.
  The file is written by \<open>saveStatsHistory\<close> only, which writes such an object.
\<close>

datatype StatsHistoryFile =
    FileMissing
  | FileUnreadable
  | FileObject "(jsstring \<times> StatsHistoryEntry) list"

text \<open>
  The object that \<open>JSON.parse\<close> returns inherits from \<open>Object.prototype\<close>, and
  \<open>history[eventId]\<close> finds an inherited property when the object has no own property of
  that name. These are the names of the properties of \<open>Object.prototype\<close>; the value of
  each of them is a function or an object, and none has a field of a stats entry.
\<close>

definition objectPrototypeNames :: "jsstring list" where
  "objectPrototypeNames =
     [str ''constructor'', str ''__defineGetter__'', str ''__defineSetter__'',
      str ''hasOwnProperty'', str ''__lookupGetter__'', str ''__lookupSetter__'',
      str ''isPrototypeOf'', str ''propertyIsEnumerable'', str ''toString'', str ''valueOf'',
      str ''__proto__'', str ''toLocaleString'']"

text \<open>
  What \<open>loadStatsHistory\<close> returns: \<open>null\<close>, a stored entry, or a property inherited
  from \<open>Object.prototype\<close>. An entry is an object and so never replaced by \<open>null\<close> in
  \<open>history[eventId] || null\<close>; an error is caught and \<open>null\<close> is returned.
\<close>

datatype LoadedStats =
    NoStats
  | StoredEntry StatsHistoryEntry
  | InheritedProperty

definition loadStatsHistory :: "StatsHistoryFile \<Rightarrow> jsstring \<Rightarrow> LoadedStats" where
  "loadStatsHistory file eventId =
     (case file of
        FileMissing \<Rightarrow> NoStats
      | FileUnreadable \<Rightarrow> NoStats
      | FileObject statsHistory \<Rightarrow>
          (case map_of statsHistory eventId of
             Some entry \<Rightarrow> StoredEntry entry
           | None \<Rightarrow>
               if eventId \<in> set objectPrototypeNames then InheritedProperty else NoStats))"

text \<open>
  \<open>history[eventId] = entry\<close>. The name \<open>__proto__\<close> is an accessor of
  \<open>Object.prototype\<close>: unless the object has an own property of that name, the assignment
  changes the prototype of the object and adds no property.
\<close>

definition setProperty ::
  "(jsstring \<times> StatsHistoryEntry) list \<Rightarrow> jsstring \<Rightarrow> StatsHistoryEntry
     \<Rightarrow> (jsstring \<times> StatsHistoryEntry) list" where
  "setProperty statsHistory eventId entry =
     (if eventId = str ''__proto__'' \<and> map_of statsHistory eventId = None then statsHistory
      else assign statsHistory eventId entry)"

text \<open>
  \<open>saveStatsHistory\<close> starts from the empty object when there is no file. When the file
  cannot be read or parsed, the error is caught and nothing is written.
\<close>

definition saveStatsHistory ::
  "StatsHistoryFile \<Rightarrow> jsstring \<Rightarrow> StatsHistoryEntry \<Rightarrow> StatsHistoryFile" where
  "saveStatsHistory file eventId entry =
     (case file of
        FileMissing \<Rightarrow> FileObject (setProperty [] eventId entry)
      | FileUnreadable \<Rightarrow> FileUnreadable
      | FileObject statsHistory \<Rightarrow> FileObject (setProperty statsHistory eventId entry))"

text \<open>\<open>results.biletyna?.totals.taken || 0\<close>\<close>

definition takenOr0 :: "(SourceType \<times> SourceStats) list \<Rightarrow> SourceType \<Rightarrow> int" where
  "takenOr0 results s =
     (case map_of results s of None \<Rightarrow> 0 | Some stats \<Rightarrow> taken (sourceTotals stats))"

definition currentStatsEntry ::
  "(SourceType \<times> SourceStats) list \<Rightarrow> jsstring \<Rightarrow> StatsHistoryEntry" where
  "currentStatsEntry results now =
     \<lparr> biletynaTaken = takenOr0 results biletyna,
       ebiletTaken = takenOr0 results ebilet,
       kupbilecikTaken = takenOr0 results kupbilecik,
       timestamp = now \<rparr>"

text \<open>
  The value of \<open>diffObj\<close>: \<open>undefined\<close>, an object of three counts and a time stamp, or,
  when \<open>prevStats\<close> is an inherited property, the object whose three counts are NaN and
  whose time stamp is \<open>undefined\<close>: the fields read from \<open>prevStats\<close> are \<open>undefined\<close>
  then, a number minus \<open>undefined\<close> is NaN, and so is \<open>Math.max(0, NaN)\<close>.
\<close>

datatype DiffObj =
    NoDiff
  | Diff StatsDiff
  | NaNDiff

definition calculateDiff :: "StatsHistoryEntry \<Rightarrow> LoadedStats \<Rightarrow> DiffObj" where
  "calculateDiff current prevStats =
     (case prevStats of
        NoStats \<Rightarrow> NoDiff
      | StoredEntry prev \<Rightarrow>
          (let bDiff = biletynaTaken current - biletynaTaken prev;
               eDiff = ebiletTaken current - ebiletTaken prev;
               kDiff = kupbilecikTaken current - kupbilecikTaken prev
           in Diff \<lparr> biletynaTaken = max 0 bDiff,
                     ebiletTaken = max 0 eDiff,
                     kupbilecikTaken = max 0 kDiff,
                     lastUpdated = timestamp prev \<rparr>)
      | InheritedProperty \<Rightarrow> NaNDiff)"

text \<open>
  Step 4 of the stats request: the diff against the stored entry of the event, and the
  file with the current entry saved for the next request.
\<close>

definition diffStep ::
  "(SourceType \<times> SourceStats) list \<Rightarrow> jsstring \<Rightarrow> StatsHistoryFile \<Rightarrow> jsstring
     \<Rightarrow> DiffObj \<times> StatsHistoryFile" where
  "diffStep results now file eventId =
     (let current = currentStatsEntry results now;
          prevStats = loadStatsHistory file eventId
      in (calculateDiff current prevStats, saveStatsHistory file eventId current))"

text \<open>
  The previous snapshot of an event is the entry that the stats history file holds for
  it; there is none when the file is missing or unreadable.
\<close>

definition previousSnapshot :: "StatsHistoryFile \<Rightarrow> jsstring \<Rightarrow> StatsHistoryEntry option" where
  "previousSnapshot file eventId =
     (case file of
        FileObject statsHistory \<Rightarrow> map_of statsHistory eventId
      | _ \<Rightarrow> None)"

text \<open>
  The event id that \<open>generateEventId\<close> builds from the date without its hyphens, the time
  without its colon, the first ten characters of the city without white space, and a hash
  of the title: \<open>`${datePart}-${timePart}-${cityPart}-${titleHash}`\<close>.
\<close>

definition eventIdOf :: "jsstring \<Rightarrow> jsstring \<Rightarrow> jsstring \<Rightarrow> jsstring \<Rightarrow> jsstring" where
  "eventIdOf datePart timePart cityPart titleHash =
     datePart @ [hyphen] @ timePart @ [hyphen] @ cityPart @ [hyphen] @ titleHash"

section \<open>Seat colours\<close>

definition biletynaFree :: jsstring where "biletynaFree = str ''#DDA0DD''"
definition biletynaSold :: jsstring where "biletynaSold = str ''#800080''"
definition ebiletFree :: jsstring where "ebiletFree = str ''#FFFF99''"
definition ebiletSold :: jsstring where "ebiletSold = str ''#DAA520''"
definition kupbilecikFree :: jsstring where "kupbilecikFree = str ''#FF9999''"
definition kupbilecikSold :: jsstring where "kupbilecikSold = str ''#8B0000''"
definition noData :: jsstring where "noData = str ''#808080''"
definition notForSale :: jsstring where "notForSale = str ''#000000''"
definition otherSource :: jsstring where "otherSource = str ''#5DADE2''"
definition boxOffice :: jsstring where "boxOffice = str ''#1ABC9C''"

text \<open>\<open>SEAT_COLORS[portal].free\<close> and \<open>SEAT_COLORS[portal].taken\<close>.\<close>

fun freeColor :: "SourceType \<Rightarrow> jsstring" where
  "freeColor biletyna = biletynaFree"
| "freeColor ebilet = ebiletFree"
| "freeColor kupbilecik = kupbilecikFree"

fun takenColor :: "SourceType \<Rightarrow> jsstring" where
  "takenColor biletyna = biletynaSold"
| "takenColor ebilet = ebiletSold"
| "takenColor kupbilecik = kupbilecikSold"

section \<open>Seat colours of a canonical sector\<close>

text \<open>
  \<open>calculateSectorVisualizationWithBase\<close> of the page takes a sector of KupBilecik as the
  layout, overlays the seats of the sectors of the same name that Biletyna and eBilet
  report, and gives every seat of the layout one colour. The status of a seat at a
  vendor is \<open>'free'\<close>, \<open>'taken'\<close> or \<open>null\<close> (\<open>None\<close>).
\<close>

datatype SeatStatus = Free | Taken

type_synonym Statuses = "SourceType \<Rightarrow> SeatStatus option"

text \<open>\<open>{ biletyna: null, ebilet: null, kupbilecik: status }\<close>\<close>

definition kupbilecikOnlyStatus :: "SeatStatus \<Rightarrow> Statuses" where
  "kupbilecikOnlyStatus status = (\<lambda>portal. None)(kupbilecik := Some status)"

text \<open>
  \<open>parts = normalizedSeat.split('-')\<close>, \<open>row = parts[0]\<close> and
  \<open>seatName = parts.slice(1).join('-')\<close>.
\<close>

definition seatRow :: "jsstring \<Rightarrow> jsstring" where
  "seatRow seatKey = (case split hyphen seatKey of [] \<Rightarrow> [] | row # _ \<Rightarrow> row)"

definition seatNameOf :: "jsstring \<Rightarrow> jsstring" where
  "seatNameOf seatKey = (case split hyphen seatKey of [] \<Rightarrow> [] | _ # rest \<Rightarrow> join hyphen rest)"

text \<open>
  "Initialize from kupbilecik sector": the loop over the free seats and the loop over the
  taken seats, on the pair of \<open>seatStatuses\<close> and \<open>seatsPerRow\<close>.
\<close>

fun kupbilecikFreeLoop ::
  "jsstring list \<Rightarrow> (jsstring \<times> Statuses) list \<times> (jsstring \<times> jsstring list) list
     \<Rightarrow> (jsstring \<times> Statuses) list \<times> (jsstring \<times> jsstring list) list" where
  "kupbilecikFreeLoop [] acc = acc"
| "kupbilecikFreeLoop (seat # rest) (seatStatuses, seatsPerRow) =
     (let normalizedSeat = page_normalizeSeatKey seat;
          row = seatRow normalizedSeat;
          seatName = seatNameOf normalizedSeat;
          seatsInRow = (case map_of seatsPerRow row of None \<Rightarrow> [] | Some l \<Rightarrow> l)
      in kupbilecikFreeLoop rest
           (assign seatStatuses normalizedSeat (kupbilecikOnlyStatus Free),
            assign seatsPerRow row (seatsInRow @ [seatName])))"

fun kupbilecikTakenLoop ::
  "jsstring list \<Rightarrow> (jsstring \<times> Statuses) list \<times> (jsstring \<times> jsstring list) list
     \<Rightarrow> (jsstring \<times> Statuses) list \<times> (jsstring \<times> jsstring list) list" where
  "kupbilecikTakenLoop [] acc = acc"
| "kupbilecikTakenLoop (seat # rest) (seatStatuses, seatsPerRow) =
     (let normalizedSeat = page_normalizeSeatKey seat;
          row = seatRow normalizedSeat;
          seatName = seatNameOf normalizedSeat;
          seatsInRow = (case map_of seatsPerRow row of None \<Rightarrow> [] | Some l \<Rightarrow> l)
      in kupbilecikTakenLoop rest
           (assign seatStatuses normalizedSeat (kupbilecikOnlyStatus Taken),
            assign seatsPerRow row
              (if seatName \<in> set seatsInRow then seatsInRow else seatsInRow @ [seatName])))"

text \<open>
  "Overlay data from matching sector": a seat of the other vendor sets that vendor's
  status only if the seat is in the layout.
\<close>

fun overlayLoop ::
  "SourceType \<Rightarrow> SeatStatus \<Rightarrow> jsstring list \<Rightarrow> (jsstring \<times> Statuses) list
     \<Rightarrow> (jsstring \<times> Statuses) list" where
  "overlayLoop portal status [] seatStatuses = seatStatuses"
| "overlayLoop portal status (seat # rest) seatStatuses =
     (let normalizedSeat = page_normalizeSeatKey seat
      in case map_of seatStatuses normalizedSeat of
           None \<Rightarrow> overlayLoop portal status rest seatStatuses
         | Some statuses \<Rightarrow>
             overlayLoop portal status rest
               (assign seatStatuses normalizedSeat (statuses(portal := Some status))))"

text \<open>
  The sector of a vendor that has the name of the canonical sector: \<open>sectors.find\<close>, for a
  vendor result with a sector list.
\<close>

definition matchingSectorOf ::
  "(SourceType \<times> SourceStats) list \<Rightarrow> SourceType \<Rightarrow> jsstring \<Rightarrow> SectorStats option" where
  "matchingSectorOf perSource portal name =
     (case map_of perSource portal of
        None \<Rightarrow> None
      | Some sourceStats \<Rightarrow>
          (case sectors sourceStats of
             None \<Rightarrow> None
           | Some sectorList \<Rightarrow> find (\<lambda>s. sectorName s = name) sectorList))"

definition overlayPortal ::
  "(SourceType \<times> SourceStats) list \<Rightarrow> jsstring \<Rightarrow> SourceType \<Rightarrow> (jsstring \<times> Statuses) list
     \<Rightarrow> (jsstring \<times> Statuses) list" where
  "overlayPortal perSource name portal seatStatuses =
     (case matchingSectorOf perSource portal name of
        None \<Rightarrow> seatStatuses
      | Some matchingSector \<Rightarrow>
          overlayLoop portal Taken (takenSeats matchingSector)
            (overlayLoop portal Free (freeSeats matchingSector) seatStatuses))"

text \<open>The colour of one seat, as the body of the loop "Calculate colors" sets it.\<close>

definition seatColor ::
  "jsstring \<Rightarrow> (jsstring \<times> SourceType) list option \<Rightarrow> (jsstring \<times> Statuses) list \<Rightarrow> jsstring
     \<Rightarrow> jsstring" where
  "seatColor name inferredSold seatStatuses seatKey =
     (let statuses = (case map_of seatStatuses seatKey of
                        None \<Rightarrow> (\<lambda>portal. None)
                      | Some st \<Rightarrow> st)
      in case find (\<lambda>portal. statuses portal = Some Free) [biletyna, ebilet, kupbilecik] of
           Some freeOnPortal \<Rightarrow> freeColor freeOnPortal
         | None \<Rightarrow>
             (let uniqueKey = name @ [colon] @ seatKey
              in case inferredSold of
                   None \<Rightarrow> noData
                 | Some sold \<Rightarrow>
                     (case map_of sold uniqueKey of
                        Some soldSource \<Rightarrow> takenColor soldSource
                      | None \<Rightarrow> noData)))"

fun colorSeatLoop ::
  "jsstring \<Rightarrow> (jsstring \<times> SourceType) list option \<Rightarrow> (jsstring \<times> Statuses) list
     \<Rightarrow> jsstring \<Rightarrow> jsstring list \<Rightarrow> (jsstring \<times> jsstring) list \<Rightarrow> (jsstring \<times> jsstring) list" where
  "colorSeatLoop name inferredSold seatStatuses row [] seatColors = seatColors"
| "colorSeatLoop name inferredSold seatStatuses row (seatName # rest) seatColors =
     (let seatKey = row @ [hyphen] @ seatName
      in colorSeatLoop name inferredSold seatStatuses row rest
           (assign seatColors seatKey (seatColor name inferredSold seatStatuses seatKey)))"

fun colorRowLoop ::
  "jsstring \<Rightarrow> (jsstring \<times> SourceType) list option \<Rightarrow> (jsstring \<times> Statuses) list
     \<Rightarrow> (jsstring \<times> jsstring list) list \<Rightarrow> (jsstring \<times> jsstring) list
     \<Rightarrow> (jsstring \<times> jsstring) list" where
  "colorRowLoop name inferredSold seatStatuses [] seatColors = seatColors"
| "colorRowLoop name inferredSold seatStatuses ((row, seatNames) # rest) seatColors =
     colorRowLoop name inferredSold seatStatuses rest
       (colorSeatLoop name inferredSold seatStatuses row seatNames seatColors)"

text \<open>
  The map \<open>seatColors\<close> that \<open>calculateSectorVisualizationWithBase\<close> returns. The seats of
  every row are sorted by \<open>parseInt(a) || 0\<close> before the colours are calculated; that
  function is the parameter \<open>seatNumber\<close>. The other fields of the result (the counters and
  the sorted rows) are not modelled.
\<close>

definition calculateSectorVisualizationWithBase ::
  "(jsstring \<Rightarrow> int) \<Rightarrow> SectorStats \<Rightarrow> (SourceType \<times> SourceStats) list
     \<Rightarrow> (jsstring \<times> SourceType) list option \<Rightarrow> (jsstring \<times> jsstring) list" where
  "calculateSectorVisualizationWithBase seatNumber kbSector perSource inferredSold =
     (let (seatStatuses0, seatsPerRow) =
            kupbilecikTakenLoop (takenSeats kbSector)
              (kupbilecikFreeLoop (freeSeats kbSector) ([], []));
          seatStatuses =
            overlayPortal perSource (sectorName kbSector) ebilet
              (overlayPortal perSource (sectorName kbSector) biletyna seatStatuses0);
          sortedSeatsPerRow = map (\<lambda>(row, seats). (row, sort_key seatNumber seats)) seatsPerRow
      in colorRowLoop (sectorName kbSector) inferredSold seatStatuses sortedSeatsPerRow [])"

text \<open>
  The resolution in the words of the specification. The status of a seat key at a vendor:
  the canonical vendor's own status for a seat of the layout; for another vendor the
  status in its sector of the same name, if it has one; no status otherwise.
\<close>

definition vendorStatus ::
  "SectorStats \<Rightarrow> (SourceType \<times> SourceStats) list \<Rightarrow> SourceType \<Rightarrow> jsstring
     \<Rightarrow> SeatStatus option" where
  "vendorStatus kbSector perSource portal seatKey =
     (if seatKey \<notin> set (map page_normalizeSeatKey (freeSeats kbSector @ takenSeats kbSector))
      then None
      else if portal = kupbilecik then
        (if seatKey \<in> set (map page_normalizeSeatKey (takenSeats kbSector))
         then Some Taken else Some Free)
      else
        (case matchingSectorOf perSource portal (sectorName kbSector) of
           None \<Rightarrow> None
         | Some aligned \<Rightarrow>
             if seatKey \<in> set (map page_normalizeSeatKey (takenSeats aligned)) then Some Taken
             else if seatKey \<in> set (map page_normalizeSeatKey (freeSeats aligned)) then Some Free
             else None))"

text \<open>
  Free, with the colour of the first vendor in the order Biletyna, eBilet, KupBilecik that
  has the seat free; otherwise inferred-sold, with the colour of the vendor in the
  inferred-sold map; otherwise no data.
\<close>

definition resolveSeat ::
  "SectorStats \<Rightarrow> (SourceType \<times> SourceStats) list \<Rightarrow> (jsstring \<times> SourceType) list option
     \<Rightarrow> jsstring \<Rightarrow> jsstring" where
  "resolveSeat kbSector perSource inferredSold seatKey =
     (case find (\<lambda>portal. vendorStatus kbSector perSource portal seatKey = Some Free)
             [biletyna, ebilet, kupbilecik] of
        Some vendor \<Rightarrow> freeColor vendor
      | None \<Rightarrow>
          (case inferredSold of
             None \<Rightarrow> noData
           | Some sold \<Rightarrow>
               (case map_of sold (sectorName kbSector @ [colon] @ seatKey) of
                  Some vendor \<Rightarrow> takenColor vendor
                | None \<Rightarrow> noData)))"

text \<open>A seat name is listed in a row of \<open>seatsPerRow\<close>.\<close>

definition hasSeat :: "(jsstring \<times> jsstring list) list \<Rightarrow> jsstring \<Rightarrow> jsstring \<Rightarrow> bool" where
  "hasSeat seatsPerRow row seatName \<longleftrightarrow>
     (\<exists>names. map_of seatsPerRow row = Some names \<and> seatName \<in> set names)"

section \<open>Manual overrides\<close>

definition isDarkColor :: "jsstring \<Rightarrow> bool" where
  "isDarkColor color \<longleftrightarrow>
     color = takenColor biletyna \<or> color = takenColor ebilet \<or> color = takenColor kupbilecik"

definition isLightColor :: "jsstring \<Rightarrow> bool" where
  "isLightColor color \<longleftrightarrow>
     color = freeColor biletyna \<or> color = freeColor ebilet \<or> color = freeColor kupbilecik"

definition isNoDataColor :: "jsstring \<Rightarrow> bool" where
  "isNoDataColor color \<longleftrightarrow> color = noData"

definition isSpecialColor :: "jsstring \<Rightarrow> bool" where
  "isSpecialColor color \<longleftrightarrow> color = notForSale \<or> color = otherSource \<or> color = boxOffice"

text \<open>
  \<open>mergeColors(liveColor, userOverride)\<close>; \<open>None\<close> is \<open>undefined\<close>, and
  \<open>!userOverride\<close> also holds for the empty string.
\<close>

definition mergeColors :: "jsstring \<Rightarrow> jsstring option \<Rightarrow> jsstring" where
  "mergeColors liveColor userOverride =
     (case userOverride of
        None \<Rightarrow> liveColor
      | Some ov \<Rightarrow>
          if ov = [] then liveColor
          else if isSpecialColor ov then ov
          else if isDarkColor liveColor then liveColor
          else if isDarkColor ov then ov
          else if isLightColor ov then ov
          else liveColor)"

section \<open>Example inputs\<close>

text \<open>The row label "Rzad 5" spelt with a-ogonek (U+0105) as its third letter.\<close>

definition Rzad_5 :: jsstring where
  "Rzad_5 = str ''Rz'' @ [261] @ str ''d 5''"

text \<open>A Biletyna result for one sector of eight seats, all of them taken.\<close>

definition exampleResults :: "(SourceType \<times> SourceStats) list" where
  "exampleResults =
     [(biletyna,
       \<lparr> source = biletyna,
         sourceTotals = \<lparr> total = 8, free = 0, taken = 8 \<rparr>,
         sourceRows = [(str ''1'', \<lparr> total = 8, free = 0, taken = 8 \<rparr>)],
         sourceFreeSeats = [],
         sourceTakenSeats = [str ''1-1'', str ''1-2'', str ''1-3'', str ''1-4'', str ''1-5'',
                             str ''1-6'', str ''1-7'', str ''1-8''],
         sectors = None, finalUrl = None \<rparr>)]"

definition exampleEventId :: jsstring where
  "exampleEventId = eventIdOf (str ''20250314'') (str ''1900'') (str ''warszawa'') (str ''1k2j3h'')"

definition exampleStatsFile :: StatsHistoryFile where
  "exampleStatsFile =
     FileObject
       [(exampleEventId,
         \<lparr> biletynaTaken = 10, ebiletTaken = 0, kupbilecikTaken = 0,
           timestamp = str ''t0'' \<rparr>)]"

text \<open>Sectors, vendor data and canonical sectors used as examples.\<close>

definition oneSeat :: Counts where "oneSeat = \<lparr> total = 1, free = 1, taken = 0 \<rparr>"
definition rowsA :: "(jsstring \<times> Counts) list" where "rowsA = [(str ''1'', oneSeat)]"
definition rowsB :: "(jsstring \<times> Counts) list" where "rowsB = [(str ''1'', oneSeat), (str ''2'', oneSeat)]"
definition sectorA :: SectorStats where
  "sectorA = \<lparr> rows = rowsA, freeSeats = [str ''1-1''], takenSeats = [],
               sectorName = str ''A'', totals = \<lparr> total = 1, free = 1, taken = 0 \<rparr> \<rparr>"
definition sectorB :: SectorStats where
  "sectorB = \<lparr> rows = rowsB, freeSeats = [str ''1-1'', str ''2-1''], takenSeats = [],
               sectorName = str ''B'', totals = \<lparr> total = 2, free = 2, taken = 0 \<rparr> \<rparr>"

definition exampleBiletynaRaw :: "BiletynaSectorResult list" where
  "exampleBiletynaRaw =
     [\<lparr> rows = rowsA, freeSeats = [str ''1-1''], takenSeats = [] \<rparr>,
      \<lparr> rows = rowsB, freeSeats = [str ''1-1'', str ''2-1''], takenSeats = [] \<rparr>]"

definition exampleSeatsBySid :: "(jsstring \<times> EbiletSeat list) list" where
  "exampleSeatsBySid =
     [(str ''s1'', [\<lparr> seat_id = str ''a'', seat_rn = str ''1'', seat_n = str ''1'' \<rparr>]),
      (str ''s2'', [\<lparr> seat_id = str ''b'', seat_rn = str ''1'', seat_n = str ''1'' \<rparr>,
                    \<lparr> seat_id = str ''c'', seat_rn = str ''2'', seat_n = str ''1'' \<rparr>])]"

definition exampleFreeSeats :: EbiletFreeSeatsResponse where
  "exampleFreeSeats =
     \<lparr> sfs = [(str ''s1'', [Some [str ''a'']]), (str ''s2'', [Some [str ''b'', str ''c'']])],
       err = None \<rparr>"

definition exampleKupbilecik :: "(SourceType \<times> SourceStats) list" where
  "exampleKupbilecik =
     [(kupbilecik,
       \<lparr> source = kupbilecik,
         sourceTotals = \<lparr> total = 3, free = 3, taken = 0 \<rparr>,
         sourceRows = [(str ''1'', \<lparr> total = 2, free = 2, taken = 0 \<rparr>), (str ''2'', oneSeat)],
         sourceFreeSeats = [str ''1-1'', str ''1-1'', str ''2-1''], sourceTakenSeats = [],
         sectors = Some [sectorA, sectorB], finalUrl = None \<rparr>)]"

definition threeRows :: "(jsstring \<times> Counts) list" where
  "threeRows = map (\<lambda>r. (r, \<lparr> total = 10, free = 10, taken = 0 \<rparr>)) [str ''1'', str ''2'', str ''3'']"

definition tenRowNames :: "jsstring list" where
  "tenRowNames = [str ''1'', str ''2'', str ''3'', str ''4'', str ''5'', str ''6'', str ''7'',
                  str ''8'', str ''9'', str ''10'']"

definition tenRowSector :: SectorStats where
  "tenRowSector =
     \<lparr> rows = map (\<lambda>r. (r, \<lparr> total = 3, free = 3, taken = 0 \<rparr>)) tenRowNames,
       freeSeats = concat (map (\<lambda>r. map (\<lambda>k. r @ [hyphen] @ k) [str ''1'', str ''2'', str ''3'']) tenRowNames),
       takenSeats = [],
       sectorName = str ''Parter'',
       totals = \<lparr> total = 30, free = 30, taken = 0 \<rparr> \<rparr>"

definition lowRows :: "(jsstring \<times> Counts) list" where
  "lowRows = [(str ''7'', \<lparr> total = 4, free = 4, taken = 0 \<rparr>)]"

definition mixedRows :: "(jsstring \<times> Counts) list" where
  "mixedRows = [(str ''1'', oneSeat), (str ''I'', oneSeat)]"

definition mixedSector :: SectorStats where
  "mixedSector = \<lparr> rows = mixedRows, freeSeats = [str ''1-1'', str ''I-1''], takenSeats = [],
                   sectorName = str ''A'', totals = \<lparr> total = 2, free = 2, taken = 0 \<rparr> \<rparr>"

text \<open>
  A vendor sector and a canonical sector of 14 rows each, with 32 and 35 seats and one row
  name in common.
\<close>

definition twoSeats :: Counts where "twoSeats = \<lparr> total = 2, free = 2, taken = 0 \<rparr>"

definition closeRows :: "(jsstring \<times> Counts) list" where
  "closeRows =
     map (\<lambda>r. (r, twoSeats))
       [str ''1'', str ''2'', str ''3'', str ''4'', str ''5'', str ''6'', str ''7'', str ''8'',
        str ''9'', str ''10'', str ''11'', str ''12'', str ''13'']
     @ [(str ''14'', \<lparr> total = 6, free = 6, taken = 0 \<rparr>)]"

definition closeSectorNames :: "jsstring list" where
  "closeSectorNames =
     [str ''1'', str ''15'', str ''16'', str ''17'', str ''18'', str ''19'', str ''20'',
      str ''21'', str ''22'', str ''23'', str ''24'', str ''25'', str ''26'', str ''27'']"

definition closeSector :: SectorStats where
  "closeSector =
     \<lparr> rows = (str ''1'', \<lparr> total = 9, free = 9, taken = 0 \<rparr>)
                # map (\<lambda>r. (r, twoSeats)) (tl closeSectorNames),
       freeSeats =
         map (\<lambda>k. str ''1-'' @ k)
           [str ''1'', str ''2'', str ''3'', str ''4'', str ''5'', str ''6'', str ''7'',
            str ''8'', str ''9'']
         @ concat (map (\<lambda>r. [r @ str ''-1'', r @ str ''-2'']) (tl closeSectorNames)),
       takenSeats = [],
       sectorName = str ''Parter'',
       totals = \<lparr> total = 35, free = 35, taken = 0 \<rparr> \<rparr>"

text \<open>Results of stats requests used as examples.\<close>

definition kupbilecikOnly :: "SectorStats list \<Rightarrow> (SourceType \<times> SourceStats) list" where
  "kupbilecikOnly sectorList =
     [(kupbilecik,
       \<lparr> source = kupbilecik,
         sourceTotals = seatTotals (concat (map freeSeats sectorList)) (concat (map takenSeats sectorList)),
         sourceRows = foldl addRowStats [] (map rows sectorList),
         sourceFreeSeats = concat (map freeSeats sectorList),
         sourceTakenSeats = concat (map takenSeats sectorList),
         sectors = Some sectorList, finalUrl = None \<rparr>)]"

definition sectorColon :: SectorStats where
  "sectorColon = \<lparr> rows = rowsA, freeSeats = [str ''1-1''], takenSeats = [],
                   sectorName = str ''A:B'', totals = \<lparr> total = 1, free = 1, taken = 0 \<rparr> \<rparr>"

definition sectorColonSold :: SectorStats where
  "sectorColonSold = \<lparr> rows = [(str ''1'', \<lparr> total = 1, free = 0, taken = 1 \<rparr>)],
                       freeSeats = [], takenSeats = [str ''1-1''],
                       sectorName = str ''A:B'', totals = \<lparr> total = 1, free = 0, taken = 1 \<rparr> \<rparr>"

definition singleSectorResults :: "(SourceType \<times> SourceStats) list" where
  "singleSectorResults =
     [(biletyna,
       \<lparr> source = biletyna,
         sourceTotals = \<lparr> total = 1, free = 1, taken = 0 \<rparr>,
         sourceRows = rowsA,
         sourceFreeSeats = [str ''1-1''], sourceTakenSeats = [],
         sectors = None, finalUrl = None \<rparr>)]"

definition twoVendorResults :: "(SourceType \<times> SourceStats) list" where
  "twoVendorResults =
     [(kupbilecik,
       \<lparr> source = kupbilecik,
         sourceTotals = \<lparr> total = 3, free = 3, taken = 0 \<rparr>,
         sourceRows = [(str ''1'', \<lparr> total = 2, free = 2, taken = 0 \<rparr>), (str ''2'', oneSeat)],
         sourceFreeSeats = [str ''1-1'', str ''1-1'', str ''2-1''], sourceTakenSeats = [],
         sectors = Some [sectorA, sectorB], finalUrl = None \<rparr>),
      (biletyna,
       \<lparr> source = biletyna,
         sourceTotals = \<lparr> total = 3, free = 3, taken = 0 \<rparr>,
         sourceRows = [(str ''1'', \<lparr> total = 2, free = 2, taken = 0 \<rparr>), (str ''2'', oneSeat)],
         sourceFreeSeats = [str ''1-1'', str ''1-1'', str ''2-1''], sourceTakenSeats = [],
         sectors = Some [sectorA, sectorB], finalUrl = None \<rparr>)]"

text \<open>
  A canonical sector "A" and the sector of the same name that Biletyna reports; both
  vendors also report sector "B".
\<close>

definition layoutSector :: SectorStats where
  "layoutSector =
     \<lparr> rows = [(str ''1'', \<lparr> total = 3, free = 1, taken = 2 \<rparr>)],
       freeSeats = [str ''1-1''], takenSeats = [str ''1-2'', str ''1-3''],
       sectorName = str ''A'', totals = \<lparr> total = 3, free = 1, taken = 2 \<rparr> \<rparr>"

definition overlaySector :: SectorStats where
  "overlaySector =
     \<lparr> rows = [(str ''1'', \<lparr> total = 3, free = 1, taken = 2 \<rparr>)],
       freeSeats = [str ''1-2''], takenSeats = [str ''1-1'', str ''1-3''],
       sectorName = str ''A'', totals = \<lparr> total = 3, free = 1, taken = 2 \<rparr> \<rparr>"

definition examplePerSource :: "(SourceType \<times> SourceStats) list" where
  "examplePerSource =
     [(kupbilecik,
       \<lparr> source = kupbilecik,
         sourceTotals = \<lparr> total = 5, free = 3, taken = 2 \<rparr>,
         sourceRows = [(str ''1'', \<lparr> total = 4, free = 2, taken = 2 \<rparr>), (str ''2'', oneSeat)],
         sourceFreeSeats = [str ''1-1'', str ''1-1'', str ''2-1''],
         sourceTakenSeats = [str ''1-2'', str ''1-3''],
         sectors = Some [layoutSector, sectorB], finalUrl = None \<rparr>),
      (biletyna,
       \<lparr> source = biletyna,
         sourceTotals = \<lparr> total = 5, free = 3, taken = 2 \<rparr>,
         sourceRows = [(str ''1'', \<lparr> total = 4, free = 2, taken = 2 \<rparr>), (str ''2'', oneSeat)],
         sourceFreeSeats = [str ''1-2'', str ''1-1'', str ''2-1''],
         sourceTakenSeats = [str ''1-1'', str ''1-3''],
         sectors = Some [overlaySector, sectorB], finalUrl = None \<rparr>)]"

definition exampleInferredSold :: "(jsstring \<times> SourceType) list" where
  "exampleInferredSold = [(str ''A:1-3'', ebilet)]"

section \<open>Results\<close>

subsection \<open>Row names\<close>


lemma trim_fixed:
  assumes "s = [] \<or> (\<not> isWhiteSpace (hd s) \<and> \<not> isWhiteSpace (last s))"
  shows "trim s = s"
proof (cases s)
  case Nil then show ?thesis by (simp add: trim_def)
next
  case (Cons a as)
  with assms have h: "\<not> isWhiteSpace a" and l: "\<not> isWhiteSpace (last s)" by auto
  have 1: "dropWhile isWhiteSpace s = s" using Cons h by simp
  have "rev s \<noteq> []" using Cons by simp
  moreover have "hd (rev s) = last s" using Cons by (simp add: hd_rev)
  ultimately have 2: "dropWhile isWhiteSpace (rev s) = rev s" using l
    by (metis dropWhile_eq_self_iff hd_Cons_tl list.set_intros(1) dropWhile.simps(2))
  show ?thesis by (simp add: trim_def 1 2)
qed

lemma trim_ends:
  "trim s = [] \<or> (\<not> isWhiteSpace (hd (trim s)) \<and> \<not> isWhiteSpace (last (trim s)))"
proof -
  define x where "x = dropWhile isWhiteSpace s"
  define y where "y = dropWhile isWhiteSpace (rev x)"
  have t: "trim s = rev y" by (simp add: trim_def x_def y_def)
  show ?thesis
  proof (cases "y = []")
    case True then show ?thesis by (simp add: t)
  next
    case False
    have hy: "\<not> isWhiteSpace (hd y)" using False unfolding y_def by (metis hd_dropWhile)
    obtain p where p: "rev x = p @ y" unfolding y_def
      by (metis takeWhile_dropWhile_id)
    then have xx: "x = rev y @ rev p" by (metis rev_append rev_rev_ident)
    have "x \<noteq> []" using False xx by simp
    then have "\<not> isWhiteSpace (hd x)" unfolding x_def by (metis hd_dropWhile)
    moreover have "hd x = hd (rev y)" using xx False by simp
    moreover have "last (rev y) = hd y" using False by (simp add: last_rev)
    ultimately show ?thesis using hy by (simp add: t)
  qed
qed

lemma trim_idem: "trim (trim s) = trim s"
  using trim_ends [of s] by (intro trim_fixed) 

lemma trim_map:
  assumes "\<forall>c\<in>set s. isWhiteSpace (f c) = isWhiteSpace c"
  shows "trim (map f s) = map f (trim s)"
proof -
  have a: "\<And>xs. set xs \<subseteq> set s \<Longrightarrow> dropWhile isWhiteSpace (map f xs) = map f (dropWhile isWhiteSpace xs)"
  proof -
    fix xs show "set xs \<subseteq> set s \<Longrightarrow> dropWhile isWhiteSpace (map f xs) = map f (dropWhile isWhiteSpace xs)"
      using assms by (induction xs) auto
  qed
  have s1: "set (dropWhile isWhiteSpace s) \<subseteq> set s" by (meson set_dropWhileD subsetI)
  have s2: "set (rev (dropWhile isWhiteSpace s)) \<subseteq> set s" using s1 by simp
  have "dropWhile isWhiteSpace (rev (map f (dropWhile isWhiteSpace s)))
          = map f (dropWhile isWhiteSpace (rev (dropWhile isWhiteSpace s)))"
    using a [OF s2] by (simp add: rev_map)
  then show ?thesis
    unfolding trim_def
    by (simp add: a [OF subset_refl] rev_map)
qed


lemma roman_keys:
  assumes "map_of ROMAN_MAP s = Some k"
  shows "s \<noteq> [] \<and> list_all isRomanLetter s"
proof -
  have "(s, k) \<in> set ROMAN_MAP" using assms by (rule map_of_SomeD)
  then show ?thesis
    unfolding ROMAN_MAP_def str_def by (auto simp: isRomanLetter_def)
qed

lemma numToString_digits: "numToString k \<noteq> [] \<and> list_all isDigit (numToString k)"
proof (induction k rule: numToString.induct)
  case (1 k)
  show ?case
  proof (cases "k < 10")
    case True then show ?thesis by (simp add: numToString.simps [of k] isDigit_def)
  next
    case False
    then show ?thesis using 1 by (simp add: numToString.simps [of k] isDigit_def)
  qed
qed

lemma digit_not_roman: "isDigit c \<Longrightarrow> \<not> isRomanLetter c"
  by (auto simp: isDigit_def isRomanLetter_def)

lemma upperUnit_numeral: "isDigit c \<or> isRomanLetter c \<Longrightarrow> upperUnit c = [c]"
  by (auto simp: isDigit_def isRomanLetter_def upperUnit_def)

lemma toUpperCase_numeral:
  "list_all (\<lambda>c. isDigit c \<or> isRomanLetter c) s \<Longrightarrow> toUpperCase s = s"
  by (induction s) (simp_all add: toUpperCase_def upperUnit_numeral)

lemma numeral_not_space: "isDigit c \<or> isRomanLetter c \<Longrightarrow> \<not> isWhiteSpace c"
  by (auto simp: isDigit_def isRomanLetter_def isWhiteSpace_def)

lemma trim_numeral:
  assumes "list_all (\<lambda>c. isDigit c \<or> isRomanLetter c) s"
  shows "trim s = s"
proof (rule trim_fixed, cases s)
  case Nil then show "s = [] \<or> (\<not> isWhiteSpace (hd s) \<and> \<not> isWhiteSpace (last s))" by simp
next
  case (Cons a as)
  then have "hd s \<in> set s" "last s \<in> set s" by auto
  then show "s = [] \<or> (\<not> isWhiteSpace (hd s) \<and> \<not> isWhiteSpace (last s))"
    using assms numeral_not_space by (auto simp: list_all_iff)
qed

lemma normalize_digits:
  assumes "ds \<noteq> []" "list_all isDigit ds"
  shows "normalizeRowName ds = ds"
proof -
  have n: "list_all (\<lambda>c. isDigit c \<or> isRomanLetter c) ds"
    using assms(2) by (auto simp: list_all_iff)
  have t: "toUpperCase (trim ds) = ds" by (simp add: trim_numeral [OF n] toUpperCase_numeral [OF n])
  have "\<not> list_all isRomanLetter ds"
    using assms digit_not_roman by (cases ds) auto
  then have r: "map_of ROMAN_MAP ds = None"
    using roman_keys [of ds] by (cases "map_of ROMAN_MAP ds") auto
  have m: "matchNumeralSuffix ds = Some ds" using assms by (cases ds) auto
  show ?thesis by (simp add: normalizeRowName_def t r m)
qed

lemma normalize_roman_letters:
  assumes "p \<noteq> []" "list_all isRomanLetter p" "map_of ROMAN_MAP p = None"
  shows "normalizeRowName p = p"
proof -
  have n: "list_all (\<lambda>c. isDigit c \<or> isRomanLetter c) p"
    using assms(2) by (auto simp: list_all_iff)
  have t: "toUpperCase (trim p) = p" by (simp add: trim_numeral [OF n] toUpperCase_numeral [OF n])
  have "\<not> list_all isDigit p" using assms digit_not_roman by (cases p) auto
  then have m: "matchNumeralSuffix p = Some p" using assms by (cases p) auto
  show ?thesis by (simp add: normalizeRowName_def t m assms(3))
qed

lemma matchNumeralSuffix_Some:
  "matchNumeralSuffix t = Some p \<Longrightarrow> p \<noteq> [] \<and> (list_all isDigit p \<or> list_all isRomanLetter p)"
  by (induction t) (auto split: if_splits)

lemma normalize_numToString: "normalizeRowName (numToString k) = numToString k"
  using numToString_digits [of k] by (simp add: normalize_digits)

text \<open>Whenever a numeral is found, the result is a fixed point, for every string.\<close>

lemma normalize_idem_numeral:
  assumes "map_of ROMAN_MAP (toUpperCase (trim r)) \<noteq> None
           \<or> matchNumeralSuffix (toUpperCase (trim r)) \<noteq> None"
  shows "normalizeRowName (normalizeRowName r) = normalizeRowName r"
proof (cases "map_of ROMAN_MAP (toUpperCase (trim r))")
  case (Some k)
  then show ?thesis by (simp add: normalizeRowName_def [of r] normalize_numToString)
next
  case None
  with assms obtain p where p: "matchNumeralSuffix (toUpperCase (trim r)) = Some p" by auto
  note pp = matchNumeralSuffix_Some [OF p]
  show ?thesis
  proof (cases "map_of ROMAN_MAP p")
    case (Some k)
    then show ?thesis by (simp add: normalizeRowName_def [of r] None p normalize_numToString)
  next
    case pn: None
    have "normalizeRowName r = p" by (simp add: normalizeRowName_def [of r] None p pn)
    moreover have "normalizeRowName p = p"
    proof (cases "list_all isDigit p")
      case True then show ?thesis using pp normalize_digits by blast
    next
      case False then show ?thesis using pp pn normalize_roman_letters by blast
    qed
    ultimately show ?thesis by simp
  qed
qed


lemma plain_upper_ascii:
  assumes "c < 128"
  shows "\<exists>u. upperUnit c = [u] \<and> stableUnit u \<and> (isWhiteSpace u \<longleftrightarrow> isWhiteSpace c)"
proof (cases "97 \<le> c \<and> c \<le> 122")
  case True
  then have u: "upperUnit c = [c - 32]" by (simp add: upperUnit_def)
  have l: "lowerUnit (c - 32) = [c]" using True by (auto simp: lowerUnit_def)
  have "stableUnit (c - 32)" unfolding stableUnit_def using u l True
    by (auto simp: isWhiteSpace_def)
  moreover have "isWhiteSpace (c - 32) \<longleftrightarrow> isWhiteSpace c" using True
    by (auto simp: isWhiteSpace_def)
  ultimately show ?thesis using u by simp
next
  case False
  then have u: "upperUnit c = [c]" using assms
    by (auto simp: upperUnit_def)
  have "stableUnit c"
  proof (cases "65 \<le> c \<and> c \<le> 90")
    case True
    then have "lowerUnit c = [c + 32]" by (simp add: lowerUnit_def)
    moreover have "upperUnit (c + 32) = [c]" using True by (simp add: upperUnit_def)
    moreover have "isWhiteSpace (c + 32) \<longleftrightarrow> isWhiteSpace c" using True
      by (auto simp: isWhiteSpace_def)
    ultimately show ?thesis unfolding stableUnit_def by blast
  next
    case F2: False
    then have "lowerUnit c = [c]" using assms by (auto simp: lowerUnit_def)
    then show ?thesis unfolding stableUnit_def using u by simp
  qed
  then show ?thesis using u by simp
qed

lemma plain_upper_polish:
  assumes "c \<in> fst ` set polishLetters \<or> c \<in> snd ` set polishLetters"
  shows "\<exists>u. upperUnit c = [u] \<and> stableUnit u \<and> (isWhiteSpace u \<longleftrightarrow> isWhiteSpace c)"
proof -
  have "c \<in> {260, 261, 262, 263, 280, 281, 321, 322, 323, 324, 211, 243, 346, 347, 377, 378, 379, 380}"
    using assms by (auto simp: polishLetters_def)
  then show ?thesis
    unfolding stableUnit_def
    by (elim insertE emptyE;
        simp add: upperUnit_def lowerUnit_def upperTable_def lowerTable_def isWhiteSpace_def)
qed

lemma plain_upper:
  "plainUnit c \<Longrightarrow> \<exists>u. upperUnit c = [u] \<and> stableUnit u \<and> (isWhiteSpace u \<longleftrightarrow> isWhiteSpace c)"
  unfolding plainUnit_def using plain_upper_ascii plain_upper_polish by blast

lemma toUpperCase_plain:
  "list_all plainUnit s \<Longrightarrow> toUpperCase s = map (\<lambda>c. hd (upperUnit c)) s"
proof (induction s)
  case Nil then show ?case by (simp add: toUpperCase_def)
next
  case (Cons a s)
  from Cons.prems plain_upper [of a] obtain u where "upperUnit a = [u]" by auto
  then show ?case using Cons by (simp add: toUpperCase_def)
qed

lemma upper_plain_stable: "plainUnit c \<Longrightarrow> stableUnit (hd (upperUnit c))"
  using plain_upper [of c] by auto

lemma upper_plain_space: "plainUnit c \<Longrightarrow> isWhiteSpace (hd (upperUnit c)) = isWhiteSpace c"
  using plain_upper [of c] by auto

lemma toLowerCase_stable:
  "list_all stableUnit t \<Longrightarrow> toLowerCase t = map (\<lambda>c. hd (lowerUnit c)) t"
proof (induction t)
  case Nil then show ?case by (simp add: toLowerCase_def)
next
  case (Cons a t)
  from Cons.prems obtain l where "lowerUnit a = [l]" unfolding stableUnit_def by auto
  then show ?case using Cons by (simp add: toLowerCase_def)
qed

lemma lower_stable_space: "stableUnit u \<Longrightarrow> isWhiteSpace (hd (lowerUnit u)) = isWhiteSpace u"
  unfolding stableUnit_def by auto

lemma upper_lower_stable:
  "list_all stableUnit t \<Longrightarrow> toUpperCase (map (\<lambda>c. hd (lowerUnit c)) t) = t"
proof (induction t)
  case Nil then show ?case by (simp add: toUpperCase_def)
next
  case (Cons a t)
  from Cons.prems obtain l where "lowerUnit a = [l]" "upperUnit l = [a]"
    unfolding stableUnit_def by auto
  then show ?case using Cons by (simp add: toUpperCase_def)
qed

lemma trim_plain: "list_all plainUnit s \<Longrightarrow> list_all plainUnit (trim s)"
  unfolding trim_def list_all_iff
  by (metis set_dropWhileD set_rev)

lemma normalize_idem_plain:
  assumes "list_all plainUnit r"
  shows "normalizeRowName (normalizeRowName r) = normalizeRowName r"
proof (cases "map_of ROMAN_MAP (toUpperCase (trim r)) \<noteq> None
           \<or> matchNumeralSuffix (toUpperCase (trim r)) \<noteq> None")
  case True then show ?thesis by (rule normalize_idem_numeral)
next
  case False
  define up where "up = (\<lambda>c. hd (upperUnit c))"
  define lo where "lo = (\<lambda>c. hd (lowerUnit c))"
  define t where "t = toUpperCase (trim r)"
  have rn: "map_of ROMAN_MAP t = None" and mn: "matchNumeralSuffix t = None"
    using False by (simp_all add: t_def)
  have res: "normalizeRowName r = toLowerCase t"
    by (simp add: normalizeRowName_def [of r] t_def [symmetric] rn mn)
  have pt: "list_all plainUnit (trim r)" by (rule trim_plain [OF assms])
  have t_map: "t = map up (trim r)" unfolding t_def up_def by (rule toUpperCase_plain [OF pt])
  have st: "list_all stableUnit t"
    unfolding t_map up_def using pt upper_plain_stable by (auto simp: list_all_iff)
  have "trim (map up (trim r)) = map up (trim (trim r))"
    by (rule trim_map) (use pt upper_plain_space in \<open>auto simp: list_all_iff up_def\<close>)
  then have tt: "trim t = t" by (simp add: t_map trim_idem)
  have low: "toLowerCase t = map lo t" unfolding lo_def by (rule toLowerCase_stable [OF st])
  have "trim (map lo t) = map lo (trim t)"
    by (rule trim_map) (use st lower_stable_space in \<open>auto simp: list_all_iff lo_def\<close>)
  then have "trim (toLowerCase t) = toLowerCase t" by (simp add: low tt)
  moreover have "toUpperCase (toLowerCase t) = t"
    unfolding low lo_def by (rule upper_lower_stable [OF st])
  ultimately have "toUpperCase (trim (toLowerCase t)) = t" by simp
  then have "normalizeRowName (toLowerCase t) = toLowerCase t"
    by (simp add: normalizeRowName_def [of "toLowerCase t"] rn mn)
  then show ?thesis by (simp add: res)
qed

lemmas string_eval =
  trim_def toUpperCase_def toLowerCase_def upperUnit_def lowerUnit_def isWhiteSpace_def
  upperTable_def lowerTable_def ROMAN_MAP_def str_def isDigit_def isRomanLetter_def

lemma normalize_VII: "normalizeRowName (str ''VII'') = str ''7''"
proof -
  have t: "toUpperCase (trim (str ''VII'')) = str ''VII''" by (simp add: string_eval)
  have r: "map_of ROMAN_MAP (str ''VII'') = Some 7" by (simp add: string_eval)
  have "numToString 7 = [55]" by (simp add: numToString.simps)
  then have n: "numToString 7 = str ''7''" by (simp add: str_def)
  show ?thesis unfolding normalizeRowName_def t Let_def r by (simp add: n)
qed

lemma normalize_Rzad_5: "normalizeRowName Rzad_5 = str ''5''"
proof -
  have t: "toUpperCase (trim Rzad_5) = str ''RZ'' @ [260] @ str ''D 5''"
    by (simp add: string_eval Rzad_5_def)
  have r: "map_of ROMAN_MAP (str ''RZ'' @ [260] @ str ''D 5'') = None" by (simp add: string_eval)
  have m: "matchNumeralSuffix (str ''RZ'' @ [260] @ str ''D 5'') = Some (str ''5'')"
    by (simp add: string_eval)
  have r2: "map_of ROMAN_MAP (str ''5'') = None" by (simp add: string_eval)
  show ?thesis unfolding normalizeRowName_def t Let_def r m by (simp add: r2)
qed

lemma normalize_Balcony: "normalizeRowName (str ''Balcony'') = str ''balcony''"
proof -
  have t: "toUpperCase (trim (str ''Balcony'')) = str ''BALCONY''" by (simp add: string_eval)
  have r: "map_of ROMAN_MAP (str ''BALCONY'') = None" by (simp add: string_eval)
  have m: "matchNumeralSuffix (str ''BALCONY'') = None" by (simp add: string_eval)
  have l: "toLowerCase (str ''BALCONY'') = str ''balcony''" by (simp add: string_eval)
  show ?thesis unfolding normalizeRowName_def t Let_def r m l by simp
qed

lemma page_normalize_Balcony: "page_normalizeRowName (str ''Balcony'') = str ''Balcony''"
proof -
  have t: "trim (toUpperCase (str ''Balcony'')) = str ''BALCONY''" by (simp add: string_eval)
  have r: "map_of ROMAN_MAP (str ''BALCONY'') = None" by (simp add: string_eval)
  have l: "trim (str ''Balcony'') = str ''Balcony''" by (simp add: string_eval)
  show ?thesis unfolding page_normalizeRowName_def t Let_def r l by simp
qed

lemma page_normalize_Rzad_5: "page_normalizeRowName Rzad_5 = Rzad_5"
proof -
  have t: "trim (toUpperCase Rzad_5) = str ''RZ'' @ [260] @ str ''D 5''"
    by (simp add: string_eval Rzad_5_def)
  have r: "map_of ROMAN_MAP (str ''RZ'' @ [260] @ str ''D 5'') = None" by (simp add: string_eval)
  have l: "trim Rzad_5 = Rzad_5" by (simp add: string_eval Rzad_5_def)
  show ?thesis unfolding page_normalizeRowName_def t Let_def r l by simp
qed

lemma split_Balcony_12: "split hyphen (str ''Balcony-12'') = [str ''Balcony'', str ''12'']"
  by (simp add: str_def)

lemma normalize_capital_sharp_s: "normalizeRowName [7838] = [223]"
proof -
  have t: "toUpperCase (trim [7838]) = [7838]" by (simp add: string_eval)
  have r: "map_of ROMAN_MAP [7838] = None" by (simp add: string_eval)
  have m: "matchNumeralSuffix [7838] = None" by (simp add: string_eval)
  have l: "toLowerCase [7838] = [223]" by (simp add: string_eval)
  show ?thesis unfolding normalizeRowName_def t Let_def r m l by simp
qed

lemma normalize_small_sharp_s: "normalizeRowName [223] = str ''ss''"
proof -
  have t: "toUpperCase (trim [223]) = str ''SS''" by (simp add: string_eval)
  have r: "map_of ROMAN_MAP (str ''SS'') = None" by (simp add: string_eval)
  have m: "matchNumeralSuffix (str ''SS'') = None" by (simp add: string_eval)
  have l: "toLowerCase (str ''SS'') = str ''ss''" by (simp add: string_eval)
  show ?thesis unfolding normalizeRowName_def t Let_def r m l by simp
qed

text \<open>
  Dotless i (U+0131) has the capital form "I", so that the label that consists of it is
  normalized to "1", as the label "I" is; capital E-acute (U+00C9) has the small form
  U+00E9.
\<close>

lemma case_mapping_examples:
  "toUpperCase [305] = str ''I''" "toLowerCase [201] = [233]" "toUpperCase [233] = [201]"
  by (simp_all add: string_eval)

lemma normalize_dotless_i: "normalizeRowName [305] = str ''1''"
proof -
  have t: "toUpperCase (trim [305]) = str ''I''" by (simp add: string_eval)
  have r: "map_of ROMAN_MAP (str ''I'') = Some 1" by (simp add: string_eval)
  have "numToString 1 = [49]" by (simp add: numToString.simps)
  then have n: "numToString 1 = str ''1''" by (simp add: str_def)
  show ?thesis unfolding normalizeRowName_def t Let_def r by (simp only: option.case n)
qed

text \<open>
  C7 (as amended). Row-name normalization is idempotent on every row label made of ASCII
  characters and Polish letters; "VII" is normalized to "7", "Rzad 5" (spelt with a-ogonek)
  to "5" and "Balcony" to "balcony".
\<close>

theorem normalizeRowName_idempotent_plain:
  "(list_all plainUnit r \<longrightarrow> normalizeRowName (normalizeRowName r) = normalizeRowName r)
   \<and> normalizeRowName (str ''VII'') = str ''7''
   \<and> normalizeRowName Rzad_5 = str ''5''
   \<and> normalizeRowName (str ''Balcony'') = str ''balcony''"
  using normalize_idem_plain [of r] normalize_VII normalize_Rzad_5 normalize_Balcony by simp

theorem normalizeRowName_idempotent_plain_witness:
  "list_all plainUnit Rzad_5
   \<and> normalizeRowName (normalizeRowName Rzad_5) = normalizeRowName Rzad_5"
proof -
  have "list_all plainUnit Rzad_5"
    by (simp add: Rzad_5_def str_def plainUnit_def polishLetters_def)
  then show ?thesis using normalizeRowName_idempotent_plain [of Rzad_5] by blast
qed

text \<open>
  C7 as stated fails: the label that consists of U+1E9E (capital sharp s) is normalized
  to U+00DF (small sharp s), and that one to "ss".
\<close>

theorem normalizeRowName_not_idempotent:
  "normalizeRowName (normalizeRowName [7838]) \<noteq> normalizeRowName [7838]"
  by (simp add: normalize_capital_sharp_s normalize_small_sharp_s str_def)

text \<open>
  C10. The normalizer of the stats route and the normalizer of the page are different
  functions: the route lower-cases a label without a numeral and cuts a label down to
  its trailing numeral, the page only trims it. They differ on the row labels "Balcony"
  and "Rzad 5" (spelt with a-ogonek) and on the seat key "Balcony-12".
\<close>

theorem normalizers_disagree:
  "normalizeRowName (str ''Balcony'') = str ''balcony''
   \<and> page_normalizeRowName (str ''Balcony'') = str ''Balcony''
   \<and> normalizeRowName (str ''Balcony'') \<noteq> page_normalizeRowName (str ''Balcony'')
   \<and> normalizeRowName Rzad_5 \<noteq> page_normalizeRowName Rzad_5
   \<and> normalizeSeatKey (str ''Balcony-12'') = str ''balcony-12''
   \<and> page_normalizeSeatKey (str ''Balcony-12'') = str ''Balcony-12''
   \<and> normalizeSeatKey (str ''Balcony-12'') \<noteq> page_normalizeSeatKey (str ''Balcony-12'')"
proof -
  have a: "normalizeSeatKey (str ''Balcony-12'') = str ''balcony-12''"
    unfolding normalizeSeatKey_def split_Balcony_12 by (simp add: normalize_Balcony) (simp add: str_def)
  have b: "page_normalizeSeatKey (str ''Balcony-12'') = str ''Balcony-12''"
    unfolding page_normalizeSeatKey_def split_Balcony_12 by (simp add: page_normalize_Balcony) (simp add: str_def)
  have c: "str ''balcony-12'' \<noteq> str ''Balcony-12''" "str ''balcony'' \<noteq> str ''Balcony''"
    by (simp_all add: str_def)
  have d: "str ''5'' \<noteq> Rzad_5" by (simp add: str_def Rzad_5_def)
  show ?thesis
    using a b c d by (simp add: normalize_Balcony page_normalize_Balcony normalize_Rzad_5 page_normalize_Rzad_5)
qed

subsection \<open>Rounding\<close>

text \<open>
  Rounding is monotone, keeps the sign, and leaves every double as it is; in particular
  the integers below \<open>2^53\<close>.
\<close>

lemma roundEven_int [simp]: "roundEven (of_int n) = n"
  by (simp add: roundEven_def)

lemma roundEven_lower: "\<lfloor>x\<rfloor> \<le> roundEven x"
  by (simp add: roundEven_def Let_def)

lemma roundEven_upper: "roundEven x \<le> \<lfloor>x\<rfloor> + 1"
  by (simp add: roundEven_def Let_def)

lemma roundEven_mono:
  assumes "x \<le> y"
  shows "roundEven x \<le> roundEven y"
proof (cases "\<lfloor>x\<rfloor> = \<lfloor>y\<rfloor>")
  case True
  then show ?thesis using assms by (auto simp: roundEven_def Let_def)
next
  case False
  then have "\<lfloor>x\<rfloor> < \<lfloor>y\<rfloor>" using assms floor_mono [of x y] by linarith
  then show ?thesis using roundEven_upper [of x] roundEven_lower [of y] by linarith
qed

lemma roundEven_ge: "of_int n \<le> x \<Longrightarrow> n \<le> roundEven x"
  using roundEven_mono [of "of_int n" x] by simp

lemma roundEven_le: "x \<le> of_int n \<Longrightarrow> roundEven x \<le> n"
  using roundEven_mono [of x "of_int n"] by simp

lemma powi_powr: "(2::real) powi k = 2 powr real_of_int k"
  by (simp add: powr_real_of_int')

lemma floor_log_bounds:
  assumes "0 < x"
  shows "2 powi \<lfloor>log 2 x\<rfloor> \<le> x" "x < 2 powi (\<lfloor>log 2 x\<rfloor> + 1)"
  using floor_log_eq_powr_iff [of x 2 "\<lfloor>log 2 x\<rfloor>"] assms by (simp_all add: powi_powr)

lemma floor_log_eq:
  assumes "0 < x" "2 powi e \<le> x" "x < 2 powi (e + 1)"
  shows "\<lfloor>log 2 x\<rfloor> = e"
  using floor_log_eq_powr_iff [of x 2 e] assms by (simp add: powi_powr)

lemma binade_eq:
  assumes "0 < x" "2 powi e \<le> x" "x < 2 powi (e + 1)" "- 1022 \<le> e"
  shows "binade x = e"
  using floor_log_eq [OF assms(1-3)] assms(1,4) by (simp add: binade_def)

lemma binade_upper: "0 < x \<Longrightarrow> x < 2 powi (binade x + 1)"
proof -
  assume x: "0 < x"
  have "x < 2 powi (\<lfloor>log 2 x\<rfloor> + 1)" by (rule floor_log_bounds [OF x])
  also have "\<dots> \<le> 2 powi (binade x + 1)"
    using x by (intro power_int_increasing) (simp_all add: binade_def)
  finally show ?thesis .
qed

lemma binade_lower: "0 < x \<Longrightarrow> - 1022 < binade x \<Longrightarrow> 2 powi binade x \<le> x"
  using floor_log_bounds(1) [of x] by (simp add: binade_def max_def split: if_splits)

lemma binade_mono: "0 < x \<Longrightarrow> x \<le> y \<Longrightarrow> binade x \<le> binade y"
  unfolding binade_def by (intro max.mono floor_mono) simp_all

lemma binade_minus [simp]: "binade (- x) = binade x"
  by (simp add: binade_def)

lemma ulp_pos: "0 < ulp x"
  by (simp add: ulp_def)

lemma ulp_minus [simp]: "ulp (- x) = ulp x"
  by (simp add: ulp_def)

lemma fl_0 [simp]: "fl 0 = 0"
  by (simp add: fl_def)

lemma fl_pos: "0 < x \<Longrightarrow> fl x = real_of_int (roundEven (x / ulp x)) * ulp x"
  by (simp add: fl_def)

lemma fl_minus: "fl (- x) = - fl x"
  by (simp add: fl_def sgn_minus)

lemma fl_nonneg: "0 \<le> x \<Longrightarrow> 0 \<le> fl x"
proof (cases "x = 0")
  case False
  assume "0 \<le> x"
  then have x: "0 < x" using False by simp
  have "0 \<le> x / ulp x" using x ulp_pos [of x] by simp
  then have "0 \<le> roundEven (x / ulp x)" using roundEven_ge [of 0 "x / ulp x"] by simp
  then show ?thesis using ulp_pos [of x] by (simp add: fl_pos [OF x])
qed simp

lemma fl_nonpos: "x \<le> 0 \<Longrightarrow> fl x \<le> 0"
  using fl_nonneg [of "- x"] by (simp add: fl_minus)

lemma two_powi_split: "(2::real) powi (e + 1) = 2 ^ 53 * 2 powi (e - 52)"
proof -
  have "e + 1 = 53 + (e - 52)" by simp
  then have "(2::real) powi (e + 1) = 2 powi (53 + (e - 52))" by (rule arg_cong)
  also have "\<dots> = 2 powi 53 * 2 powi (e - 52)" by (subst power_int_add) simp_all
  finally show ?thesis by simp
qed

lemma two_powi_split': "(2::real) powi e = 2 ^ 52 * 2 powi (e - 52)"
proof -
  have "e = 52 + (e - 52)" by simp
  then have "(2::real) powi e = 2 powi (52 + (e - 52))" by (rule arg_cong)
  also have "\<dots> = 2 powi 52 * 2 powi (e - 52)" by (subst power_int_add) simp_all
  finally show ?thesis by simp
qed

lemma fl_upper:
  assumes "0 < x"
  shows "fl x \<le> 2 powi (binade x + 1)"
proof -
  have "x / ulp x \<le> 2 ^ 53"
    using binade_upper [OF assms] ulp_pos [of x]
    by (simp add: two_powi_split [of "binade x"] ulp_def pos_divide_le_eq)
  then have "roundEven (x / ulp x) \<le> 2 ^ 53"
    using roundEven_le [of "x / ulp x" "2 ^ 53"] by simp
  then have "real_of_int (roundEven (x / ulp x)) \<le> 2 ^ 53"
    by (metis of_int_le_iff of_int_numeral of_int_power)
  then have "fl x \<le> 2 ^ 53 * ulp x"
    using ulp_pos [of x] by (simp add: fl_pos [OF assms])
  then show ?thesis by (simp add: two_powi_split [of "binade x"] ulp_def)
qed

lemma fl_lower:
  assumes "0 < x" "- 1022 < binade x"
  shows "2 powi binade x \<le> fl x"
proof -
  have "2 ^ 52 \<le> x / ulp x"
    using binade_lower [OF assms] ulp_pos [of x]
    by (simp add: two_powi_split' [of "binade x"] ulp_def pos_le_divide_eq)
  then have "2 ^ 52 \<le> roundEven (x / ulp x)"
    using roundEven_ge [of "2 ^ 52" "x / ulp x"] by simp
  then have "2 ^ 52 \<le> real_of_int (roundEven (x / ulp x))"
    by (metis of_int_le_iff of_int_numeral of_int_power)
  then have "2 ^ 52 * ulp x \<le> fl x"
    using ulp_pos [of x] by (simp add: fl_pos [OF assms(1)])
  then show ?thesis by (simp add: two_powi_split' [of "binade x"] ulp_def)
qed

lemma fl_mono_pos:
  assumes "0 < x" "x \<le> y"
  shows "fl x \<le> fl y"
proof (cases "binade x = binade y")
  case True
  then have u: "ulp y = ulp x" by (simp add: ulp_def)
  have "x / ulp x \<le> y / ulp x" using assms ulp_pos [of x] by (simp add: divide_right_mono)
  then have "roundEven (x / ulp x) \<le> roundEven (y / ulp x)" by (rule roundEven_mono)
  then show ?thesis using assms ulp_pos [of x] by (simp add: fl_pos u)
next
  case False
  then have lt: "binade x < binade y" using binade_mono [OF assms] by simp
  have y: "0 < y" using assms by simp
  have "- 1022 \<le> binade x" by (simp add: binade_def)
  then have n: "- 1022 < binade y" using lt by simp
  have "fl x \<le> 2 powi (binade x + 1)" by (rule fl_upper [OF assms(1)])
  also have "\<dots> \<le> 2 powi binade y" using lt by (intro power_int_increasing) simp_all
  also have "\<dots> \<le> fl y" by (rule fl_lower [OF y n])
  finally show ?thesis .
qed

lemma fl_mono:
  assumes "x \<le> y"
  shows "fl x \<le> fl y"
proof -
  consider "0 < x" | "x \<le> 0" "0 \<le> y" | "y < 0" by linarith
  then show ?thesis
  proof cases
    case 1 then show ?thesis using assms by (rule fl_mono_pos)
  next
    case 2 then show ?thesis using fl_nonpos [of x] fl_nonneg [of y] by linarith
  next
    case 3
    then have "fl (- y) \<le> fl (- x)" using assms by (intro fl_mono_pos) simp_all
    then show ?thesis by (simp add: fl_minus)
  qed
qed

text \<open>A number with at most 53 significant bits is a double, and is not changed by rounding.\<close>

lemma fl_representable_pos:
  assumes "0 < m" "m < 2 ^ 53" "- 1074 \<le> k"
  shows "fl (real_of_int m * 2 powi k) = real_of_int m * 2 powi k"
proof -
  define x where "x = real_of_int m * 2 powi k"
  have x: "0 < x" using assms(1) by (simp add: x_def)
  have "real_of_int m < 2 ^ 53" using assms(2) by (metis of_int_less_iff of_int_numeral of_int_power)
  then have "x < 2 ^ 53 * 2 powi k" by (simp add: x_def)
  also have "\<dots> = 2 powi (k + 52 + 1)" using two_powi_split [of "k + 52"] by simp
  finally have "x < 2 powi (k + 52 + 1)" .
  moreover have "2 powi \<lfloor>log 2 x\<rfloor> \<le> x" by (rule floor_log_bounds [OF x])
  ultimately have "(2::real) powi \<lfloor>log 2 x\<rfloor> < 2 powi (k + 52 + 1)" by simp
  then have "\<lfloor>log 2 x\<rfloor> < k + 52 + 1"
    using power_int_increasing [of "k + 52 + 1" "\<lfloor>log 2 x\<rfloor>" "2::real"]
    by (cases "\<lfloor>log 2 x\<rfloor> < k + 52 + 1") auto
  then have e: "binade x \<le> k + 52" using assms(3) x by (simp add: binade_def)
  define j where "j = nat (k + 52 - binade x)"
  have kj: "k = int j + (binade x - 52)" using e by (simp add: j_def)
  define u where "u = ulp x"
  have u: "0 < u" by (simp add: u_def ulp_pos)
  have "2 powi k = (2::real) ^ j * u"
    by (subst kj, subst power_int_add) (simp_all add: ulp_def u_def)
  then have xu: "x = real_of_int (m * 2 ^ j) * u" by (simp add: x_def)
  then have q: "x / u = real_of_int (m * 2 ^ j)" using u by simp
  have "fl x = real_of_int (roundEven (x / u)) * u" by (simp add: fl_pos [OF x] u_def)
  also have "\<dots> = x" unfolding q roundEven_int using xu by simp
  finally show ?thesis by (simp add: x_def)
qed

lemma fl_representable:
  assumes "\<bar>m\<bar> < 2 ^ 53" "- 1074 \<le> k"
  shows "fl (real_of_int m * 2 powi k) = real_of_int m * 2 powi k"
proof -
  consider "m = 0" | "0 < m" | "m < 0" by linarith
  then show ?thesis
  proof cases
    case 1 then show ?thesis by simp
  next
    case 2 then show ?thesis using assms by (intro fl_representable_pos) simp_all
  next
    case 3
    then have "fl (real_of_int (- m) * 2 powi k) = real_of_int (- m) * 2 powi k"
      using assms by (intro fl_representable_pos) simp_all
    then show ?thesis using fl_minus [of "real_of_int m * 2 powi k"] by simp
  qed
qed

lemma fl_int: "\<bar>n\<bar> < 2 ^ 53 \<Longrightarrow> fl (real_of_int n) = real_of_int n"
  using fl_representable [of n 0] by simp

lemma fl_eval:
  assumes "0 < x" "2 powi e \<le> x" "x < 2 powi (e + 1)" "- 1022 \<le> e"
  shows "fl x = real_of_int (roundEven (x / 2 powi (e - 52))) * 2 powi (e - 52)"
  by (simp add: fl_pos [OF assms(1)] ulp_def binade_eq [OF assms])

lemma fl_eval_round:
  assumes "0 < x" "2 powi e \<le> x" "x < 2 powi (e + 1)" "- 1022 \<le> e"
    "roundEven (x / 2 powi (e - 52)) = m"
  shows "fl x = real_of_int m * 2 powi (e - 52)"
  using fl_eval [OF assms(1-4)] assms(5) by simp

lemma fl_numeral: "\<bar>numeral n :: int\<bar> < 2 ^ 53 \<Longrightarrow> fl (numeral n) = numeral n"
  using fl_int [of "numeral n"] by simp

lemma fl_1: "fl 1 = 1"
  using fl_int [of 1] by simp

lemma fl_values:
  "fl (1 / 2) = 1 / 2" "fl (3 / 4) = 3 / 4" "fl (225 / 2) = 225 / 2"
  "fl (- (165 / 2)) = - (165 / 2)"
  using fl_representable [of 1 "- 1"] fl_representable [of 3 "- 2"]
    fl_representable [of 225 "- 1"] fl_representable [of "- 165" "- 1"]
  by (simp_all add: power_int_minus)

text \<open>
  The double 0.3 is \<open>5404319552844595 / 2^54\<close>, a little less than 3/10, and the next
  double is greater than 3/10. A quotient of two row counts below \<open>2^32\<close> that is
  greater than 3/10 is at least that next double.
\<close>

lemma fl_three_tenths: "fl (3 / 10) = 5404319552844595 / 2 ^ 54"
proof -
  have "roundEven (3 / 10 / 2 powi (- 2 - 52)) = 5404319552844595"
    by (simp add: roundEven_def power_int_minus)
  then show ?thesis
    using fl_eval [of "3 / 10" "- 2"] by (simp add: power_int_minus)
qed

lemma row_filter_rounding:
  assumes "0 \<le> a" "0 \<le> b" "a < 2 ^ 32" "b < 2 ^ 32"
  shows "fl (relDiff a b) > fl (3 / 10) \<longleftrightarrow> relDiff a b > 3 / 10"
proof
  assume "fl (relDiff a b) > fl (3 / 10)"
  then show "relDiff a b > 3 / 10" using fl_mono [of "relDiff a b" "3 / 10"] by linarith
next
  assume g: "relDiff a b > 3 / 10"
  define m where "m = max (max a b) 1"
  define n where "n = \<bar>a - b\<bar>"
  have m: "1 \<le> m" "m < 2 ^ 32" using assms by (simp_all add: m_def)
  have r: "relDiff a b = real_of_int n / real_of_int m"
    by (simp add: relDiff_def m_def n_def del: of_int_max)
  have mp: "0 < real_of_int m" using m by simp
  from g have "3 * real_of_int m < 10 * real_of_int n"
    unfolding r using mp by (simp add: field_simps)
  then have "real_of_int (3 * m) < real_of_int (10 * n)" by simp
  then have "3 * m < 10 * n" by (simp only: of_int_less_iff)
  then have "3 * m + 1 \<le> 10 * n" by simp
  then have le: "real_of_int (3 * m + 1) \<le> real_of_int (10 * n)" by (simp only: of_int_le_iff)
  have "3 / 10 + 1 / (10 * real_of_int m) = real_of_int (3 * m + 1) / (10 * real_of_int m)"
    using mp by (simp add: field_simps)
  also have "\<dots> \<le> real_of_int (10 * n) / (10 * real_of_int m)"
    using le mp by (intro divide_right_mono) simp_all
  also have "\<dots> = relDiff a b" unfolding r by simp
  finally have ge: "3 / 10 + 1 / (10 * real_of_int m) \<le> relDiff a b" .
  have "real_of_int m < 2 ^ 32" using m(2) by (metis of_int_less_iff of_int_numeral of_int_power)
  then have "1 / (10 * 2 ^ 32) \<le> 1 / (10 * real_of_int m)"
    using mp by (intro divide_left_mono) simp_all
  then have "5404319552844596 / 2 ^ 54 \<le> relDiff a b" using ge by simp
  then have "fl (5404319552844596 / 2 ^ 54) \<le> fl (relDiff a b)" by (rule fl_mono)
  moreover have "fl (5404319552844596 / 2 ^ 54) = 5404319552844596 / 2 ^ 54"
    using fl_representable [of 5404319552844596 "- 54"] by (simp add: power_int_minus)
  ultimately show "fl (relDiff a b) > fl (3 / 10)" by (simp add: fl_three_tenths)
qed

subsection \<open>Sector matching\<close>

lemma matchLoop_bestSoFar:
  "bestSoFar er ms seen best \<Longrightarrow> bestSoFar er ms (seen @ kb) (matchLoop er kb ms best)"
proof (induction kb arbitrary: seen best)
  case Nil then show ?case by simp
next
  case (Cons c kb)
  obtain bm bs where b: "best = (bm, bs)" by (cases best)
  have step: "bestSoFar er ms (seen @ [c])
     (if sectorName c \<in> ms then (bm, bs)
      else if relDiff (int (length er)) (int (length (rows c))) > 3 / 10 then (bm, bs)
      else if sectorScore er c > bs then (Some c, sectorScore er c) else (bm, bs))"
    using Cons.prems unfolding b bestSoFar_def eligible_def
    by (auto split: option.splits)
  have "matchLoop er (c # kb) ms best = matchLoop er kb ms
     (if sectorName c \<in> ms then (bm, bs)
      else if relDiff (int (length er)) (int (length (rows c))) > 3 / 10 then (bm, bs)
      else if sectorScore er c > bs then (Some c, sectorScore er c) else (bm, bs))"
    by (simp add: b)
  then show ?case using Cons.IH [OF step] by simp
qed

lemma matchLoop_result: "bestSoFar er ms kb (matchLoop er kb ms (None, 0))"
proof -
  have "bestSoFar er ms [] (None, 0)" by (simp add: bestSoFar_def)
  from matchLoop_bestSoFar [OF this, of kb] show ?thesis by simp
qed

lemma match_Some:
  assumes "matchSectorByStructure er kb ms = (Some s, ms')"
  shows "s \<in> set kb \<and> eligible er ms s \<and> sectorScore er s \<ge> 50
         \<and> (\<forall>c\<in>set kb. eligible er ms c \<longrightarrow> sectorScore er c \<le> sectorScore er s)
         \<and> ms' = insert (sectorName s) ms"
proof -
  obtain bm bs where l: "matchLoop er kb ms (None, 0) = (bm, bs)" by (cases "matchLoop er kb ms (None, 0)")
  from assms have "bm = Some s \<and> bs \<ge> 50 \<and> ms' = insert (sectorName s) ms"
    unfolding matchSectorByStructure_def l by (auto split: option.splits if_splits)
  then show ?thesis using matchLoop_result [of er ms kb] unfolding l bestSoFar_def by auto
qed

lemma match_None:
  assumes "matchSectorByStructure er kb ms = (None, ms')"
  shows "ms' = ms \<and> (\<forall>c\<in>set kb. eligible er ms c \<longrightarrow> sectorScore er c < 50)"
proof -
  obtain bm bs where l: "matchLoop er kb ms (None, 0) = (bm, bs)" by (cases "matchLoop er kb ms (None, 0)")
  from assms have "ms' = ms \<and> (bm = None \<or> bs < 50)"
    unfolding matchSectorByStructure_def l by (auto split: option.splits if_splits)
  then show ?thesis using matchLoop_result [of er ms kb] unfolding l bestSoFar_def
    by (auto split: option.splits)
qed

lemma normalize_1: "normalizeRowName (str ''1'') = str ''1''"
  by (rule normalize_digits) (simp_all add: str_def isDigit_def)
lemma normalize_2: "normalizeRowName (str ''2'') = str ''2''"
  by (rule normalize_digits) (simp_all add: str_def isDigit_def)

lemma str_neq: "str ''1'' \<noteq> str ''2''" "str ''A'' \<noteq> str ''B''" by (simp_all add: str_def)

lemmas score_defs =
  sectorScore_def rowCountPoints_def seatCountPoints_def rowNameMatchRatio_def
  matchingRowNames_def ebiletTotalSeats_def seatDiffPercent_def rowCountDiff_def
  jsAdd_def jsSub_def jsMul_def jsDiv_def relDiff_def

lemma score_AA: "sectorScore rowsA sectorA = 100"
  by (simp add: score_defs rowsA_def sectorA_def oneSeat_def normalize_1 fl_numeral fl_1)

lemma score_BB: "sectorScore rowsB sectorB = 100"
  using str_neq
  by (simp add: score_defs rowsB_def sectorB_def oneSeat_def normalize_1 normalize_2 fl_numeral fl_1)

lemma far_AB: "relDiff (int (length rowsA)) (int (length (rows sectorB))) > 3 / 10"
  by (simp add: rowsA_def rowsB_def sectorB_def relDiff_def)

lemma far_BA: "relDiff (int (length rowsB)) (int (length (rows sectorA))) > 3 / 10"
  by (simp add: rowsA_def rowsB_def sectorA_def relDiff_def)

lemma near_AA: "\<not> relDiff (int (length rowsA)) (int (length (rows sectorA))) > 3 / 10"
  by (simp add: rowsA_def sectorA_def relDiff_def)

lemma near_BB: "\<not> relDiff (int (length rowsB)) (int (length (rows sectorB))) > 3 / 10"
  by (simp add: rowsB_def sectorB_def relDiff_def)

lemma names_AB: "sectorName sectorA = str ''A''" "sectorName sectorB = str ''B''"
  by (simp_all add: sectorA_def sectorB_def)

lemma match_A: "matchSectorByStructure rowsA [sectorA, sectorB] {} = (Some sectorA, {str ''A''})"
  using far_AB near_AA by (simp add: matchSectorByStructure_def score_AA names_AB)

lemma match_B: "matchSectorByStructure rowsB [sectorA, sectorB] {str ''A''} = (Some sectorB, {str ''B'', str ''A''})"
  using far_BA near_BB str_neq by (simp add: matchSectorByStructure_def score_BB names_AB)

lemma loop_distinct_step:
  assumes "matchSectorByStructure er kb ms = (m, ms')"
  shows "(case m of None \<Rightarrow> ms' = ms | Some s \<Rightarrow> s \<in> set kb \<and> sectorName s \<notin> ms \<and> ms' = insert (sectorName s) ms)"
  using assms match_Some [of er kb ms] match_None [of er kb ms]
  by (cases m) (auto simp: eligible_def)

lemma biletynaSectorLoop_matched:
  "distinct (map sectorName (matchedOf (biletynaSectorLoop i rs kbo ms)))
   \<and> sectorName ` set (matchedOf (biletynaSectorLoop i rs kbo ms)) \<inter> ms = {}"
proof (induction rs arbitrary: i ms)
  case Nil show ?case by simp
next
  case (Cons d rs)
  show ?case
  proof (cases kbo)
    case None
    then show ?thesis using Cons [of "i + 1" ms] by (simp add: Let_def)
  next
    case (Some kb)
    obtain m ms' where mm: "matchSectorByStructure (rows d) kb ms = (m, ms')"
      by (cases "matchSectorByStructure (rows d) kb ms")
    note st = loop_distinct_step [OF mm]
    note ih = Cons [of "i + 1" ms']
    show ?thesis
    proof (cases m)
      case None
      then show ?thesis using st ih by (simp add: Some mm Let_def)
    next
      case (Some s)
      then show ?thesis using st ih by (auto simp: \<open>kbo = Some kb\<close> mm Let_def)
    qed
  qed
qed

lemma ebiletSectorLoop_matched:
  "distinct (map sectorName (matchedOf (ebiletSectorLoop i ss fsd kbo ms)))
   \<and> sectorName ` set (matchedOf (ebiletSectorLoop i ss fsd kbo ms)) \<inter> ms = {}"
proof (induction ss arbitrary: i ms)
  case Nil show ?case by simp
next
  case (Cons x ss)
  obtain sid seats where x: "x = (sid, seats)" by (cases x)
  obtain rd fl tl where sl: "ebiletSeatLoop seats (freeSeatIdsOf fsd sid) ([], [], []) = (rd, fl, tl)"
    by (cases "ebiletSeatLoop seats (freeSeatIdsOf fsd sid) ([], [], [])")
  show ?case
  proof (cases "rd = []")
    case True
    then show ?thesis using Cons [of "i + 1" ms] by (simp add: x sl)
  next
    case False
    show ?thesis
    proof (cases kbo)
      case None
      then show ?thesis using Cons [of "i + 1" ms] False by (simp add: x sl Let_def)
    next
      case (Some kb)
      obtain m ms' where mm: "matchSectorByStructure rd kb ms = (m, ms')"
        by (cases "matchSectorByStructure rd kb ms")
      note st = loop_distinct_step [OF mm]
      note ih = Cons [of "i + 1" ms']
      show ?thesis
      proof (cases m)
        case None
        then show ?thesis using st ih False by (simp add: x sl Some mm Let_def)
      next
        case (Some s)
        then show ?thesis using st ih False by (auto simp: x sl \<open>kbo = Some kb\<close> mm Let_def)
      qed
    qed
  qed
qed

text \<open>
  C3 (as amended). Within the matching pass of one vendor, greedy sector matching never
  assigns two sectors of that vendor to canonical sectors of the same name, hence never to
  the same canonical sector: the canonical sectors matched for Biletyna have pairwise
  distinct names, and so have the canonical sectors matched for eBilet.
\<close>

theorem greedy_no_reuse_per_vendor:
  "distinct (map sectorName (matchedOf (fst (postProcessMatches biletynaRawData ebiletRawData results))))
   \<and> distinct (map sectorName (matchedOf (snd (postProcessMatches biletynaRawData ebiletRawData results))))"
proof -
  have b: "distinct (map sectorName (matchedOf (biletynaMatches rs kbo)))" for rs kbo
    unfolding biletynaMatches_def using biletynaSectorLoop_matched [of 0 rs kbo "{}"]
    by (auto split: list.splits)
  have e: "distinct (map sectorName (matchedOf (ebiletMatches ss fsd kbo)))" for ss fsd kbo
    unfolding ebiletMatches_def using ebiletSectorLoop_matched [of 0 ss fsd kbo "{}"]
    by auto
  show ?thesis
    unfolding postProcessMatches_def Let_def using b e
    by (auto split: option.splits prod.splits)
qed

lemma example_biletyna_matches:
  "matchedOf (biletynaMatches exampleBiletynaRaw (Some [sectorA, sectorB])) = [sectorA, sectorB]"
  by (simp add: biletynaMatches_def exampleBiletynaRaw_def match_A match_B)

lemma example_seat_loops:
  "ebiletSeatLoop [\<lparr> seat_id = str ''a'', seat_rn = str ''1'', seat_n = str ''1'' \<rparr>]
     (freeSeatIdsOf exampleFreeSeats (str ''s1'')) ([], [], [])
     = (rowsA, [str ''1-1''], [])"
  "ebiletSeatLoop [\<lparr> seat_id = str ''b'', seat_rn = str ''1'', seat_n = str ''1'' \<rparr>,
                   \<lparr> seat_id = str ''c'', seat_rn = str ''2'', seat_n = str ''1'' \<rparr>]
     (freeSeatIdsOf exampleFreeSeats (str ''s2'')) ([], [], [])
     = (rowsB, [str ''1-1'', str ''2-1''], [])"
  by (simp_all add: freeSeatIdsOf_def exampleFreeSeats_def countSeat_def rowsA_def rowsB_def
        oneSeat_def str_def Let_def)

lemma example_ebilet_matches:
  "matchedOf (ebiletMatches exampleSeatsBySid exampleFreeSeats (Some [sectorA, sectorB]))
     = [sectorA, sectorB]"
proof -
  have e: "err exampleFreeSeats = None" by (simp add: exampleFreeSeats_def)
  have n: "rowsA \<noteq> []" "rowsB \<noteq> []" by (simp_all add: rowsA_def rowsB_def)
  show ?thesis
    unfolding ebiletMatches_def exampleSeatsBySid_def
    using n by (simp add: e example_seat_loops match_A match_B del: ebiletSeatLoop.simps)
qed

theorem greedy_no_reuse_per_vendor_witness:
  "distinct (map sectorName (matchedOf (fst (postProcessMatches (Some exampleBiletynaRaw)
       (Some (exampleSeatsBySid, exampleFreeSeats)) exampleKupbilecik))))
   \<and> distinct (map sectorName (matchedOf (snd (postProcessMatches (Some exampleBiletynaRaw)
       (Some (exampleSeatsBySid, exampleFreeSeats)) exampleKupbilecik))))"
  by (rule greedy_no_reuse_per_vendor)

text \<open>
  C3 as stated fails: the set of matched sectors is not shared between the vendors of a
  request. In the example the first Biletyna sector is matched to canonical sector A, and
  the later match attempt for the first eBilet sector does not skip A: it is matched to A
  as well.
\<close>

theorem greedy_reuse_across_vendors:
  "matchedOf (fst (postProcessMatches (Some exampleBiletynaRaw)
       (Some (exampleSeatsBySid, exampleFreeSeats)) exampleKupbilecik)) = [sectorA, sectorB]
   \<and> matchedOf (snd (postProcessMatches (Some exampleBiletynaRaw)
       (Some (exampleSeatsBySid, exampleFreeSeats)) exampleKupbilecik)) = [sectorA, sectorB]"
  by (simp add: postProcessMatches_def exampleKupbilecik_def Let_def
        example_biletyna_matches example_ebilet_matches)

lemma relDiff_nonneg: "0 \<le> relDiff a b"
  by (simp add: relDiff_def)

lemma relDiff_close:
  assumes "\<not> relDiff a b > 3 / 10" "0 \<le> a" "0 \<le> b"
  shows "10 * \<bar>a - b\<bar> \<le> 3 * max a b"
proof (cases "max a b \<ge> 1")
  case True
  then have m: "max (max a b) 1 = max a b" by simp
  have p: "0 < real_of_int (max a b)" using True by simp
  from assms(1) have "\<bar>real_of_int a - real_of_int b\<bar> / real_of_int (max a b) \<le> 3 / 10"
    by (simp add: relDiff_def m del: of_int_max)
  then have "10 * \<bar>real_of_int a - real_of_int b\<bar> \<le> 3 * real_of_int (max a b)"
    using p by (simp add: field_simps del: of_int_max)
  then have "real_of_int (10 * \<bar>a - b\<bar>) \<le> real_of_int (3 * max a b)"
    by (simp del: of_int_max)
  then show ?thesis by (simp only: of_int_le_iff)
next
  case False
  then have "a = 0" "b = 0" using assms by auto
  then show ?thesis by simp
qed

text \<open>
  C4. A sector returned by \<open>matchSectorByStructure\<close> is one of the canonical candidates,
  and its row count does not differ from the vendor sector's row count by more than 30% of
  the larger of the two counts, whatever the seat counts and row names are; a vendor
  sector of 3 rows is never matched to a canonical sector of 10 rows.
\<close>

theorem row_count_filter:
  "(\<forall>s. fst (matchSectorByStructure ebiletRows kb ms) = Some s \<longrightarrow>
        s \<in> set kb
        \<and> 10 * \<bar>int (length ebiletRows) - int (length (rows s))\<bar>
            \<le> 3 * max (int (length ebiletRows)) (int (length (rows s))))
   \<and> (length ebiletRows = 3 \<longrightarrow>
        (\<forall>s. length (rows s) = 10 \<longrightarrow> fst (matchSectorByStructure ebiletRows kb ms) \<noteq> Some s))"
proof -
  have a: "s \<in> set kb
        \<and> 10 * \<bar>int (length ebiletRows) - int (length (rows s))\<bar>
            \<le> 3 * max (int (length ebiletRows)) (int (length (rows s)))"
    if "fst (matchSectorByStructure ebiletRows kb ms) = Some s" for s
  proof -
    from that obtain ms' where "matchSectorByStructure ebiletRows kb ms = (Some s, ms')"
      by (cases "matchSectorByStructure ebiletRows kb ms") auto
    from match_Some [OF this] have "s \<in> set kb" "eligible ebiletRows ms s" by auto
    then show ?thesis using relDiff_close [of "int (length ebiletRows)" "int (length (rows s))"]
      by (simp add: eligible_def)
  qed
  have b: "fst (matchSectorByStructure ebiletRows kb ms) \<noteq> Some s"
    if "length ebiletRows = 3" "length (rows s) = 10" for s
    using a [of s] that by auto
  show ?thesis using a b by blast
qed

lemma match_threeRows: "fst (matchSectorByStructure threeRows [tenRowSector] {}) = None"
proof -
  have "relDiff (int (length threeRows)) (int (length (rows tenRowSector))) > 3 / 10"
    by (simp add: threeRows_def tenRowSector_def tenRowNames_def relDiff_def)
  then show ?thesis by (simp add: matchSectorByStructure_def)
qed

theorem row_count_filter_witness:
  "fst (matchSectorByStructure rowsA [sectorA, sectorB] {}) = Some sectorA
   \<and> sectorA \<in> set [sectorA, sectorB]
   \<and> 10 * \<bar>int (length rowsA) - int (length (rows sectorA))\<bar>
       \<le> 3 * max (int (length rowsA)) (int (length (rows sectorA)))
   \<and> length threeRows = 3 \<and> length (rows tenRowSector) = 10
   \<and> fst (matchSectorByStructure threeRows [tenRowSector] {}) \<noteq> Some tenRowSector"
proof -
  have m: "fst (matchSectorByStructure rowsA [sectorA, sectorB] {}) = Some sectorA"
    by (simp add: match_A)
  have l: "length threeRows = 3" "length (rows tenRowSector) = 10"
    by (simp_all add: threeRows_def tenRowSector_def tenRowNames_def)
  show ?thesis
    using m l row_count_filter [of rowsA "[sectorA, sectorB]" "{}"]
      row_count_filter [of threeRows "[tenRowSector]" "{}"]
    by blast
qed

lemma rowCountPoints_le: "rowCountPoints a b \<le> 30"
proof -
  have "0 \<le> rowCountDiff a b" unfolding rowCountDiff_def by (intro fl_nonneg relDiff_nonneg)
  then have "0 \<le> jsMul (rowCountDiff a b) 100" unfolding jsMul_def by (intro fl_nonneg) simp
  then have "fl (30 - jsMul (rowCountDiff a b) 100) \<le> fl 30" by (intro fl_mono) simp
  then show ?thesis by (simp add: rowCountPoints_def jsSub_def fl_numeral)
qed

lemma seatDiffPercent_nonneg: "0 \<le> seatDiffPercent x y"
  unfolding seatDiffPercent_def jsDiv_def by (intro fl_nonneg divide_nonneg_pos) simp_all

lemma seatCountPoints_le: "seatCountPoints x y \<le> 30"
proof -
  have "0 \<le> jsMul (seatDiffPercent x y) 150"
    unfolding jsMul_def using seatDiffPercent_nonneg [of x y] by (intro fl_nonneg) simp
  then have "fl (30 - jsMul (seatDiffPercent x y) 150) \<le> fl 30" by (intro fl_mono) simp
  then show ?thesis by (simp add: seatCountPoints_def jsSub_def fl_numeral)
qed

lemma matchingRowNames_le: "matchingRowNames es ks \<le> length es"
proof -
  have "matchingRowNames es ks \<le> length (remdups (map normalizeRowName es))"
    unfolding matchingRowNames_def Let_def by (rule length_filter_le)
  also have "\<dots> \<le> length es" using length_remdups_leq [of "map normalizeRowName es"] by simp
  finally show ?thesis .
qed

lemma rowNameMatchRatio_le: "rowNameMatchRatio es ks \<le> 1"
proof -
  have "real (matchingRowNames es ks) \<le> real_of_int (max (int (length es)) 1)"
    using matchingRowNames_le [of es ks] by simp
  moreover have "0 < real_of_int (max (int (length es)) 1)" by simp
  ultimately have "real (matchingRowNames es ks) / real_of_int (max (int (length es)) 1) \<le> 1"
    by (simp add: divide_le_eq_1 del: of_int_max)
  then have "rowNameMatchRatio es ks \<le> fl 1"
    unfolding rowNameMatchRatio_def jsDiv_def by (rule fl_mono)
  then show ?thesis by (simp add: fl_1)
qed

lemma sectorScore_le_100: "sectorScore er c \<le> 100"
proof -
  define p1 where "p1 = rowCountPoints (int (length (map fst er))) (int (length (map fst (rows c))))"
  define p2 where "p2 = seatCountPoints (ebiletTotalSeats er) (real_of_int (total (totals c)))"
  define q where "q = rowNameMatchRatio (map fst er) (map fst (rows c))"
  have s: "sectorScore er c = jsAdd (jsAdd (jsAdd 0 p1) p2) (jsMul q 40)"
    by (simp add: sectorScore_def Let_def p1_def p2_def q_def)
  have "jsAdd 0 p1 \<le> fl 30"
    unfolding jsAdd_def using rowCountPoints_le [of "int (length (map fst er))" "int (length (map fst (rows c)))"]
    by (intro fl_mono) (simp add: p1_def)
  then have s1: "jsAdd 0 p1 \<le> 30" by (simp add: fl_numeral)
  have "jsAdd (jsAdd 0 p1) p2 \<le> fl 60"
    unfolding jsAdd_def [of "jsAdd 0 p1"]
    using s1 seatCountPoints_le [of "ebiletTotalSeats er" "real_of_int (total (totals c))"]
    by (intro fl_mono) (simp add: p2_def)
  then have s2: "jsAdd (jsAdd 0 p1) p2 \<le> 60" by (simp add: fl_numeral)
  have "jsMul q 40 \<le> fl 40"
    unfolding jsMul_def using rowNameMatchRatio_le [of "map fst er" "map fst (rows c)"]
    by (intro fl_mono) (simp add: q_def)
  then have s3: "jsMul q 40 \<le> 40" by (simp add: fl_numeral)
  have "jsAdd (jsAdd (jsAdd 0 p1) p2) (jsMul q 40) \<le> fl 100"
    unfolding jsAdd_def [of "jsAdd (jsAdd 0 p1) p2"] using s2 s3 by (intro fl_mono) simp
  then show ?thesis by (simp add: s fl_numeral)
qed

lemma matchingRowNames_identical:
  assumes "distinct es" "set es = set ks" "inj_on normalizeRowName (set es)"
  shows "matchingRowNames es ks = length es"
proof -
  have "set (map normalizeRowName es) = normalizeRowName ` set es" by (rule set_map)
  also have "\<dots> = normalizeRowName ` set ks" by (simp only: assms(2))
  also have "\<dots> = set (map normalizeRowName ks)" by (rule set_map [symmetric])
  finally have sub: "set (remdups (map normalizeRowName es)) \<subseteq> set (remdups (map normalizeRowName ks))"
    by (simp only: set_remdups subset_refl)
  have "filter (\<lambda>r. r \<in> set (remdups (map normalizeRowName ks))) (remdups (map normalizeRowName es))
        = remdups (map normalizeRowName es)"
    using sub by (intro filter_True) auto
  then have "matchingRowNames es ks = length (remdups (map normalizeRowName es))"
    by (simp only: matchingRowNames_def Let_def)
  also have "\<dots> = card (normalizeRowName ` set es)"
    by (simp only: length_remdups_card_conv set_map)
  also have "\<dots> = card (set es)" by (rule card_image [OF assms(3)])
  also have "\<dots> = length es" using assms(1) by (rule distinct_card)
  finally show ?thesis .
qed

lemma identical_score:
  assumes "er \<noteq> []" "distinct (map fst er)" "distinct (map fst (rows c))"
    "set (map fst er) = set (map fst (rows c))"
    "inj_on normalizeRowName (set (map fst er))"
    "ebiletTotalSeats er = real_of_int (total (totals c))"
  shows "sectorScore er c = 100 \<and> length er = length (rows c)"
proof -
  have len: "length er = length (rows c)"
    using assms(2-4) by (metis distinct_card length_map)
  have rp: "rowCountPoints (int (length (map fst er))) (int (length (map fst (rows c)))) = 30"
    by (simp add: rowCountPoints_def len)
  have sp: "seatCountPoints (ebiletTotalSeats er) (real_of_int (total (totals c))) = 30"
    by (simp add: seatCountPoints_def assms(6))
  have k: "matchingRowNames (map fst er) (map fst (rows c)) = length (map fst er)"
    by (rule matchingRowNames_identical [OF assms(2) assms(4) assms(5)])
  have pos: "max (int (length (map fst er))) 1 = int (length (map fst er))"
    using assms(1) by (cases er) auto
  have "real (length (map fst er)) / real_of_int (int (length (map fst er))) = 1"
    using assms(1) by simp
  then have "real (matchingRowNames (map fst er) (map fst (rows c)))
                   / real_of_int (max (int (length (map fst er))) 1) = 1"
    by (simp only: k pos)
  then have np: "rowNameMatchRatio (map fst er) (map fst (rows c)) = 1"
    by (simp only: rowNameMatchRatio_def jsDiv_def fl_1)
  have "sectorScore er c = jsAdd (jsAdd (jsAdd 0 30) 30) (jsMul 1 40)"
    unfolding sectorScore_def Let_def by (simp only: rp sp np)
  also have "\<dots> = 100" by (simp add: jsAdd_def jsMul_def fl_numeral)
  finally show ?thesis using len by simp
qed

text \<open>
  C5 (as amended). A vendor sector with at least one row, whose row labels are made of
  ASCII characters and Polish letters and are normalized to pairwise different names, and
  a canonical sector with the same row labels and the same total seat count score exactly
  100; if that canonical sector is a candidate that is not claimed yet, the vendor sector
  is matched to a candidate of score 100. In general a returned match is an eligible
  candidate of the highest score among the eligible candidates, and that score is at
  least 50; no match is returned exactly when every eligible candidate scores below 50.
  The score is the one that the code computes, in double-precision arithmetic.
\<close>

theorem sector_score_threshold:
  "(ebiletRows \<noteq> [] \<and> distinct (map fst ebiletRows) \<and> distinct (map fst (rows c))
      \<and> set (map fst ebiletRows) = set (map fst (rows c))
      \<and> list_all (list_all plainUnit) (map fst ebiletRows)
      \<and> inj_on normalizeRowName (set (map fst ebiletRows))
      \<and> ebiletTotalSeats ebiletRows = real_of_int (total (totals c))
    \<longrightarrow> sectorScore ebiletRows c = 100
        \<and> (c \<in> set kb \<and> sectorName c \<notin> ms \<longrightarrow>
             (\<exists>s\<in>set kb. fst (matchSectorByStructure ebiletRows kb ms) = Some s
                \<and> sectorScore ebiletRows s = 100)))
   \<and> (\<forall>s. fst (matchSectorByStructure ebiletRows kb ms) = Some s \<longrightarrow>
         s \<in> set kb \<and> eligible ebiletRows ms s \<and> 50 \<le> sectorScore ebiletRows s
         \<and> (\<forall>c'\<in>set kb. eligible ebiletRows ms c' \<longrightarrow>
               sectorScore ebiletRows c' \<le> sectorScore ebiletRows s))
   \<and> ((\<forall>c'\<in>set kb. eligible ebiletRows ms c' \<longrightarrow> sectorScore ebiletRows c' < 50)
        \<longleftrightarrow> fst (matchSectorByStructure ebiletRows kb ms) = None)"
proof -
  obtain m ms' where mm: "matchSectorByStructure ebiletRows kb ms = (m, ms')"
    by (cases "matchSectorByStructure ebiletRows kb ms")
  have some: "s \<in> set kb \<and> eligible ebiletRows ms s \<and> 50 \<le> sectorScore ebiletRows s
         \<and> (\<forall>c'\<in>set kb. eligible ebiletRows ms c' \<longrightarrow>
               sectorScore ebiletRows c' \<le> sectorScore ebiletRows s)"
    if "m = Some s" for s
    using match_Some [of ebiletRows kb ms s ms'] mm that by simp
  have none: "\<forall>c'\<in>set kb. eligible ebiletRows ms c' \<longrightarrow> sectorScore ebiletRows c' < 50"
    if "m = None"
    using match_None [of ebiletRows kb ms ms'] mm that by simp
  have part1: "sectorScore ebiletRows c = 100
        \<and> (c \<in> set kb \<and> sectorName c \<notin> ms \<longrightarrow>
             (\<exists>s\<in>set kb. fst (matchSectorByStructure ebiletRows kb ms) = Some s
                \<and> sectorScore ebiletRows s = 100))"
    if h: "ebiletRows \<noteq> [] \<and> distinct (map fst ebiletRows) \<and> distinct (map fst (rows c))
      \<and> set (map fst ebiletRows) = set (map fst (rows c))
      \<and> list_all (list_all plainUnit) (map fst ebiletRows)
      \<and> inj_on normalizeRowName (set (map fst ebiletRows))
      \<and> ebiletTotalSeats ebiletRows = real_of_int (total (totals c))"
  proof -
    from h identical_score [of ebiletRows c]
    have sc: "sectorScore ebiletRows c = 100" and len: "length ebiletRows = length (rows c)"
      by auto
    have "\<exists>s\<in>set kb. fst (matchSectorByStructure ebiletRows kb ms) = Some s
                \<and> sectorScore ebiletRows s = 100"
      if c: "c \<in> set kb" "sectorName c \<notin> ms"
    proof -
      have el: "eligible ebiletRows ms c"
        using c len by (simp add: eligible_def relDiff_def)
      show ?thesis
      proof (cases m)
        case None
        from none [OF this] el c sc show ?thesis by auto
      next
        case (Some s)
        from some [OF this] el c sc have "s \<in> set kb" "100 \<le> sectorScore ebiletRows s" by auto
        then show ?thesis using sectorScore_le_100 [of ebiletRows s] Some mm by auto
      qed
    qed
    then show ?thesis using sc by blast
  qed
  have part3: "(\<forall>c'\<in>set kb. eligible ebiletRows ms c' \<longrightarrow> sectorScore ebiletRows c' < 50)
        \<longleftrightarrow> fst (matchSectorByStructure ebiletRows kb ms) = None"
  proof (cases m)
    case None then show ?thesis using none mm by simp
  next
    case (Some s)
    from some [OF this] have "s \<in> set kb" "eligible ebiletRows ms s" "50 \<le> sectorScore ebiletRows s"
      by auto
    then have "\<not> (\<forall>c'\<in>set kb. eligible ebiletRows ms c' \<longrightarrow> sectorScore ebiletRows c' < 50)"
      by (metis not_less)
    then show ?thesis using Some mm by simp
  qed
  have part2: "\<forall>s. fst (matchSectorByStructure ebiletRows kb ms) = Some s \<longrightarrow>
         s \<in> set kb \<and> eligible ebiletRows ms s \<and> 50 \<le> sectorScore ebiletRows s
         \<and> (\<forall>c'\<in>set kb. eligible ebiletRows ms c' \<longrightarrow>
               sectorScore ebiletRows c' \<le> sectorScore ebiletRows s)"
    using some mm by simp
  show ?thesis using part1 part2 part3 by blast
qed

lemma normalize_7: "normalizeRowName (str ''7'') = str ''7''"
  by (rule normalize_digits) (simp_all add: str_def isDigit_def)

lemma score_lowRows: "sectorScore lowRows sectorA = 30"
proof -
  have "str ''7'' \<noteq> str ''1''" by (simp add: str_def)
  then show ?thesis
    by (simp add: score_defs lowRows_def rowsA_def sectorA_def oneSeat_def normalize_1 normalize_7
        fl_numeral fl_1 fl_values)
qed

theorem sector_score_threshold_witness:
  "rowsA \<noteq> [] \<and> distinct (map fst rowsA) \<and> distinct (map fst (rows sectorA))
   \<and> set (map fst rowsA) = set (map fst (rows sectorA))
   \<and> list_all (list_all plainUnit) (map fst rowsA)
   \<and> inj_on normalizeRowName (set (map fst rowsA))
   \<and> ebiletTotalSeats rowsA = real_of_int (total (totals sectorA))
   \<and> sectorScore rowsA sectorA = 100
   \<and> sectorA \<in> set [sectorA, sectorB] \<and> sectorName sectorA \<notin> {}
   \<and> fst (matchSectorByStructure rowsA [sectorA, sectorB] {}) = Some sectorA
   \<and> eligible rowsA {} sectorA
   \<and> eligible lowRows {} sectorA \<and> sectorScore lowRows sectorA < 50
   \<and> fst (matchSectorByStructure lowRows [sectorA] {}) = None"
proof -
  have h: "rowsA \<noteq> [] \<and> distinct (map fst rowsA) \<and> distinct (map fst (rows sectorA))
   \<and> set (map fst rowsA) = set (map fst (rows sectorA))
   \<and> list_all (list_all plainUnit) (map fst rowsA)
   \<and> inj_on normalizeRowName (set (map fst rowsA))
   \<and> ebiletTotalSeats rowsA = real_of_int (total (totals sectorA))"
    by (simp add: rowsA_def sectorA_def oneSeat_def ebiletTotalSeats_def jsAdd_def fl_1
        str_def plainUnit_def)
  have m: "fst (matchSectorByStructure rowsA [sectorA, sectorB] {}) = Some sectorA"
    by (simp add: match_A)
  have e: "eligible lowRows {} sectorA"
    by (simp add: eligible_def lowRows_def sectorA_def rowsA_def relDiff_def)
  have l: "\<forall>c'\<in>set [sectorA]. eligible lowRows {} c' \<longrightarrow> sectorScore lowRows c' < 50"
    by (simp add: score_lowRows)
  have l': "sectorScore lowRows sectorA < 50" by (simp add: score_lowRows)
  show ?thesis
    using h m e l l'
      sector_score_threshold [of rowsA sectorA "[sectorA, sectorB]" "{}"]
      sector_score_threshold [of lowRows sectorA "[sectorA]" "{}"]
    by auto
qed

text \<open>
  The three parts of the score of the two sectors of 14 rows add up to exactly 50 in the
  reals. In doubles the sum is \<open>7036874417766399 / 2^47\<close>, the double next below 50
  (printed as 49.99999999999999), and no match is returned.
\<close>

lemma close_names: "matchingRowNames (map fst closeRows) (map fst (rows closeSector)) = 1"
proof -
  have n: "map normalizeRowName (map fst closeRows) = map fst closeRows"
    "map normalizeRowName (map fst (rows closeSector)) = map fst (rows closeSector)"
    by (simp_all add: closeRows_def closeSector_def closeSectorNames_def normalize_digits
          str_def isDigit_def)
  show ?thesis
    unfolding matchingRowNames_def n
    by (simp add: closeRows_def closeSector_def closeSectorNames_def str_def)
qed

lemma close_total: "ebiletTotalSeats closeRows = 32"
  by (simp add: ebiletTotalSeats_def closeRows_def twoSeats_def jsAdd_def fl_numeral)

lemma close_lengths: "length closeRows = 14" "length (rows closeSector) = 14"
  by (simp_all add: closeRows_def closeSector_def closeSectorNames_def)

lemma close_seatDiffPercent: "seatDiffPercent 32 35 = 3088182601625483 / 2 ^ 55"
proof -
  have "jsSub 32 35 = - 3" using fl_int [of "- 3"] by (simp add: jsSub_def)
  moreover have "fl (3 / 35) = 3088182601625483 / 2 ^ 55"
    using fl_eval_round [of "3 / 35" "- 4" 6176365203250966]
    by (simp add: power_int_minus roundEven_def)
  ultimately show ?thesis by (simp add: seatDiffPercent_def jsDiv_def)
qed

lemma close_seatCountPoints: "seatCountPoints 32 35 = 4825285315039817 / 2 ^ 48"
proof -
  have y: "jsMul (3088182601625483 / 2 ^ 55) 150 = 3618963986279863 / 2 ^ 48"
    unfolding jsMul_def
    using fl_eval_round [of "3088182601625483 / 2 ^ 55 * 150" 3 7237927972559726]
    by (simp add: power_int_minus roundEven_def)
  have z: "jsSub 30 (3618963986279863 / 2 ^ 48) = 4825285315039817 / 2 ^ 48"
    unfolding jsSub_def
    using fl_eval_round [of "30 - 3618963986279863 / 2 ^ 48" 4 4825285315039817]
    by (simp add: power_int_minus roundEven_def)
  show ?thesis unfolding seatCountPoints_def close_seatDiffPercent y z by simp
qed

lemma close_ratio: "rowNameMatchRatio (map fst closeRows) (map fst (rows closeSector)) = 2573485501354569 / 2 ^ 55"
proof -
  have "fl (1 / 14) = 2573485501354569 / 2 ^ 55"
    using fl_eval_round [of "1 / 14" "- 4" 5146971002709138]
    by (simp add: power_int_minus roundEven_def)
  then show ?thesis
    using close_lengths by (simp add: rowNameMatchRatio_def close_names jsDiv_def)
qed

lemma close_score: "sectorScore closeRows closeSector = 7036874417766399 / 2 ^ 47"
proof -
  have p1: "rowCountPoints (int (length (map fst closeRows))) (int (length (map fst (rows closeSector)))) = 30"
    using close_lengths by (simp add: rowCountPoints_def)
  have s1: "jsAdd 0 30 = 30" by (simp add: jsAdd_def fl_numeral)
  have s2: "jsAdd 30 (4825285315039817 / 2 ^ 48) = 1658691827044937 / 2 ^ 45"
    unfolding jsAdd_def
    using fl_eval_round [of "30 + 4825285315039817 / 2 ^ 48" 5 6634767308179748]
    by (simp add: power_int_minus roundEven_def)
  have w: "jsMul (2573485501354569 / 2 ^ 55) 40 = 3216856876693211 / 2 ^ 50"
    unfolding jsMul_def
    using fl_eval_round [of "2573485501354569 / 2 ^ 55 * 40" 1 6433713753386422]
    by (simp add: power_int_minus roundEven_def)
  have s3: "jsAdd (1658691827044937 / 2 ^ 45) (3216856876693211 / 2 ^ 50) = 7036874417766399 / 2 ^ 47"
    unfolding jsAdd_def
    using fl_eval_round [of "1658691827044937 / 2 ^ 45 + 3216856876693211 / 2 ^ 50" 5 7036874417766399]
    by (simp add: power_int_minus roundEven_def)
  have t: "real_of_int (total (totals closeSector)) = 35" by (simp add: closeSector_def)
  show ?thesis
    unfolding sectorScore_def Let_def p1 close_total t close_seatCountPoints close_ratio s1 s2 w s3 ..
qed

lemma threshold_rounding:
  "30 + (30 - relDiff 32 35 * 150) + real 1 / real 14 * 40 = 50
   \<and> sectorScore closeRows closeSector < 50
   \<and> eligible closeRows {} closeSector
   \<and> fst (matchSectorByStructure closeRows [closeSector] {}) = None"
proof -
  have e: "eligible closeRows {} closeSector"
    using close_lengths by (simp add: eligible_def relDiff_def)
  have s: "sectorScore closeRows closeSector < 50" by (simp add: close_score)
  have "fst (matchSectorByStructure closeRows [closeSector] {}) = None"
    using s by (simp add: matchSectorByStructure_def)
  then show ?thesis using e s by (simp add: relDiff_def)
qed


lemma normalize_I: "normalizeRowName (str ''I'') = str ''1''"
proof -
  have t: "toUpperCase (trim (str ''I'')) = str ''I''" by (simp add: string_eval)
  have r: "map_of ROMAN_MAP (str ''I'') = Some 1" by (simp add: string_eval)
  have "numToString 1 = [49]" by (simp add: numToString.simps)
  then have n: "numToString 1 = str ''1''" by (simp add: str_def)
  show ?thesis unfolding normalizeRowName_def t Let_def r by (simp only: option.case n)
qed

text \<open>
  C5 as stated fails: the rows "1" and "I" are both normalized to "1", and a vendor sector
  and a canonical sector that both have exactly these two rows and two seats score 80.
\<close>

theorem identical_sectors_score_80:
  "mixedRows \<noteq> [] \<and> distinct (map fst mixedRows)
   \<and> set (map fst mixedRows) = set (map fst (rows mixedSector))
   \<and> list_all (list_all plainUnit) (map fst mixedRows)
   \<and> ebiletTotalSeats mixedRows = real_of_int (total (totals mixedSector))
   \<and> sectorScore mixedRows mixedSector = 80
   \<and> sectorScore mixedRows mixedSector \<noteq> 100"
proof -
  have d: "str ''1'' \<noteq> str ''I''" by (simp add: str_def)
  have s: "sectorScore mixedRows mixedSector = 80"
    by (simp add: score_defs mixedRows_def mixedSector_def oneSeat_def normalize_1 normalize_I
        fl_numeral fl_1 fl_values)
  have t: "ebiletTotalSeats mixedRows = real_of_int (total (totals mixedSector))"
    by (simp add: ebiletTotalSeats_def jsAdd_def mixedRows_def mixedSector_def oneSeat_def
        fl_numeral fl_1)
  have p: "list_all (list_all plainUnit) (map fst mixedRows)"
    by (simp add: mixedRows_def str_def plainUnit_def)
  show ?thesis using d s t p by (simp add: mixedRows_def mixedSector_def oneSeat_def)
qed

subsection \<open>Seat history\<close>

lemma map_of_assign: "map_of (assign h k v) k' = (if k' = k then Some v else map_of h k')"
  by (induction h) auto

lemma keys_assign: "fst ` set (assign h k v) = insert k (fst ` set h)"
proof (induction h)
  case Nil show ?case by simp
next
  case (Cons a h)
  obtain a1 b1 where a: "a = (a1, b1)" by (cases a)
  show ?case by (cases "a1 = k") (simp_all add: a Cons.IH insert_commute)
qed

lemma distinct_assign: "distinct (map fst h) \<Longrightarrow> distinct (map fst (assign h k v))"
proof (induction h)
  case Nil then show ?case by simp
next
  case (Cons a h)
  then show ?case using keys_assign [of h k v] by (cases a) auto
qed

lemma assignAll_simps [simp]:
  "assignAll h [] = h"
  "assignAll h ((k, v) # ws) = assignAll (assign h k v) ws"
  "assignAll h (ws @ ws') = assignAll (assignAll h ws) ws'"
  by (simp_all add: assignAll_def)

lemma map_of_assignAll:
  "map_of (assignAll h ws) k = (case map_of (rev ws) k of Some v \<Rightarrow> Some v | None \<Rightarrow> map_of h k)"
proof (induction ws arbitrary: h)
  case Nil show ?case by simp
next
  case (Cons w ws)
  obtain k' v' where w: "w = (k', v')" by (cases w)
  show ?case
    unfolding w assignAll_simps Cons.IH
    by (simp add: map_of_assign map_add_def split: option.splits)
qed

lemma distinct_assignAll: "distinct (map fst h) \<Longrightarrow> distinct (map fst (assignAll h ws))"
proof (induction ws arbitrary: h)
  case Nil then show ?case by simp
next
  case (Cons w ws)
  then show ?case by (cases w) (simp add: distinct_assign)
qed

lemma freeSeatLoop_run:
  "freeSeatLoop src name seats run =
     run \<lparr> currentFreeKeys := currentFreeKeys run \<union> fst ` set (seatReports src name seats),
           history := assignAll (history run) (seatReports src name seats) \<rparr>"
proof (induction seats arbitrary: run)
  case Nil show ?case by (simp add: seatReports_def)
next
  case (Cons s seats)
  show ?case
    by (simp add: Cons.IH Let_def) (simp add: seatReports_def)
qed

lemma sectorLoop_run:
  "sectorLoop src sectorList run =
     run \<lparr> knownSectors := knownSectors run \<union> set (map sectorName sectorList),
           currentFreeKeys := currentFreeKeys run \<union> fst ` set (sectorReports src sectorList),
           history := assignAll (history run) (sectorReports src sectorList) \<rparr>"
proof (induction sectorList arbitrary: run)
  case Nil show ?case by (simp add: sectorReports_def)
next
  case (Cons s sectorList)
  show ?case
    by (simp add: Cons.IH freeSeatLoop_run sectorReports_def Un_assoc image_Un insert_commute)
qed

lemma freeReports_Cons:
  "freeReports ((src, d) # rest) =
     (case sectors d of None \<Rightarrow> [] | Some sectorList \<Rightarrow> sectorReports src sectorList) @ freeReports rest"
  by (simp add: freeReports_def sectorReports_def seatReports_def split: option.splits)

lemma scrapedSectors_Cons:
  "scrapedSectors ((src, d) # rest) =
     (case sectors d of None \<Rightarrow> {} | Some sectorList \<Rightarrow> set (map sectorName sectorList))
     \<union> scrapedSectors rest"
  by (simp add: scrapedSectors_def split: option.splits)

lemma updateHistory_run:
  "updateHistory results run =
     run \<lparr> knownSectors := knownSectors run \<union> scrapedSectors results,
           currentFreeKeys := currentFreeKeys run \<union> fst ` set (freeReports results),
           history := assignAll (history run) (freeReports results) \<rparr>"
proof (induction results arbitrary: run)
  case Nil show ?case by (simp add: freeReports_def scrapedSectors_def)
next
  case (Cons r results)
  obtain src d where r: "r = (src, d)" by (cases r)
  show ?case
  proof (cases "sectors d")
    case None
    then show ?thesis by (simp add: r Cons.IH freeReports_Cons scrapedSectors_Cons)
  next
    case (Some sectorList)
    then show ?thesis
      by (simp add: r Cons.IH sectorLoop_run freeReports_Cons scrapedSectors_Cons Un_assoc image_Un)
  qed
qed

lemma map_of_inferSoldLoop:
  assumes "distinct (map fst es)"
  shows "map_of (inferSoldLoop es known freeKeys acc) k =
     (case map_of es k of
        Some v \<Rightarrow> if keySector k \<in> known \<and> k \<notin> freeKeys then Some v else map_of acc k
      | None \<Rightarrow> map_of acc k)"
  using assms
proof (induction es arbitrary: acc k)
  case Nil show ?case by simp
next
  case (Cons e es)
  obtain k' v' where e: "e = (k', v')" by (cases e)
  from Cons.prems have d: "distinct (map fst es)" and n: "map_of es k' = None"
    by (auto simp: e map_of_eq_None_iff)
  show ?case
    unfolding e using n
    by (auto simp: Cons.IH [OF d] map_of_assign split: option.splits)
qed

lemma historyMode_saved:
  "snd (historyMode results loaded) = assignAll loaded (freeReports results)"
  by (simp add: historyMode_def Let_def updateHistory_run)

lemma historyMode_inferred:
  assumes "distinct (map fst loaded)"
  shows "map_of (fst (historyMode results loaded)) k =
     (if keySector k \<in> scrapedSectors results \<and> k \<notin> fst ` set (freeReports results)
      then map_of (snd (historyMode results loaded)) k else None)"
proof -
  have d: "distinct (map fst (assignAll loaded (freeReports results)))"
    by (rule distinct_assignAll [OF assms])
  show ?thesis
    by (simp add: historyMode_def Let_def updateHistory_run map_of_inferSoldLoop [OF d]
          split: option.splits)
qed

lemma split_1_1: "split hyphen (str ''1-1'') = [str ''1'', str ''1'']"
  "split hyphen (str ''2-1'') = [str ''2'', str ''1'']"
  by (simp_all add: str_def)

lemma normalizeSeatKey_1_1: "normalizeSeatKey (str ''1-1'') = str ''1-1''"
  "normalizeSeatKey (str ''2-1'') = str ''2-1''"
  unfolding normalizeSeatKey_def split_1_1
  by (simp_all add: normalize_1 normalize_2) (simp_all add: str_def)

lemma split_nonempty: "split sep s \<noteq> []"
  by (induction s) (auto split: list.splits)

lemma split_no_sep: "sep \<notin> set name \<Longrightarrow> split sep (name @ sep # rest) = name # split sep rest"
  by (induction name) (auto split: list.splits)

lemma keySector_written: "colon \<notin> set name \<Longrightarrow> keySector (name @ [colon] @ seatKey) = name"
  by (simp add: keySector_def split_no_sep)

text \<open>
  The inferred-sold map, for keys read the way the loop reads them: it holds the saved
  history entries whose text before the first colon is the name of a sector scraped in
  this run and that are not keys of free seats of this run.
\<close>

lemma inferred_sold_by_key_prefix:
  assumes "distinct (map fst loaded)"
  shows "map_of (fst (historyMode results loaded)) k =
     (if keySector k \<in> scrapedSectors results \<and> k \<notin> fst ` set (freeReports results)
      then map_of (snd (historyMode results loaded)) k else None)"
  by (rule historyMode_inferred [OF assms])

text \<open>
  A sector whose name has no colon and that is not scraped in this run contributes no
  inferred-sold entry.
\<close>

lemma unscraped_sector_without_colon:
  assumes "distinct (map fst loaded)" "colon \<notin> set name" "name \<notin> scrapedSectors results"
  shows "map_of (fst (historyMode results loaded)) (name @ [colon] @ seatKey) = None"
  using keySector_written [OF assms(2), of seatKey] assms(3)
  by (simp add: historyMode_inferred [OF assms(1)])

text \<open>
  C1, on a sector whose name contains a colon. In a first request KupBilecik reports
  sector "A:B" with seat 1-1 free, and the key "A:B:1-1" is saved. In a second request
  only sector "A" is scraped: the key "A:B:1-1" is read as a key of sector "A" and becomes
  inferred-sold, although its sector "A:B" was not scraped. If instead sector "A:B" is
  scraped in the second request and seat 1-1 is no longer free, the key is not
  inferred-sold, because "A" is not a scraped sector.
\<close>

theorem inferred_sold_colon_sector:
  "snd (historyMode (kupbilecikOnly [sectorColon]) []) = [(str ''A:B:1-1'', kupbilecik)]
   \<and> scrapedSectors (kupbilecikOnly [sectorA]) = {str ''A''}
   \<and> fst (historyMode (kupbilecikOnly [sectorA]) (snd (historyMode (kupbilecikOnly [sectorColon]) [])))
       = [(str ''A:B:1-1'', kupbilecik)]
   \<and> scrapedSectors (kupbilecikOnly [sectorColonSold]) = {str ''A:B''}
   \<and> freeReports (kupbilecikOnly [sectorColonSold]) = []
   \<and> fst (historyMode (kupbilecikOnly [sectorColonSold])
            (snd (historyMode (kupbilecikOnly [sectorColon]) []))) = []"
proof -
  have k: "keySector (str ''A:B:1-1'') = str ''A''" "keySector (str ''A:1-1'') = str ''A''"
    by (simp_all add: keySector_def str_def)
  have n: "str ''A'' \<noteq> str ''A:B''" "str ''A:B:1-1'' \<noteq> str ''A:1-1''"
    by (simp_all add: str_def)
  have w: "str ''A:B'' @ colon # str ''1-1'' = str ''A:B:1-1''"
          "str ''A'' @ colon # str ''1-1'' = str ''A:1-1''"
    by (simp_all add: str_def)
  have s1: "snd (historyMode (kupbilecikOnly [sectorColon]) []) = [(str ''A:B:1-1'', kupbilecik)]"
    by (simp add: historyMode_def kupbilecikOnly_def sectorColon_def Let_def normalizeSeatKey_1_1 w)
  have s2: "fst (historyMode (kupbilecikOnly [sectorA]) [(str ''A:B:1-1'', kupbilecik)])
       = [(str ''A:B:1-1'', kupbilecik)]"
    using n by (simp add: historyMode_def kupbilecikOnly_def sectorA_def Let_def normalizeSeatKey_1_1 w k)
  have s3: "fst (historyMode (kupbilecikOnly [sectorColonSold]) [(str ''A:B:1-1'', kupbilecik)]) = []"
    using n by (simp add: historyMode_def kupbilecikOnly_def sectorColonSold_def Let_def k)
  have s4: "scrapedSectors (kupbilecikOnly [sectorA]) = {str ''A''}"
    "scrapedSectors (kupbilecikOnly [sectorColonSold]) = {str ''A:B''}"
    "freeReports (kupbilecikOnly [sectorColonSold]) = []"
    by (simp_all add: scrapedSectors_def freeReports_def kupbilecikOnly_def sectorA_def sectorColonSold_def)
  show ?thesis by (simp add: s1 s2 s3 s4)
qed

text \<open>
  C6 (as amended). After a request, for every free seat in a sector list of a vendor
  result of that request, the saved history maps the key "sectorName:normalizedSeatKey" to
  a vendor whose sector list reports a seat with that key free in this request: the last
  such vendor in the order of processing. Keys that no sector list reports free keep the
  vendor of the loaded history.
\<close>

theorem history_records_free_seats:
  "(\<forall>(k, v)\<in>set (freeReports results).
       \<exists>v'. map_of (snd (historyMode results loaded)) k = Some v'
             \<and> (k, v') \<in> set (freeReports results))
   \<and> (\<forall>k. map_of (snd (historyMode results loaded)) k =
          (case map_of (rev (freeReports results)) k of
             Some v \<Rightarrow> Some v
           | None \<Rightarrow> map_of loaded k))"
proof -
  have b: "map_of (snd (historyMode results loaded)) k =
          (case map_of (rev (freeReports results)) k of
             Some v \<Rightarrow> Some v
           | None \<Rightarrow> map_of loaded k)" for k
    by (simp add: historyMode_saved map_of_assignAll)
  have a: "\<exists>v'. map_of (snd (historyMode results loaded)) k = Some v'
             \<and> (k, v') \<in> set (freeReports results)"
    if "(k, v) \<in> set (freeReports results)" for k v
  proof -
    from that have "k \<in> fst ` set (rev (freeReports results))" by force
    then obtain v' where v': "map_of (rev (freeReports results)) k = Some v'"
      by (metis map_of_eq_None_iff not_Some_eq)
    then have "(k, v') \<in> set (freeReports results)" using map_of_SomeD by fastforce
    then show ?thesis using b [of k] v' by simp
  qed
  show ?thesis using a b by blast
qed

lemma freeReports_twoVendor:
  "freeReports twoVendorResults =
     [(str ''A:1-1'', kupbilecik), (str ''B:1-1'', kupbilecik), (str ''B:2-1'', kupbilecik),
      (str ''A:1-1'', biletyna), (str ''B:1-1'', biletyna), (str ''B:2-1'', biletyna)]"
  by (simp add: freeReports_def twoVendorResults_def sectorA_def sectorB_def normalizeSeatKey_1_1)
     (simp add: str_def)

theorem history_records_free_seats_witness:
  "(str ''A:1-1'', kupbilecik) \<in> set (freeReports twoVendorResults)
   \<and> (str ''A:1-1'', biletyna) \<in> set (freeReports twoVendorResults)
   \<and> map_of (snd (historyMode twoVendorResults [])) (str ''A:1-1'') = Some biletyna"
proof -
  have "map_of (rev (freeReports twoVendorResults)) (str ''A:1-1'') = Some biletyna"
    by (simp add: freeReports_twoVendor)
  then show ?thesis
    using history_records_free_seats [of twoVendorResults "[]"]
    by (simp add: freeReports_twoVendor)
qed

text \<open>
  The example without a sector list is the result that \<open>combineBiletynaSectors\<close> builds
  from one sector result.
\<close>

lemma single_sector_result:
  "combineBiletynaSectors [\<lparr> rows = rowsA, freeSeats = [str ''1-1''], takenSeats = [] \<rparr>] kb
     = Some (snd (hd singleSectorResults))"
  by (simp add: combineBiletynaSectors_def singleSectorResults_def seatTotals_def)

text \<open>
  C6 as stated fails: a vendor result without a sector list is skipped, so the free seat
  1-1 that Biletyna reports for a single-sector event is not written to the history.
\<close>

theorem history_skips_vendor_without_sectors:
  "sourceFreeSeats (snd (hd singleSectorResults)) = [str ''1-1'']
   \<and> snd (historyMode singleSectorResults []) = []"
  by (simp add: singleSectorResults_def historyMode_def Let_def)

subsection \<open>Seat colours of a canonical sector\<close>

lemma entries_assign: "set (assign h k v) \<subseteq> insert (k, v) (set h)"
  by (induction h) (auto split: if_splits)

lemma map_of_reports:
  "map_of (rev (map (\<lambda>x. (f x, c)) xs)) k = (if k \<in> f ` set xs then Some c else None)"
  by (induction xs) (auto simp: map_add_def split: option.splits)

lemma fst_kupbilecikFreeLoop:
  "fst (kupbilecikFreeLoop seats (ss, spr))
     = assignAll ss (map (\<lambda>seat. (page_normalizeSeatKey seat, kupbilecikOnlyStatus Free)) seats)"
  by (induction seats arbitrary: ss spr) (simp_all add: Let_def)

lemma fst_kupbilecikTakenLoop:
  "fst (kupbilecikTakenLoop seats (ss, spr))
     = assignAll ss (map (\<lambda>seat. (page_normalizeSeatKey seat, kupbilecikOnlyStatus Taken)) seats)"
  by (induction seats arbitrary: ss spr) (simp_all add: Let_def)

lemma layout_statuses:
  "map_of (fst (kupbilecikTakenLoop takenL (kupbilecikFreeLoop freeL ([], [])))) k =
     (if k \<in> page_normalizeSeatKey ` set takenL then Some (kupbilecikOnlyStatus Taken)
      else if k \<in> page_normalizeSeatKey ` set freeL then Some (kupbilecikOnlyStatus Free)
      else None)"
proof -
  obtain ss spr where l: "kupbilecikFreeLoop freeL ([], []) = (ss, spr)"
    by (cases "kupbilecikFreeLoop freeL ([], [])")
  have "ss = assignAll [] (map (\<lambda>seat. (page_normalizeSeatKey seat, kupbilecikOnlyStatus Free)) freeL)"
    using fst_kupbilecikFreeLoop [of freeL "[]" "[]"] l by simp
  then show ?thesis
    by (simp add: l fst_kupbilecikTakenLoop map_of_assignAll map_of_reports)
qed

lemma overlayLoop_statuses:
  "map_of (overlayLoop portal status seats ss) k =
     (case map_of ss k of
        None \<Rightarrow> None
      | Some st \<Rightarrow> Some (if k \<in> page_normalizeSeatKey ` set seats
                           then st(portal := Some status) else st))"
proof (induction seats arbitrary: ss)
  case Nil show ?case by (simp split: option.splits)
next
  case (Cons seat seats)
  show ?case
  proof (cases "map_of ss (page_normalizeSeatKey seat)")
    case None
    then show ?thesis by (auto simp: Cons.IH split: option.splits)
  next
    case (Some st)
    then show ?thesis by (auto simp: Cons.IH map_of_assign split: option.splits)
  qed
qed

lemma overlayPortal_statuses:
  "map_of (overlayPortal perSource name portal ss) k =
     (case map_of ss k of
        None \<Rightarrow> None
      | Some st \<Rightarrow>
          Some (case matchingSectorOf perSource portal name of
                  None \<Rightarrow> st
                | Some aligned \<Rightarrow>
                    if k \<in> page_normalizeSeatKey ` set (takenSeats aligned) then st(portal := Some Taken)
                    else if k \<in> page_normalizeSeatKey ` set (freeSeats aligned) then st(portal := Some Free)
                    else st))"
  by (auto simp: overlayPortal_def overlayLoop_statuses split: option.splits)

lemma final_statuses:
  fixes kbSector perSource
  defines "ss0 \<equiv> fst (kupbilecikTakenLoop (takenSeats kbSector)
                       (kupbilecikFreeLoop (freeSeats kbSector) ([], [])))"
  defines "ss \<equiv> overlayPortal perSource (sectorName kbSector) ebilet
                   (overlayPortal perSource (sectorName kbSector) biletyna ss0)"
  shows "(case map_of ss k of None \<Rightarrow> (\<lambda>portal. None) | Some st \<Rightarrow> st)
         = (\<lambda>portal. vendorStatus kbSector perSource portal k)"
proof (rule ext)
  fix portal
  show "(case map_of ss k of None \<Rightarrow> (\<lambda>portal. None) | Some st \<Rightarrow> st) portal
        = vendorStatus kbSector perSource portal k"
    unfolding ss_def ss0_def overlayPortal_statuses layout_statuses vendorStatus_def
    by (cases portal) (auto simp: kupbilecikOnlyStatus_def split: option.splits)
qed

lemma seatColor_resolveSeat:
  fixes kbSector perSource
  defines "ss0 \<equiv> fst (kupbilecikTakenLoop (takenSeats kbSector)
                       (kupbilecikFreeLoop (freeSeats kbSector) ([], [])))"
  defines "ss \<equiv> overlayPortal perSource (sectorName kbSector) ebilet
                   (overlayPortal perSource (sectorName kbSector) biletyna ss0)"
  shows "seatColor (sectorName kbSector) inferredSold ss k = resolveSeat kbSector perSource inferredSold k"
  unfolding seatColor_def resolveSeat_def Let_def
  using final_statuses [of perSource kbSector k]
  by (simp only: ss_def ss0_def)

lemma hasSeat_assign_keep:
  assumes "hasSeat spr r n" "r' \<noteq> r \<or> set (case map_of spr r of None \<Rightarrow> [] | Some l \<Rightarrow> l) \<subseteq> set names"
  shows "hasSeat (assign spr r' names) r n"
  using assms unfolding hasSeat_def by (auto simp: map_of_assign)

lemma snd_kupbilecikFreeLoop:
  "hasSeat spr r n \<or> (r, n) \<in> (\<lambda>s. (seatRow (page_normalizeSeatKey s), seatNameOf (page_normalizeSeatKey s))) ` set seats
   \<Longrightarrow> hasSeat (snd (kupbilecikFreeLoop seats (ss, spr))) r n"
proof (induction seats arbitrary: ss spr)
  case Nil then show ?case by simp
next
  case (Cons seat seats)
  define r' where "r' = seatRow (page_normalizeSeatKey seat)"
  define n' where "n' = seatNameOf (page_normalizeSeatKey seat)"
  define l where "l = (case map_of spr r' of None \<Rightarrow> [] | Some l \<Rightarrow> l)"
  have "hasSeat (assign spr r' (l @ [n'])) r n
        \<or> (r, n) \<in> (\<lambda>s. (seatRow (page_normalizeSeatKey s), seatNameOf (page_normalizeSeatKey s))) ` set seats"
  proof (cases "hasSeat spr r n")
    case True
    then have "hasSeat (assign spr r' (l @ [n'])) r n"
      by (rule hasSeat_assign_keep) (auto simp: l_def)
    then show ?thesis by simp
  next
    case False
    with Cons.prems have "(r, n) = (r', n')
       \<or> (r, n) \<in> (\<lambda>s. (seatRow (page_normalizeSeatKey s), seatNameOf (page_normalizeSeatKey s))) ` set seats"
      by (auto simp: r'_def n'_def)
    then show ?thesis by (auto simp: hasSeat_def map_of_assign)
  qed
  from Cons.IH [OF this] show ?case
    by (simp add: Let_def r'_def n'_def l_def)
qed

lemma snd_kupbilecikTakenLoop:
  "hasSeat spr r n \<or> (r, n) \<in> (\<lambda>s. (seatRow (page_normalizeSeatKey s), seatNameOf (page_normalizeSeatKey s))) ` set seats
   \<Longrightarrow> hasSeat (snd (kupbilecikTakenLoop seats (ss, spr))) r n"
proof (induction seats arbitrary: ss spr)
  case Nil then show ?case by simp
next
  case (Cons seat seats)
  define r' where "r' = seatRow (page_normalizeSeatKey seat)"
  define n' where "n' = seatNameOf (page_normalizeSeatKey seat)"
  define l where "l = (case map_of spr r' of None \<Rightarrow> [] | Some l \<Rightarrow> l)"
  define l' where "l' = (if n' \<in> set l then l else l @ [n'])"
  have "hasSeat (assign spr r' l') r n
        \<or> (r, n) \<in> (\<lambda>s. (seatRow (page_normalizeSeatKey s), seatNameOf (page_normalizeSeatKey s))) ` set seats"
  proof (cases "hasSeat spr r n")
    case True
    then have "hasSeat (assign spr r' l') r n"
      by (rule hasSeat_assign_keep) (auto simp: l_def l'_def)
    then show ?thesis by simp
  next
    case False
    with Cons.prems have "(r, n) = (r', n')
       \<or> (r, n) \<in> (\<lambda>s. (seatRow (page_normalizeSeatKey s), seatNameOf (page_normalizeSeatKey s))) ` set seats"
      by (auto simp: r'_def n'_def)
    then show ?thesis by (auto simp: hasSeat_def map_of_assign l'_def)
  qed
  from Cons.IH [OF this, of "assign ss (page_normalizeSeatKey seat) (kupbilecikOnlyStatus Taken)"]
  show ?case unfolding kupbilecikTakenLoop.simps Let_def r'_def n'_def l_def l'_def .
qed

lemma layout_seats:
  assumes "seat \<in> set (freeL @ takenL)"
  shows "hasSeat (snd (kupbilecikTakenLoop takenL (kupbilecikFreeLoop freeL ([], []))))
           (seatRow (page_normalizeSeatKey seat)) (seatNameOf (page_normalizeSeatKey seat))"
proof -
  obtain ss spr where l: "kupbilecikFreeLoop freeL ([], []) = (ss, spr)"
    by (cases "kupbilecikFreeLoop freeL ([], [])")
  have f: "seat \<in> set freeL \<Longrightarrow>
        hasSeat spr (seatRow (page_normalizeSeatKey seat)) (seatNameOf (page_normalizeSeatKey seat))"
    using snd_kupbilecikFreeLoop [of "[]" "seatRow (page_normalizeSeatKey seat)"
        "seatNameOf (page_normalizeSeatKey seat)" freeL "[]"] l by auto
  show ?thesis
    unfolding l
    by (rule snd_kupbilecikTakenLoop) (use assms f in auto)
qed

lemma colorSeatLoop_entries:
  "(k, c) \<in> set (colorSeatLoop name isold ss row names acc)
   \<Longrightarrow> (k, c) \<in> set acc \<or> c = seatColor name isold ss k"
proof (induction names arbitrary: acc)
  case Nil then show ?case by simp
next
  case (Cons n names)
  from Cons.IH [OF Cons.prems [simplified colorSeatLoop.simps Let_def]]
  show ?case using entries_assign [of acc "row @ [hyphen] @ n" "seatColor name isold ss (row @ [hyphen] @ n)"]
    by auto
qed

lemma colorRowLoop_entries:
  "(k, c) \<in> set (colorRowLoop name isold ss spr acc)
   \<Longrightarrow> (k, c) \<in> set acc \<or> c = seatColor name isold ss k"
proof (induction spr arbitrary: acc)
  case Nil then show ?case by simp
next
  case (Cons x spr)
  obtain row names where x: "x = (row, names)" by (cases x)
  from Cons.IH [OF Cons.prems [unfolded x colorRowLoop.simps]]
  show ?case using colorSeatLoop_entries [of k c name isold ss row names acc] by auto
qed

lemma colorSeatLoop_keys:
  "fst ` set (colorSeatLoop name isold ss row names acc)
     = fst ` set acc \<union> (\<lambda>n. row @ [hyphen] @ n) ` set names"
proof (induction names arbitrary: acc)
  case Nil show ?case by simp
next
  case (Cons n names)
  show ?case by (simp add: Cons.IH Let_def keys_assign)
qed

lemma colorRowLoop_keys:
  "fst ` set (colorRowLoop name isold ss spr acc)
     = fst ` set acc \<union> {row @ [hyphen] @ n | row names n. (row, names) \<in> set spr \<and> n \<in> set names}"
proof (induction spr arbitrary: acc)
  case Nil show ?case by simp
next
  case (Cons x spr)
  obtain row names where x: "x = (row, names)" by (cases x)
  show ?case unfolding x colorRowLoop.simps Cons.IH colorSeatLoop_keys by auto
qed

lemma split_parts_no_sep: "part \<in> set (split sep s) \<Longrightarrow> sep \<notin> set part"
proof (induction s arbitrary: part)
  case Nil then show ?case by simp
next
  case (Cons c s)
  then show ?case by (auto split: if_splits list.splits)
qed

lemma join_split: "join sep (split sep s) = s"
proof (induction s)
  case Nil show ?case by simp
next
  case (Cons c s)
  show ?case
  proof (cases "c = sep")
    case True
    then show ?thesis using Cons split_nonempty [of sep s]
      by (cases "split sep s") simp_all
  next
    case False
    obtain p ps where sp: "split sep s = p # ps"
      using split_nonempty [of sep s] by (cases "split sep s") auto
    show ?thesis using Cons False by (cases ps) (simp_all add: sp)
  qed
qed

lemma split_two: "sep \<in> set s \<Longrightarrow> \<exists>p q ps. split sep s = p # q # ps"
proof (induction s)
  case Nil then show ?case by simp
next
  case (Cons c s)
  show ?case
  proof (cases "c = sep")
    case True
    then show ?thesis using split_nonempty [of sep s] by (cases "split sep s") auto
  next
    case False
    with Cons obtain p q ps where "split sep s = p # q # ps" by auto
    then show ?thesis using False by simp
  qed
qed

lemma set_trim: "set (trim s) \<subseteq> set s"
  unfolding trim_def by (metis set_dropWhileD set_rev subsetI)

lemma numToString_no_hyphen: "hyphen \<notin> set (numToString k)"
  using numToString_digits [of k] by (auto simp: list_all_iff isDigit_def)

lemma page_normalizeRowName_no_hyphen:
  "hyphen \<notin> set p \<Longrightarrow> hyphen \<notin> set (page_normalizeRowName p)"
  using set_trim [of p] numToString_no_hyphen
  by (auto simp: page_normalizeRowName_def Let_def split: option.splits)

lemma seat_key_parts:
  assumes "hyphen \<in> set seat"
  shows "seatRow (page_normalizeSeatKey seat) @ [hyphen] @ seatNameOf (page_normalizeSeatKey seat)
         = page_normalizeSeatKey seat"
proof -
  from split_two [OF assms] obtain p q ps where sp: "split hyphen seat = p # q # ps" by blast
  have "hyphen \<notin> set p" using split_parts_no_sep [of p hyphen seat] sp by simp
  then have nh: "hyphen \<notin> set (page_normalizeRowName p)" by (rule page_normalizeRowName_no_hyphen)
  have n: "page_normalizeSeatKey seat = page_normalizeRowName p @ hyphen # join hyphen (q # ps)"
    by (simp add: page_normalizeSeatKey_def sp)
  have s: "split hyphen (page_normalizeSeatKey seat)
           = page_normalizeRowName p # split hyphen (join hyphen (q # ps))"
    unfolding n by (rule split_no_sep [OF nh])
  show ?thesis
    unfolding seatRow_def seatNameOf_def s by (simp add: join_split n)
qed

text \<open>
  C2. Every colour in the map of a canonical sector is the resolution of its seat: the
  free colour of the first vendor in the order Biletyna, eBilet, KupBilecik whose status
  for the seat is free, if there is one; otherwise the sold colour of the vendor that the
  inferred-sold map has for "sectorName:seatKey", if it has one; otherwise the no-data
  colour. Every seat "row-seat" of the canonical sector has a colour in the map, under its
  normalized key.
\<close>

theorem seat_colour_resolution:
  "(\<forall>k c. map_of (calculateSectorVisualizationWithBase seatNumber kbSector perSource inferredSold) k
             = Some c
          \<longrightarrow> c = resolveSeat kbSector perSource inferredSold k)
   \<and> (\<forall>seat\<in>set (freeSeats kbSector @ takenSeats kbSector). hyphen \<in> set seat \<longrightarrow>
         map_of (calculateSectorVisualizationWithBase seatNumber kbSector perSource inferredSold)
           (page_normalizeSeatKey seat)
         = Some (resolveSeat kbSector perSource inferredSold (page_normalizeSeatKey seat)))"
proof -
  define ss0 where "ss0 = fst (kupbilecikTakenLoop (takenSeats kbSector)
                       (kupbilecikFreeLoop (freeSeats kbSector) ([], [])))"
  define spr where "spr = snd (kupbilecikTakenLoop (takenSeats kbSector)
                       (kupbilecikFreeLoop (freeSeats kbSector) ([], [])))"
  define ss where "ss = overlayPortal perSource (sectorName kbSector) ebilet
                   (overlayPortal perSource (sectorName kbSector) biletyna ss0)"
  define sorted where "sorted = map (\<lambda>(row, seats). (row, sort_key seatNumber seats)) spr"
  define viz where "viz = calculateSectorVisualizationWithBase seatNumber kbSector perSource inferredSold"
  have viz: "viz = colorRowLoop (sectorName kbSector) inferredSold ss sorted []"
    unfolding viz_def calculateSectorVisualizationWithBase_def Let_def ss_def ss0_def sorted_def spr_def
    by (simp add: case_prod_beta)
  have col: "seatColor (sectorName kbSector) inferredSold ss k = resolveSeat kbSector perSource inferredSold k"
    for k unfolding ss_def ss0_def by (rule seatColor_resolveSeat)
  have a: "c = resolveSeat kbSector perSource inferredSold k" if "map_of viz k = Some c" for k c
  proof -
    from that have "(k, c) \<in> set viz" by (rule map_of_SomeD)
    from colorRowLoop_entries [OF this [unfolded viz]] col show ?thesis by simp
  qed
  have b: "map_of viz (page_normalizeSeatKey seat)
         = Some (resolveSeat kbSector perSource inferredSold (page_normalizeSeatKey seat))"
    if s: "seat \<in> set (freeSeats kbSector @ takenSeats kbSector)" and h: "hyphen \<in> set seat" for seat
  proof -
    define r where "r = seatRow (page_normalizeSeatKey seat)"
    define n where "n = seatNameOf (page_normalizeSeatKey seat)"
    from layout_seats [OF s] have "hasSeat spr r n" by (simp add: spr_def r_def n_def)
    then obtain names where nm: "map_of spr r = Some names" "n \<in> set names"
      unfolding hasSeat_def by blast
    then have "(r, names) \<in> set spr" by (simp add: map_of_SomeD)
    then have "(r, sort_key seatNumber names) \<in> set sorted" unfolding sorted_def by force
    moreover have "n \<in> set (sort_key seatNumber names)" using nm by simp
    ultimately have "r @ [hyphen] @ n \<in> fst ` set viz"
      unfolding viz colorRowLoop_keys by blast
    then have "page_normalizeSeatKey seat \<in> fst ` set viz"
      using seat_key_parts [OF h] by (simp add: r_def n_def)
    then obtain c where "map_of viz (page_normalizeSeatKey seat) = Some c"
      by (metis map_of_eq_None_iff not_Some_eq)
    then show ?thesis using a by simp
  qed
  show ?thesis using a b unfolding viz_def by blast
qed

lemma page_normalize_1: "page_normalizeRowName (str ''1'') = str ''1''"
proof -
  have t: "trim (toUpperCase (str ''1'')) = str ''1''" by (simp add: string_eval)
  have r: "map_of ROMAN_MAP (str ''1'') = None" by (simp add: string_eval)
  have l: "trim (str ''1'') = str ''1''" by (simp add: string_eval)
  show ?thesis unfolding page_normalizeRowName_def t Let_def r l by simp
qed

lemma page_seat_keys:
  "page_normalizeSeatKey (str ''1-1'') = str ''1-1''"
  "page_normalizeSeatKey (str ''1-2'') = str ''1-2''"
  "page_normalizeSeatKey (str ''1-3'') = str ''1-3''"
proof -
  have s: "split hyphen (str ''1-1'') = [str ''1'', str ''1'']"
          "split hyphen (str ''1-2'') = [str ''1'', str ''2'']"
          "split hyphen (str ''1-3'') = [str ''1'', str ''3'']"
    by (simp_all add: str_def)
  show "page_normalizeSeatKey (str ''1-1'') = str ''1-1''"
       "page_normalizeSeatKey (str ''1-2'') = str ''1-2''"
       "page_normalizeSeatKey (str ''1-3'') = str ''1-3''"
    unfolding page_normalizeSeatKey_def s
    by (simp_all add: page_normalize_1) (simp_all add: str_def)
qed

lemma example_keys_differ:
  "str ''1-1'' \<noteq> str ''1-2''" "str ''1-1'' \<noteq> str ''1-3''" "str ''1-2'' \<noteq> str ''1-3''"
  "str ''1-2'' \<noteq> str ''1-1''" "str ''1-3'' \<noteq> str ''1-1''" "str ''1-3'' \<noteq> str ''1-2''"
  by (simp_all add: str_def)

lemma example_matching:
  "matchingSectorOf examplePerSource biletyna (str ''A'') = Some overlaySector"
  "matchingSectorOf examplePerSource ebilet (str ''A'') = None"
  by (simp_all add: matchingSectorOf_def examplePerSource_def overlaySector_def)

lemma example_resolutions:
  "resolveSeat layoutSector examplePerSource (Some exampleInferredSold) (str ''1-1'') = kupbilecikFree"
  "resolveSeat layoutSector examplePerSource (Some exampleInferredSold) (str ''1-2'') = biletynaFree"
  "resolveSeat layoutSector examplePerSource (Some exampleInferredSold) (str ''1-3'') = ebiletSold"
proof -
  have n: "sectorName layoutSector = str ''A''" by (simp add: layoutSector_def)
  have k: "str ''A'' @ colon # str ''1-3'' = str ''A:1-3''" by (simp add: str_def)
  have v1: "vendorStatus layoutSector examplePerSource biletyna (str ''1-1'') = Some Taken"
           "vendorStatus layoutSector examplePerSource ebilet (str ''1-1'') = None"
           "vendorStatus layoutSector examplePerSource kupbilecik (str ''1-1'') = Some Free"
    using example_keys_differ
    by (simp_all add: vendorStatus_def n example_matching page_seat_keys)
       (simp_all add: layoutSector_def overlaySector_def page_seat_keys)
  have v2: "vendorStatus layoutSector examplePerSource biletyna (str ''1-2'') = Some Free"
    using example_keys_differ
    by (simp add: vendorStatus_def n example_matching page_seat_keys)
       (simp add: layoutSector_def overlaySector_def page_seat_keys)
  have v3: "vendorStatus layoutSector examplePerSource biletyna (str ''1-3'') = Some Taken"
           "vendorStatus layoutSector examplePerSource ebilet (str ''1-3'') = None"
           "vendorStatus layoutSector examplePerSource kupbilecik (str ''1-3'') = Some Taken"
    using example_keys_differ
    by (simp_all add: vendorStatus_def n example_matching page_seat_keys)
       (simp_all add: layoutSector_def overlaySector_def page_seat_keys)
  show "resolveSeat layoutSector examplePerSource (Some exampleInferredSold) (str ''1-1'') = kupbilecikFree"
    by (simp add: resolveSeat_def v1)
  show "resolveSeat layoutSector examplePerSource (Some exampleInferredSold) (str ''1-2'') = biletynaFree"
    by (simp add: resolveSeat_def v2)
  show "resolveSeat layoutSector examplePerSource (Some exampleInferredSold) (str ''1-3'') = ebiletSold"
    by (simp add: resolveSeat_def v3 n k exampleInferredSold_def)
qed

theorem seat_colour_resolution_witness:
  "str ''1-1'' \<in> set (freeSeats layoutSector @ takenSeats layoutSector) \<and> hyphen \<in> set (str ''1-1'')
   \<and> map_of (calculateSectorVisualizationWithBase (\<lambda>a. 0) layoutSector examplePerSource
               (Some exampleInferredSold)) (str ''1-1'') = Some kupbilecikFree
   \<and> str ''1-2'' \<in> set (freeSeats layoutSector @ takenSeats layoutSector) \<and> hyphen \<in> set (str ''1-2'')
   \<and> map_of (calculateSectorVisualizationWithBase (\<lambda>a. 0) layoutSector examplePerSource
               (Some exampleInferredSold)) (str ''1-2'') = Some biletynaFree
   \<and> str ''1-3'' \<in> set (freeSeats layoutSector @ takenSeats layoutSector) \<and> hyphen \<in> set (str ''1-3'')
   \<and> map_of (calculateSectorVisualizationWithBase (\<lambda>a. 0) layoutSector examplePerSource
               (Some exampleInferredSold)) (str ''1-3'') = Some ebiletSold"
proof -
  have m: "str ''1-1'' \<in> set (freeSeats layoutSector @ takenSeats layoutSector)"
          "str ''1-2'' \<in> set (freeSeats layoutSector @ takenSeats layoutSector)"
          "str ''1-3'' \<in> set (freeSeats layoutSector @ takenSeats layoutSector)"
    by (simp_all add: layoutSector_def)
  have h: "hyphen \<in> set (str ''1-1'')" "hyphen \<in> set (str ''1-2'')" "hyphen \<in> set (str ''1-3'')"
    by (simp_all add: str_def)
  from seat_colour_resolution [of "\<lambda>a. 0" layoutSector examplePerSource "Some exampleInferredSold"]
  have "\<forall>seat\<in>set (freeSeats layoutSector @ takenSeats layoutSector). hyphen \<in> set seat \<longrightarrow>
         map_of (calculateSectorVisualizationWithBase (\<lambda>a. 0) layoutSector examplePerSource
                   (Some exampleInferredSold)) (page_normalizeSeatKey seat)
         = Some (resolveSeat layoutSector examplePerSource (Some exampleInferredSold)
                   (page_normalizeSeatKey seat))"
    by (rule conjunct2)
  from this [rule_format, OF m(1) h(1)] this [rule_format, OF m(2) h(2)] this [rule_format, OF m(3) h(3)]
  show ?thesis using m h by (simp add: page_seat_keys example_resolutions)
qed

subsection \<open>Manual overrides\<close>

lemmas color_defs =
  biletynaFree_def biletynaSold_def ebiletFree_def ebiletSold_def kupbilecikFree_def
  kupbilecikSold_def noData_def notForSale_def otherSource_def boxOffice_def str_def

lemmas color_class_defs = isDarkColor_def isLightColor_def isSpecialColor_def isNoDataColor_def

lemma special_nonempty: "isSpecialColor ov \<Longrightarrow> ov \<noteq> []"
  by (auto simp: isSpecialColor_def color_defs)

lemma dark_nonempty: "isDarkColor ov \<Longrightarrow> ov \<noteq> []"
  by (auto simp: isDarkColor_def color_defs)

lemma light_nonempty: "isLightColor ov \<Longrightarrow> ov \<noteq> []"
  by (auto simp: isLightColor_def color_defs)

text \<open>
  C8. The override merge is a total function of the live colour and the optional override;
  a special override (not for sale, other source, box office) is returned whatever the
  live colour is; otherwise a live sold colour is returned, also against a free override;
  otherwise a sold override is returned; otherwise a free override is returned; otherwise,
  and when there is no override, the live colour is returned.
\<close>

theorem mergeColors_priority:
  "mergeColors live None = live
   \<and> (isSpecialColor ov \<longrightarrow> mergeColors live (Some ov) = ov)
   \<and> (\<not> isSpecialColor ov \<and> isDarkColor live \<longrightarrow> mergeColors live (Some ov) = live)
   \<and> (\<not> isSpecialColor ov \<and> \<not> isDarkColor live \<and> isDarkColor ov
        \<longrightarrow> mergeColors live (Some ov) = ov)
   \<and> (\<not> isSpecialColor ov \<and> \<not> isDarkColor live \<and> \<not> isDarkColor ov \<and> isLightColor ov
        \<longrightarrow> mergeColors live (Some ov) = ov)
   \<and> (\<not> isSpecialColor ov \<and> \<not> isDarkColor ov \<and> \<not> isLightColor ov
        \<longrightarrow> mergeColors live (Some ov) = live)"
  using special_nonempty [of ov] dark_nonempty [of ov] light_nonempty [of ov]
  by (auto simp: mergeColors_def)

theorem mergeColors_priority_witness:
  "mergeColors kupbilecikSold None = kupbilecikSold
   \<and> isSpecialColor notForSale \<and> mergeColors kupbilecikSold (Some notForSale) = notForSale
   \<and> \<not> isSpecialColor ebiletFree \<and> isDarkColor kupbilecikSold
   \<and> mergeColors kupbilecikSold (Some ebiletFree) = kupbilecikSold
   \<and> \<not> isSpecialColor ebiletSold \<and> \<not> isDarkColor noData \<and> isDarkColor ebiletSold
   \<and> mergeColors noData (Some ebiletSold) = ebiletSold
   \<and> \<not> isDarkColor biletynaFree \<and> \<not> isDarkColor ebiletFree \<and> isLightColor ebiletFree
   \<and> mergeColors biletynaFree (Some ebiletFree) = ebiletFree
   \<and> \<not> isSpecialColor noData \<and> \<not> isLightColor noData
   \<and> mergeColors biletynaFree (Some noData) = biletynaFree"
proof -
  have s: "isSpecialColor notForSale" "\<not> isSpecialColor ebiletFree" "\<not> isSpecialColor noData"
       "\<not> isSpecialColor ebiletSold"
    by (simp_all add: isSpecialColor_def color_defs)
  have d: "isDarkColor kupbilecikSold" "isDarkColor ebiletSold" "\<not> isDarkColor noData"
       "\<not> isDarkColor biletynaFree" "\<not> isDarkColor ebiletFree"
    by (simp_all add: isDarkColor_def color_defs)
  have l: "isLightColor ebiletFree" "\<not> isLightColor noData"
    by (simp_all add: isLightColor_def color_defs)
  show ?thesis
    using s d l
      mergeColors_priority [of kupbilecikSold notForSale]
      mergeColors_priority [of kupbilecikSold ebiletFree]
      mergeColors_priority [of noData ebiletSold]
      mergeColors_priority [of biletynaFree ebiletFree]
      mergeColors_priority [of biletynaFree noData]
    by simp
qed

subsection \<open>Period-over-period diff\<close>

lemma no_hyphen_in_prototype_names: "eventId \<in> set objectPrototypeNames \<Longrightarrow> hyphen \<notin> set eventId"
  by (auto simp: objectPrototypeNames_def str_def)

text \<open>An event id built by \<open>generateEventId\<close> is not the name of an inherited property.\<close>

lemma eventIdOf_not_inherited:
  "eventIdOf datePart timePart cityPart titleHash \<notin> set objectPrototypeNames"
  using no_hyphen_in_prototype_names [of "eventIdOf datePart timePart cityPart titleHash"]
  by (auto simp: eventIdOf_def)

text \<open>
  For the event id "constructor" and a stats history without entry for it, the code finds
  the inherited property, and the diff is present, with the three counts NaN.
\<close>

lemma diff_of_inherited_property:
  "previousSnapshot (FileObject []) (str ''constructor'') = None
   \<and> fst (diffStep results now (FileObject []) (str ''constructor'')) = NaNDiff"
  by (simp add: previousSnapshot_def diffStep_def calculateDiff_def loadStatsHistory_def
      objectPrototypeNames_def)

text \<open>
  C9. For an event id that is not the name of a property of \<open>Object.prototype\<close>, as the
  ids that \<open>generateEventId\<close> builds are, the diff is absent exactly when the stats
  history holds no previous snapshot of the event. When it holds one, each vendor's delta
  is the maximum of 0 and the current taken count minus the previous one, and so is never
  negative.
\<close>

theorem diff_absent_or_clamped:
  "(eventId \<notin> set objectPrototypeNames \<longrightarrow>
      (fst (diffStep results now file eventId) = NoDiff
         \<longleftrightarrow> previousSnapshot file eventId = None))
   \<and> (\<forall>prev. previousSnapshot file eventId = Some prev \<longrightarrow>
         (\<exists>d. fst (diffStep results now file eventId) = Diff d
            \<and> biletynaTaken d = max 0 (takenOr0 results biletyna - biletynaTaken prev)
            \<and> ebiletTaken d = max 0 (takenOr0 results ebilet - ebiletTaken prev)
            \<and> kupbilecikTaken d = max 0 (takenOr0 results kupbilecik - kupbilecikTaken prev)
            \<and> lastUpdated d = timestamp prev
            \<and> 0 \<le> biletynaTaken d \<and> 0 \<le> ebiletTaken d \<and> 0 \<le> kupbilecikTaken d))"
  by (auto simp: diffStep_def calculateDiff_def currentStatsEntry_def Let_def
        loadStatsHistory_def previousSnapshot_def
      split: StatsHistoryFile.splits option.splits)

theorem diff_absent_or_clamped_witness:
  "exampleEventId \<notin> set objectPrototypeNames
   \<and> previousSnapshot exampleStatsFile exampleEventId
     = Some \<lparr> biletynaTaken = 10, ebiletTaken = 0, kupbilecikTaken = 0, timestamp = str ''t0'' \<rparr>
   \<and> takenOr0 exampleResults biletyna = 8
   \<and> (\<exists>d. fst (diffStep exampleResults (str ''t1'') exampleStatsFile exampleEventId) = Diff d
          \<and> biletynaTaken d = 0)
   \<and> previousSnapshot FileMissing exampleEventId = None
   \<and> fst (diffStep exampleResults (str ''t1'') FileMissing exampleEventId) = NoDiff"
proof -
  have i: "exampleEventId \<notin> set objectPrototypeNames"
    unfolding exampleEventId_def by (rule eventIdOf_not_inherited)
  have l: "previousSnapshot exampleStatsFile exampleEventId
     = Some \<lparr> biletynaTaken = 10, ebiletTaken = 0, kupbilecikTaken = 0, timestamp = str ''t0'' \<rparr>"
    by (simp add: previousSnapshot_def exampleStatsFile_def)
  have t: "takenOr0 exampleResults biletyna = 8"
    by (simp add: takenOr0_def exampleResults_def)
  have n: "previousSnapshot FileMissing exampleEventId = None"
    by (simp add: previousSnapshot_def)
  show ?thesis
    using i l t n
      diff_absent_or_clamped [of exampleEventId exampleResults "str ''t1''" exampleStatsFile]
      diff_absent_or_clamped [of exampleEventId exampleResults "str ''t1''" FileMissing]
    by auto
qed

end
